(* ===== verification/Seeder_Prelude.thy ===== *)
theory Seeder_Prelude
  imports Main "HOL-Library.Word" "HOL-Library.Multiset"
begin

text \<open>
  Shared vocabulary of the development: machine integers at the widths the code uses,
  results with \<open>?\<close>-style early return, the loops and iterator adaptors the code takes
  from Rust's standard library, decimal printing, and the two locales that lift a
  one-step fact to every run of a component.
\<close>

section \<open>Machine integers\<close>

type_synonym u8 = "8 word"
type_synonym u16 = "16 word"
type_synonym u32 = "32 word"
type_synonym u64 = "64 word"

text \<open>
  \<open>usize\<close> is 64 bits wide on every target the seeder is built for.
\<close>

type_synonym usize = "64 word"

text \<open>Rust's \<open>saturating_add\<close> and \<open>saturating_mul\<close> on unsigned integers.\<close>

definition saturating_add :: "'a::len word \<Rightarrow> 'a word \<Rightarrow> 'a word" where
  "saturating_add a b = (if unat a + unat b < 2 ^ LENGTH('a) then a + b else - 1)"

definition saturating_mul :: "'a::len word \<Rightarrow> 'a word \<Rightarrow> 'a word" where
  "saturating_mul a b = (if unat a * unat b < 2 ^ LENGTH('a) then a * b else - 1)"

lemma unat_saturating_add:
  fixes a b :: "'a::len word"
  shows "unat (saturating_add a b) = min (unat a + unat b) (2 ^ LENGTH('a) - 1)"
proof (cases "unat a + unat b < 2 ^ LENGTH('a)")
  case True
  then show ?thesis by (simp add: saturating_add_def unat_word_ariths)
next
  case False
  then have "2 ^ LENGTH('a) - 1 \<le> unat a + unat b" by linarith
  with False show ?thesis
    by (simp add: saturating_add_def unsigned_minus_1_eq_mask mask_eq_exp_minus_1 min_absorb2)
qed

lemma unat_saturating_mul:
  fixes a b :: "'a::len word"
  shows "unat (saturating_mul a b) = min (unat a * unat b) (2 ^ LENGTH('a) - 1)"
proof (cases "unat a * unat b < 2 ^ LENGTH('a)")
  case True
  then show ?thesis by (simp add: saturating_mul_def unat_word_ariths)
next
  case False
  then have "2 ^ LENGTH('a) - 1 \<le> unat a * unat b" by linarith
  with False show ?thesis
    by (simp add: saturating_mul_def unsigned_minus_1_eq_mask mask_eq_exp_minus_1 min_absorb2)
qed

lemma unat_le_max: "unat (a :: 'a::len word) \<le> 2 ^ LENGTH('a) - 1"
proof -
  have "unat a < 2 ^ LENGTH('a)" by (rule unsigned_less)
  then show ?thesis by linarith
qed

lemma unat_of_nat_small: "n < 2 ^ LENGTH('a) \<Longrightarrow> unat (of_nat n :: 'a::len word) = n"
  by (simp add: unsigned_of_nat take_bit_nat_eq_self)

lemma saturating_add_ge: "a \<le> saturating_add a b"
  using unat_le_max[of a] by (simp add: word_le_nat_alt unat_saturating_add)

section \<open>Results and early return\<close>

text \<open>
  A fallible operation returns \<open>'e + 'a\<close>: \<open>Inl\<close> the error, \<open>Inr\<close> the value.
  \<open>bind_result\<close> is the \<open>?\<close> operator, \<open>ensure\<close> the macro of that name,
  \<open>ok_or\<close> the method on \<open>Option\<close>, and \<open>result_fold\<close> a \<open>for\<close> loop whose body
  may return early with an error.
\<close>

definition bind_result :: "'e + 'a \<Rightarrow> ('a \<Rightarrow> 'e + 'b) \<Rightarrow> 'e + 'b" where
  "bind_result r f = (case r of Inl e \<Rightarrow> Inl e | Inr a \<Rightarrow> f a)"

definition ensure :: "bool \<Rightarrow> 'e \<Rightarrow> 'e + unit" where
  "ensure b e = (if b then Inr () else Inl e)"

definition ok_or :: "'e \<Rightarrow> 'a option \<Rightarrow> 'e + 'a" where
  "ok_or e x = (case x of None \<Rightarrow> Inl e | Some a \<Rightarrow> Inr a)"

definition map_err :: "('e \<Rightarrow> 'f) \<Rightarrow> 'e + 'a \<Rightarrow> 'f + 'a" where
  "map_err f r = (case r of Inl e \<Rightarrow> Inl (f e) | Inr a \<Rightarrow> Inr a)"

fun result_fold :: "('s \<Rightarrow> 'a \<Rightarrow> 'e + 's) \<Rightarrow> 's \<Rightarrow> 'a list \<Rightarrow> 'e + 's" where
  "result_fold f s [] = Inr s"
| "result_fold f s (x # xs) = bind_result (f s x) (\<lambda>s'. result_fold f s' xs)"

abbreviation is_ok :: "'e + 'a \<Rightarrow> bool" where
  "is_ok r \<equiv> \<not> isl r"

named_theorems result_simps \<open>rewrite rules for fallible operations\<close>

lemma bind_result_simps [simp]:
  "bind_result (Inl e) f = Inl e"
  "bind_result (Inr a) f = f a"
  by (simp_all add: bind_result_def)

lemma bind_result_Inr_iff [result_simps]:
  "bind_result r f = Inr b \<longleftrightarrow> (\<exists>a. r = Inr a \<and> f a = Inr b)"
  by (cases r) auto

lemma bind_result_Inl_iff [result_simps]:
  "bind_result r f = Inl e \<longleftrightarrow> r = Inl e \<or> (\<exists>a. r = Inr a \<and> f a = Inl e)"
  by (cases r) auto

lemma ensure_Inr_iff [result_simps]: "ensure b e = Inr u \<longleftrightarrow> b"
  by (simp add: ensure_def)

lemma ensure_Inl_iff [result_simps]: "ensure b e = Inl e' \<longleftrightarrow> \<not> b \<and> e' = e"
  by (auto simp: ensure_def)

lemma ok_or_Inr_iff [result_simps]: "ok_or e x = Inr a \<longleftrightarrow> x = Some a"
  by (auto simp: ok_or_def split: option.splits)

lemma ok_or_Inl_iff [result_simps]: "ok_or e x = Inl e' \<longleftrightarrow> x = None \<and> e' = e"
  by (auto simp: ok_or_def split: option.splits)

lemma map_err_Inr_iff [result_simps]: "map_err f r = Inr a \<longleftrightarrow> r = Inr a"
  by (auto simp: map_err_def split: sum.splits)

lemma is_ok_iff [result_simps]: "is_ok r \<longleftrightarrow> (\<exists>a. r = Inr a)"
  by (cases r) auto

section \<open>Loops that check each element\<close>

text \<open>
  Two places of the code run over a numbered list of texts, parse each, refuse it in the
  light of what was accepted before, and otherwise record it. \<open>all_admitted\<close> says that
  no element is refused; the locale turns a fact about the loop's body into one about the
  whole loop.
\<close>

fun all_admitted :: "('s \<Rightarrow> 'n \<Rightarrow> bool) \<Rightarrow> ('s \<Rightarrow> 'n \<Rightarrow> 's) \<Rightarrow> 's \<Rightarrow> 'n list \<Rightarrow> bool" where
  "all_admitted admit upd s [] = True"
| "all_admitted admit upd s (n # ns) = (admit s n \<and> all_admitted admit upd (upd s n) ns)"

locale checked_loop =
  fixes body :: "'s \<Rightarrow> nat \<times> 'a \<Rightarrow> 'e + 's"
    and parse :: "'a \<Rightarrow> 'n option"
    and admit :: "'s \<Rightarrow> 'n \<Rightarrow> bool"
    and upd :: "'s \<Rightarrow> 'n \<Rightarrow> 's"
  assumes body_Inr: "body s (i, x) = Inr s' \<longleftrightarrow> (\<exists>n. parse x = Some n \<and> admit s n \<and> s' = upd s n)"
begin

lemma loop_Inr:
  "result_fold body s (List.enumerate k xs) = Inr s' \<longleftrightarrow>
     (\<exists>ns. those (map parse xs) = Some ns \<and> all_admitted admit upd s ns \<and> s' = foldl upd s ns)"
proof (induction xs arbitrary: k s)
  case Nil
  then show ?case by auto
next
  case (Cons x xs)
  then show ?case
    by (auto simp: bind_result_Inr_iff body_Inr split: option.splits)
qed

end

section \<open>Iterator adaptors\<close>

lemma list_all2_set1: "list_all2 P xs ys \<Longrightarrow> x \<in> set xs \<Longrightarrow> \<exists>y \<in> set ys. P x y"
  by (induction rule: list_all2_induct) auto

lemma list_all2_set2: "list_all2 P xs ys \<Longrightarrow> y \<in> set ys \<Longrightarrow> \<exists>x \<in> set xs. P x y"
  by (induction rule: list_all2_induct) auto

text \<open>
  \<open>Iterator::max_by_key\<close> returns the last of several maximal elements: a later element
  replaces the current one when its key is at least as large.
\<close>

fun max_by_key :: "('a \<Rightarrow> 'k::linorder) \<Rightarrow> 'a list \<Rightarrow> 'a option" where
  "max_by_key key [] = None"
| "max_by_key key (x # xs) = Some (foldl (\<lambda>m y. if key m \<le> key y then y else m) x xs)"

lemma max_by_key_None_iff [simp]: "max_by_key key xs = None \<longleftrightarrow> xs = []"
  by (cases xs) auto

lemma foldl_max_in:
  "foldl (\<lambda>m y. if key m \<le> key y then y else m) x xs \<in> insert x (set xs)"
  by (induction xs arbitrary: x) auto

lemma foldl_max_ge:
  fixes key :: "'a \<Rightarrow> 'k::linorder"
  shows "z \<in> insert x (set xs) \<Longrightarrow>
    key z \<le> key (foldl (\<lambda>m y. if key m \<le> key y then y else m) x xs)"
proof (induction xs arbitrary: x z)
  case Nil
  then show ?case by simp
next
  case (Cons y ys)
  let ?x = "if key x \<le> key y then y else x"
  have "key ?x \<le> key (foldl (\<lambda>m y. if key m \<le> key y then y else m) ?x ys)"
    by (rule Cons.IH) simp
  moreover have "w \<in> set ys \<Longrightarrow>
    key w \<le> key (foldl (\<lambda>m y. if key m \<le> key y then y else m) ?x ys)" for w
    by (rule Cons.IH) simp
  moreover have "z \<in> set ys \<or> key z \<le> key ?x" using Cons.prems by auto
  ultimately show ?case unfolding foldl_Cons by (blast intro: order_trans)
qed

lemma max_by_key_in: "max_by_key key xs = Some x \<Longrightarrow> x \<in> set xs"
  using foldl_max_in[of key] by (cases xs) auto

lemma max_by_key_ge: "max_by_key key xs = Some x \<Longrightarrow> y \<in> set xs \<Longrightarrow> key y \<le> key x"
  using foldl_max_ge[of y _ _ key] by (cases xs) auto

section \<open>Random shuffles\<close>

text \<open>
  \<open>SliceRandom::shuffle\<close> of the \<open>rand\<close> crate is a parameter of the model: a function
  from the generator state and the list to the reordered list and the next generator
  state. What the code relies on, and the crate documents, is that the result is a
  reordering of its input.
\<close>

type_synonym ('r, 'a) shuffler = "'r \<Rightarrow> 'a list \<Rightarrow> 'a list \<times> 'r"

definition is_shuffle :: "('r, 'a) shuffler \<Rightarrow> bool" where
  "is_shuffle sh \<longleftrightarrow> (\<forall>r xs. mset (fst (sh r xs)) = mset xs)"

text \<open>A concrete generator for the witnesses: the state counts the calls and rotates by it.\<close>

definition rotating_shuffle :: "(nat, 'a) shuffler" where
  "rotating_shuffle r xs = (rotate r xs, Suc r)"

lemma mset_rotate_n: "mset (rotate n xs) = mset xs"
proof (induction n)
  case (Suc n)
  then show ?case by (cases "rotate n xs") auto
qed simp

lemma is_shuffle_rotating: "is_shuffle rotating_shuffle"
  by (simp add: is_shuffle_def rotating_shuffle_def mset_rotate_n)

lemma shuffle_mset: "is_shuffle sh \<Longrightarrow> mset (fst (sh r xs)) = mset xs"
  by (simp add: is_shuffle_def)

lemma shuffle_set: "is_shuffle sh \<Longrightarrow> set (fst (sh r xs)) = set xs"
  by (metis shuffle_mset mset_eq_setD)

lemma shuffle_length: "is_shuffle sh \<Longrightarrow> length (fst (sh r xs)) = length xs"
  by (metis shuffle_mset mset_eq_length)

lemma shuffle_distinct: "is_shuffle sh \<Longrightarrow> distinct (fst (sh r xs)) = distinct xs"
  by (metis shuffle_mset mset_eq_imp_distinct_iff)

lemmas shuffle_facts = shuffle_mset shuffle_set shuffle_length shuffle_distinct

section \<open>Decimal printing\<close>

text \<open>\<open>Display\<close> of the unsigned integers, and a reader that inverts it.\<close>

definition digit_char :: "nat \<Rightarrow> char" where
  "digit_char d = char_of (48 + d)"

fun show_nat :: "nat \<Rightarrow> string" where
  "show_nat n = (if 10 \<le> n then show_nat (n div 10) else []) @ [digit_char (n mod 10)]"

declare show_nat.simps [simp del]

lemma digit_chars:
  "char_of (48 :: nat) = CHR ''0''" "char_of (49 :: nat) = CHR ''1''" "char_of (50 :: nat) = CHR ''2''"
  "char_of (51 :: nat) = CHR ''3''" "char_of (52 :: nat) = CHR ''4''" "char_of (53 :: nat) = CHR ''5''"
  "char_of (54 :: nat) = CHR ''6''" "char_of (55 :: nat) = CHR ''7''" "char_of (56 :: nat) = CHR ''8''"
  "char_of (57 :: nat) = CHR ''9''"
  by code_simp+

definition read_nat :: "string \<Rightarrow> nat" where
  "read_nat s = foldl (\<lambda>a c. 10 * a + (of_char c - 48)) 0 s"

lemma of_char_digit_char: "d < 10 \<Longrightarrow> of_char (digit_char d) = 48 + d"
  by (simp add: digit_char_def of_char_of)

lemma read_nat_show_nat [simp]: "read_nat (show_nat n) = n"
proof (induction n rule: show_nat.induct)
  case (1 n)
  show ?case
  proof (cases "10 \<le> n")
    case True
    with "1" have "read_nat (show_nat (n div 10)) = n div 10" by simp
    with True show ?thesis
      by (subst show_nat.simps) (simp add: read_nat_def of_char_digit_char)
  next
    case False
    then show ?thesis
      by (subst show_nat.simps) (simp add: read_nat_def of_char_digit_char)
  qed
qed

lemma show_nat_inject [simp]: "show_nat m = show_nat n \<longleftrightarrow> m = n"
  by (metis read_nat_show_nat)

lemma show_nat_digits: "set (show_nat n) \<subseteq> digit_char ` {..<10}"
proof (induction n rule: show_nat.induct)
  case (1 n)
  then show ?case by (subst show_nat.simps) (auto split: if_splits)
qed

lemma newline_not_digit: "CHR 0x0A \<notin> digit_char ` {..<10}"
  by (auto dest!: arg_cong[where f = "of_char :: char \<Rightarrow> nat"] simp: of_char_digit_char)

lemma show_nat_no_newline [simp]: "CHR 0x0A \<notin> set (show_nat n)"
  using show_nat_digits[of n] newline_not_digit by blast

lemma show_nat_nonempty [simp]: "show_nat n \<noteq> []"
  by (subst show_nat.simps) simp

definition show_u32 :: "u32 \<Rightarrow> string" where
  "show_u32 w = show_nat (unat w)"

lemma show_u32_inject [simp]: "show_u32 v = show_u32 w \<longleftrightarrow> v = w"
  by (simp add: show_u32_def word_unat_eq_iff)

lemma show_u32_no_newline [simp]: "CHR 0x0A \<notin> set (show_u32 w)"
  by (simp add: show_u32_def)

section \<open>From one step to every run\<close>

text \<open>
  A component with state is a step function driven by inputs. A safe machine keeps an
  invariant on good inputs; a monotone machine also never lowers a level read off its
  state. Every component's run facts are instances of the two lemmas here.
\<close>

locale safe_machine =
  fixes step :: "'s \<Rightarrow> 'i \<Rightarrow> 's"
    and good :: "'i \<Rightarrow> bool"
    and inv :: "'s \<Rightarrow> bool"
  assumes step_inv: "inv s \<Longrightarrow> good i \<Longrightarrow> inv (step s i)"
begin

lemma run_inv: "inv s \<Longrightarrow> list_all good is \<Longrightarrow> inv (foldl step s is)"
  by (induction "is" arbitrary: s) (auto intro: step_inv)

end

locale monotone_machine = safe_machine +
  fixes level :: "'s \<Rightarrow> 'l::order"
  assumes step_level: "inv s \<Longrightarrow> good i \<Longrightarrow> level s \<le> level (step s i)"
begin

lemma run_level: "inv s \<Longrightarrow> list_all good is \<Longrightarrow> level s \<le> level (foldl step s is)"
proof (induction "is" arbitrary: s)
  case Nil
  then show ?case by simp
next
  case (Cons i "is")
  then have "level (step s i) \<le> level (foldl step (step s i) is)"
    by (intro Cons.IH) (auto intro: step_inv)
  with Cons.prems show ?case
    by (auto intro: order_trans[OF step_level])
qed

end

end
