(* ===== verification/Net_Address.thy ===== *)
theory Net_Address
  imports Seeder_Prelude
begin

text \<open>
  The part of Rust's \<open>std::net\<close> and \<open>std::time\<close> the seeder uses: IP addresses with
  the predicates the servability check asks, socket addresses with their textual form, and
  durations with the saturating operations of the sweep-interval constants. A
  \<open>PeerSocketAddr\<close> of zebra-network is a newtype over a socket address and is modelled by it.
\<close>

section \<open>IP addresses\<close>

datatype ipv4_addr = Ipv4Addr u8 u8 u8 u8

datatype ipv6_addr = Ipv6Addr u16 u16 u16 u16 u16 u16 u16 u16

datatype ip_addr = V4 ipv4_addr | V6 ipv6_addr

fun octets :: "ipv4_addr \<Rightarrow> u8 list" where
  "octets (Ipv4Addr a b c d) = [a, b, c, d]"

fun segments :: "ipv6_addr \<Rightarrow> u16 list" where
  "segments (Ipv6Addr a b c d e f g h) = [a, b, c, d, e, f, g, h]"

lemma length_octets [simp]: "length (octets a) = 4"
  by (cases a) simp

lemma length_segments [simp]: "length (segments a) = 8"
  by (cases a) simp

fun is_ipv4 :: "ip_addr \<Rightarrow> bool" where
  "is_ipv4 (V4 _) = True"
| "is_ipv4 (V6 _) = False"

text \<open>
  Loopback is \<open>127.0.0.0/8\<close> or \<open>::1\<close>, unspecified is \<open>0.0.0.0\<close> or \<open>::\<close>, multicast is
  \<open>224.0.0.0/4\<close> or \<open>ff00::/8\<close>.
\<close>

fun is_loopback :: "ip_addr \<Rightarrow> bool" where
  "is_loopback (V4 a) \<longleftrightarrow> octets a ! 0 = 127"
| "is_loopback (V6 a) \<longleftrightarrow> segments a = [0, 0, 0, 0, 0, 0, 0, 1]"

fun is_unspecified :: "ip_addr \<Rightarrow> bool" where
  "is_unspecified (V4 a) \<longleftrightarrow> octets a = [0, 0, 0, 0]"
| "is_unspecified (V6 a) \<longleftrightarrow> segments a = [0, 0, 0, 0, 0, 0, 0, 0]"

fun is_multicast :: "ip_addr \<Rightarrow> bool" where
  "is_multicast (V4 a) \<longleftrightarrow> 224 \<le> octets a ! 0 \<and> octets a ! 0 \<le> 239"
| "is_multicast (V6 a) \<longleftrightarrow> 0xFF00 \<le> segments a ! 0"

definition LOCALHOST_V4 :: ip_addr where
  "LOCALHOST_V4 = V4 (Ipv4Addr 127 0 0 1)"

definition UNSPECIFIED_V4 :: ip_addr where
  "UNSPECIFIED_V4 = V4 (Ipv4Addr 0 0 0 0)"

definition UNSPECIFIED_V6 :: ip_addr where
  "UNSPECIFIED_V6 = V6 (Ipv6Addr 0 0 0 0 0 0 0 0)"

section \<open>Socket addresses\<close>

text \<open>
  Every socket address the program builds itself comes from \<open>SocketAddr::new\<close>, which
  leaves the IPv6 flow and scope fields zero, so the record has the two remaining fields.
\<close>

record socket_addr =
  sa_ip :: ip_addr
  sa_port :: u16

type_synonym peer_addr = socket_addr

abbreviation mk_addr :: "ip_addr \<Rightarrow> u16 \<Rightarrow> socket_addr" where
  "mk_addr i p \<equiv> \<lparr>sa_ip = i, sa_port = p\<rparr>"

section \<open>Textual form\<close>

definition hex_char :: "nat \<Rightarrow> char" where
  "hex_char d = char_of (if d < 10 then 48 + d else 87 + d)"

fun show_hex :: "nat \<Rightarrow> string" where
  "show_hex n = (if 16 \<le> n then show_hex (n div 16) else []) @ [hex_char (n mod 16)]"

declare show_hex.simps [simp del]

fun join_with :: "string \<Rightarrow> string list \<Rightarrow> string" where
  "join_with sep [] = []"
| "join_with sep [x] = x"
| "join_with sep (x # xs) = x @ sep @ join_with sep xs"

definition show_ipv4 :: "ipv4_addr \<Rightarrow> string" where
  "show_ipv4 a = join_with ''.'' (map (\<lambda>b. show_nat (unat b)) (octets a))"

text \<open>
  An IPv6 address prints an embedded IPv4 address in dotted form, otherwise it replaces the
  first longest run of at least two zero segments by \<open>::\<close>. A run is its start and length;
  the loop carries the longest run seen and the current one.
\<close>

fun longest_zeroes :: "nat \<Rightarrow> nat \<times> nat \<Rightarrow> nat \<times> nat \<Rightarrow> u16 list \<Rightarrow> nat \<times> nat" where
  "longest_zeroes i longest current [] = longest"
| "longest_zeroes i longest current (s # ss) =
     (if s = 0 then
        let current' = (if snd current = 0 then i else fst current, Suc (snd current));
            longest' = (if snd longest < snd current' then current' else longest)
        in longest_zeroes (Suc i) longest' current' ss
      else longest_zeroes (Suc i) longest (0, 0) ss)"

definition show_segments :: "u16 list \<Rightarrow> string" where
  "show_segments ss = join_with '':'' (map (\<lambda>s. show_hex (unat s)) ss)"

fun to_ipv4_mapped :: "ipv6_addr \<Rightarrow> ipv4_addr option" where
  "to_ipv4_mapped (Ipv6Addr a b c d e f g h) =
     (if [a, b, c, d, e] = [0, 0, 0, 0, 0] \<and> f = 0xFFFF then
        Some (Ipv4Addr (ucast (drop_bit 8 g)) (ucast g) (ucast (drop_bit 8 h)) (ucast h))
      else None)"

definition show_ipv6 :: "ipv6_addr \<Rightarrow> string" where
  "show_ipv6 a =
     (case to_ipv4_mapped a of
        Some v4 \<Rightarrow> ''::ffff:'' @ show_ipv4 v4
      | None \<Rightarrow>
          let ss = segments a; z = longest_zeroes 0 (0, 0) (0, 0) ss
          in if 1 < snd z then
               show_segments (take (fst z) ss) @ ''::'' @ show_segments (drop (fst z + snd z) ss)
             else show_segments ss)"

definition show_socket_addr :: "socket_addr \<Rightarrow> string" where
  "show_socket_addr a =
     (case sa_ip a of
        V4 i \<Rightarrow> show_ipv4 i
      | V6 i \<Rightarrow> ''['' @ show_ipv6 i @ '']'') @ '':'' @ show_nat (unat (sa_port a))"

section \<open>Durations\<close>

text \<open>
  A \<open>Duration\<close> counts nanoseconds up to \<open>u64::MAX\<close> seconds and 999,999,999 nanoseconds;
  the saturating operations stop there.
\<close>

type_synonym duration = nat

definition DURATION_MAX :: duration where
  "DURATION_MAX = (2 ^ 64 - 1) * 10 ^ 9 + 999999999"

definition from_secs :: "nat \<Rightarrow> duration" where
  "from_secs s = s * 10 ^ 9"

definition duration_saturating_add :: "duration \<Rightarrow> duration \<Rightarrow> duration" where
  "duration_saturating_add a b = min (a + b) DURATION_MAX"

definition duration_saturating_mul :: "duration \<Rightarrow> u32 \<Rightarrow> duration" where
  "duration_saturating_mul a n = min (a * unat n) DURATION_MAX"

text \<open>
  \<open>tokio::time::timeout\<close>: a future is \<open>None\<close> when it never completes, and otherwise the
  time it takes and its value; the value is there when it comes within the limit.
\<close>

definition timeout :: "duration \<Rightarrow> (duration \<times> 'a) option \<Rightarrow> 'a option" where
  "timeout limit future = (case future of
     None \<Rightarrow> None
   | Some (elapsed, x) \<Rightarrow> if elapsed \<le> limit then Some x else None)"

end
