(* ===== verification/Zebra_Api.thy ===== *)
theory Zebra_Api
  imports Net_Address
begin

text \<open>
  zebra-chain, zebra-network and hickory-proto are not part of the repository, so what the
  seeder calls of them is a parameter: a record of the functions and constants the source
  names, over type variables for the types that stay opaque. The named laws at the end
  state what those libraries document and the seeder relies on; a theorem that needs one
  has it as a hypothesis.
\<close>

section \<open>Chain and network parameters\<close>

text \<open>A \<open>Height\<close> and a \<open>Version\<close> are newtypes over \<open>u32\<close>.\<close>

type_synonym height = u32
type_synonym version = u32

text \<open>A \<open>PathBuf\<close> as its components; \<open>join\<close> appends one.\<close>

type_synonym path = "string list"

definition path_join :: "path \<Rightarrow> string \<Rightarrow> path" where
  "path_join p s = p @ [s]"

text \<open>The fields of \<open>zebra_network::Config\<close> the seeder sets or reads.\<close>

record ('net, 'cache) zebra_config =
  nc_network :: 'net
  nc_listen_addr :: socket_addr
  nc_external_addr :: "socket_addr option"
  nc_max_connections_per_ip :: nat
  nc_cache_dir :: 'cache

record ('net, 'cache) zebra =
  zb_mainnet :: 'net
  zb_default_testnet :: 'net
  zb_default_port :: "'net \<Rightarrow> u16"
  zb_lowercase_name :: "'net \<Rightarrow> string"
  zb_default_config :: "('net, 'cache) zebra_config"
  zb_cache_dir :: "'cache \<Rightarrow> path option"
  zb_custom_path :: "path \<Rightarrow> 'cache"
  zb_max_height :: height
  zb_current_activation_height :: "'net \<Rightarrow> height \<Rightarrow> height"
  zb_max_block_reorg_height :: u32
  zb_previous_height :: "height \<Rightarrow> height option"
  zb_min_remote_for_height :: "'net \<Rightarrow> height option \<Rightarrow> version"
  zb_target_spacing_for_height :: "'net \<Rightarrow> height \<Rightarrow> duration option"
  zb_handshake_timeout :: duration
  zb_min_peer_reconnection_delay :: duration

section \<open>The address book\<close>

text \<open>
  \<open>AddressBook\<close> and \<open>MetaAddr\<close> through the accessors the seeder calls. \<open>'time\<close> is
  chrono's \<open>DateTime<Utc>\<close>.
\<close>

record ('book, 'meta, 'net, 'time) book_api =
  ab_peers :: "'book \<Rightarrow> 'meta list"
  ab_len :: "'book \<Rightarrow> nat"
  ab_misbehavior_score :: "'book \<Rightarrow> peer_addr \<Rightarrow> u32"
  ma_addr :: "'meta \<Rightarrow> peer_addr"
  ma_was_recently_live :: "'meta \<Rightarrow> 'time \<Rightarrow> bool"
  ma_negotiated_version :: "'meta \<Rightarrow> version option"
  ma_valid_for_outbound :: "'meta \<Rightarrow> 'net \<Rightarrow> bool"
  ma_is_inbound :: "'meta \<Rightarrow> bool"

section \<open>Domain names\<close>

text \<open>
  \<open>Name\<close> (type variable \<open>'n\<close>) and \<open>LowerName\<close> (\<open>'l\<close>) of hickory-proto, with the
  methods the seeder calls. \<open>hk_set_fqdn\<close> is \<open>set_fqdn(true)\<close>.
\<close>

record ('n, 'l) hickory =
  hk_from_ascii :: "string \<Rightarrow> 'n option"
  hk_set_fqdn :: "'n \<Rightarrow> 'n"
  hk_to_ascii :: "'n \<Rightarrow> string"
  hk_lower :: "'n \<Rightarrow> 'l"
  hk_to_name :: "'l \<Rightarrow> 'n"
  hk_zone_of :: "'l \<Rightarrow> 'l \<Rightarrow> bool"
  hk_num_labels :: "'l \<Rightarrow> nat"

text \<open>
  What hickory documents of the name order, over the list of a name's labels (leftmost
  first): \<open>zone_of\<close> holds when the zone's labels end the name's labels, and
  \<open>num_labels\<close> counts the labels without a leading \<open>*\<close>.
\<close>

definition counted_labels :: "string list \<Rightarrow> nat" where
  "counted_labels ls = (case ls of [] \<Rightarrow> 0 | l # rest \<Rightarrow> (if l = ''*'' then 0 else 1) + length rest)"

definition name_laws :: "('n, 'l) hickory \<Rightarrow> ('l \<Rightarrow> string list) \<Rightarrow> bool" where
  "name_laws h labels \<longleftrightarrow>
     (\<forall>z n. hk_zone_of h z n \<longleftrightarrow> (\<exists>pre. labels n = pre @ labels z)) \<and>
     (\<forall>n. hk_num_labels h n = counted_labels (labels n))"

section \<open>An instance for the witnesses\<close>

text \<open>
  Networks as booleans (\<open>False\<close> mainnet, \<open>True\<close> testnet) with the activation heights,
  ports and protocol versions that the repository's own unit tests pin for its locked
  zebra release; a cache directory is an optional path.
\<close>

definition pinned_zebra :: "(bool, path option) zebra" where
  "pinned_zebra = \<lparr>
     zb_mainnet = False,
     zb_default_testnet = True,
     zb_default_port = (\<lambda>t. if t then 18233 else 8233),
     zb_lowercase_name = (\<lambda>t. if t then ''testnet'' else ''mainnet''),
     zb_default_config = \<lparr>
       nc_network = False, nc_listen_addr = mk_addr UNSPECIFIED_V4 8233,
       nc_external_addr = None, nc_max_connections_per_ip = 1,
       nc_cache_dir = Some [''cache'', ''zebra'']\<rparr>,
     zb_cache_dir = (\<lambda>c. c),
     zb_custom_path = Some,
     zb_max_height = 0x7FFFFFFF,
     zb_current_activation_height = (\<lambda>t _. if t then 4465026 else 3543405),
     zb_max_block_reorg_height = 1000,
     zb_previous_height = (\<lambda>h. if h = 0 then None else Some (h - 1)),
     zb_min_remote_for_height = (\<lambda>t h.
       case h of
         None \<Rightarrow> 170150
       | Some h \<Rightarrow>
           if t then (if h < 4465026 then 170160 else 170180)
           else (if h < 3543405 then 170160 else 170190)),
     zb_target_spacing_for_height = (\<lambda>_ _. Some (25 * 10 ^ 9)),
     zb_handshake_timeout = 3 * 10 ^ 9,
     zb_min_peer_reconnection_delay = 119 * 10 ^ 9\<rparr>"

lemma pinned_zebra_simps:
  "zb_mainnet pinned_zebra = False"
  "zb_default_testnet pinned_zebra = True"
  "zb_default_port pinned_zebra net = (if net then 18233 else 8233)"
  "zb_lowercase_name pinned_zebra net = (if net then ''testnet'' else ''mainnet'')"
  "zb_cache_dir pinned_zebra c = c"
  "zb_custom_path pinned_zebra p = Some p"
  "zb_max_height pinned_zebra = 0x7FFFFFFF"
  "zb_current_activation_height pinned_zebra net h = (if net then 4465026 else 3543405)"
  "zb_max_block_reorg_height pinned_zebra = 1000"
  "zb_previous_height pinned_zebra h = (if h = 0 then None else Some (h - 1))"
  "zb_min_remote_for_height pinned_zebra net None = 170150"
  "zb_min_remote_for_height pinned_zebra net (Some h) =
     (if net then (if h < 4465026 then 170160 else 170180) else (if h < 3543405 then 170160 else 170190))"
  "zb_target_spacing_for_height pinned_zebra net h = Some (25 * 10 ^ 9)"
  "zb_handshake_timeout pinned_zebra = 3 * 10 ^ 9"
  "zb_min_peer_reconnection_delay pinned_zebra = 119 * 10 ^ 9"
  by (simp_all add: pinned_zebra_def)

text \<open>
  Names as label lists: a text splits at its dots, and every label must be non-empty
  letters, digits, hyphens or an asterisk; a trailing dot is accepted.
\<close>

fun split_on :: "char \<Rightarrow> string \<Rightarrow> string list" where
  "split_on c [] = [[]]"
| "split_on c (x # xs) =
     (if x = c then [] # split_on c xs
      else (case split_on c xs of [] \<Rightarrow> [[x]] | w # ws \<Rightarrow> (x # w) # ws))"

definition label_char :: "char \<Rightarrow> bool" where
  "label_char c \<longleftrightarrow>
     (let n = of_char c :: nat
      in 48 \<le> n \<and> n \<le> 57 \<or> 65 \<le> n \<and> n \<le> 90 \<or> 97 \<le> n \<and> n \<le> 122 \<or> n = 45 \<or> n = 42)"

definition lower_char :: "char \<Rightarrow> char" where
  "lower_char c = (let n = of_char c :: nat in if 65 \<le> n \<and> n \<le> 90 then char_of (n + 32) else c)"

lemma lower_char_code [code]:
  "lower_char (Char b0 b1 b2 b3 b4 b5 b6 b7) =
     (if b6 \<and> \<not> b5 \<and> \<not> b7 \<and> (b0 \<or> b1 \<or> b2 \<or> b3 \<or> b4) \<and> \<not> (b4 \<and> b3 \<and> (b2 \<or> b0 \<and> b1))
      then Char b0 b1 b2 b3 b4 True b6 b7 else Char b0 b1 b2 b3 b4 b5 b6 b7)"
  by (cases b0; cases b1; cases b2; cases b3; cases b4; cases b5; cases b6; cases b7;
      simp add: lower_char_def Let_def char_of_def bit_iff_odd)

definition sample_from_ascii :: "string \<Rightarrow> string list option" where
  "sample_from_ascii s =
     (let ls = split_on (CHR ''.'') s;
          ls' = (if 1 < length ls \<and> last ls = [] then butlast ls else ls)
      in if list_all (\<lambda>l. l \<noteq> [] \<and> list_all label_char l) ls' then Some ls' else None)"

definition label_suffix :: "string list \<Rightarrow> string list \<Rightarrow> bool" where
  "label_suffix z n \<longleftrightarrow> length z \<le> length n \<and> drop (length n - length z) n = z"

definition sample_hickory :: "(string list, string list) hickory" where
  "sample_hickory = \<lparr>
     hk_from_ascii = sample_from_ascii,
     hk_set_fqdn = (\<lambda>n. n),
     hk_to_ascii = (\<lambda>n. join_with ''.'' n),
     hk_lower = map (map lower_char),
     hk_to_name = (\<lambda>n. n),
     hk_zone_of = label_suffix,
     hk_num_labels = counted_labels\<rparr>"

lemma label_suffix_iff: "label_suffix z n \<longleftrightarrow> (\<exists>pre. n = pre @ z)"
proof
  assume "label_suffix z n"
  then have "n = take (length n - length z) n @ z"
    by (metis append_take_drop_id label_suffix_def)
  then show "\<exists>pre. n = pre @ z" ..
qed (auto simp: label_suffix_def)

lemma sample_name_laws: "name_laws sample_hickory (\<lambda>n. n)"
  by (simp add: name_laws_def sample_hickory_def label_suffix_iff)

section \<open>Consequences of the name laws\<close>

lemma zone_of_refl: "name_laws h labels \<Longrightarrow> hk_zone_of h n n"
  by (simp add: name_laws_def)

lemma zone_of_iff_labels:
  "name_laws h labels \<Longrightarrow> hk_zone_of h z n \<longleftrightarrow> (\<exists>pre. labels n = pre @ labels z)"
  by (simp add: name_laws_def)

lemma num_labels_counted: "name_laws h labels \<Longrightarrow> hk_num_labels h n = counted_labels (labels n)"
  by (simp add: name_laws_def)

text \<open>Two zones that contain a common name are nested: this is what makes routing unambiguous.\<close>

lemma zone_of_chain:
  assumes laws: "name_laws h labels"
    and y: "hk_zone_of h y n" and z: "hk_zone_of h z n"
  shows "hk_zone_of h y z \<or> hk_zone_of h z y"
proof -
  from y obtain p where p: "labels n = p @ labels y"
    unfolding zone_of_iff_labels[OF laws] by blast
  from z obtain q where q: "labels n = q @ labels z"
    unfolding zone_of_iff_labels[OF laws] by blast
  from p q have "p @ labels y = q @ labels z" by simp
  then have "(\<exists>us. labels z = us @ labels y) \<or> (\<exists>us. labels y = us @ labels z)"
    unfolding append_eq_append_conv2 by metis
  then show ?thesis
    unfolding zone_of_iff_labels[OF laws] .
qed

lemma counted_labels_no_star:
  "ls = [] \<or> hd ls \<noteq> ''*'' \<Longrightarrow> counted_labels ls = length ls"
  by (cases ls) (auto simp: counted_labels_def)

lemma counted_labels_star [simp]: "counted_labels (''*'' # ls) = length ls"
  by (simp add: counted_labels_def)

end
