(* ===== verification/Network_Config.thy ===== *)
theory Network_Config
  imports Zebra_Api
begin

text \<open>
  \<open>src/config.rs\<close>: the configuration records with their defaults, the networks, and the
  validation of a resolved configuration. Layering the sources and deserializing them is
  the work of the config and serde crates and enters as a parameter of \<open>load_with_env\<close>.
\<close>

section \<open>Networks\<close>

datatype zcash_network = Mainnet | Testnet

text \<open>The derived \<open>Ord\<close> follows the order of the variants; it orders the zone map.\<close>

instantiation zcash_network :: linorder
begin

definition less_eq_zcash_network :: "zcash_network \<Rightarrow> zcash_network \<Rightarrow> bool" where
  "less_eq_zcash_network a b \<longleftrightarrow> a = Mainnet \<or> b = Testnet"

definition less_zcash_network :: "zcash_network \<Rightarrow> zcash_network \<Rightarrow> bool" where
  "less_zcash_network a b \<longleftrightarrow> a = Mainnet \<and> b = Testnet"

instance
proof
  fix x y z :: zcash_network
  show "(x < y) = (x \<le> y \<and> \<not> y \<le> x)"
    by (cases x; cases y) (auto simp: less_eq_zcash_network_def less_zcash_network_def)
  show "x \<le> x"
    by (cases x) (auto simp: less_eq_zcash_network_def)
  show "x \<le> y \<Longrightarrow> y \<le> z \<Longrightarrow> x \<le> z"
    by (cases x; cases y; cases z) (auto simp: less_eq_zcash_network_def)
  show "x \<le> y \<Longrightarrow> y \<le> x \<Longrightarrow> x = y"
    by (cases x; cases y) (auto simp: less_eq_zcash_network_def)
  show "x \<le> y \<or> y \<le> x"
    by (cases x; cases y) (auto simp: less_eq_zcash_network_def)
qed

end

fun to_zebra :: "('net, 'cache) zebra \<Rightarrow> zcash_network \<Rightarrow> 'net" where
  "to_zebra z Mainnet = zb_mainnet z"
| "to_zebra z Testnet = zb_default_testnet z"

fun network_label :: "zcash_network \<Rightarrow> string" where
  "network_label Mainnet = ''mainnet''"
| "network_label Testnet = ''testnet''"

definition network_config ::
  "('net, 'cache) zebra \<Rightarrow> zcash_network \<Rightarrow> ('net, 'cache) zebra_config" where
  "network_config z self =
     (let network = to_zebra z self;
          listen_addr = mk_addr UNSPECIFIED_V6 (zb_default_port z network)
      in (zb_default_config z)\<lparr>
           nc_network := network,
           nc_listen_addr := listen_addr,
           nc_external_addr := None,
           nc_max_connections_per_ip := 1\<rparr>)"

text \<open>
  \<open>BTreeMap<ZcashNetwork, _>\<close> is a map; its iterator runs over the keys in ascending order.
\<close>

definition btree_iter :: "(zcash_network \<rightharpoonup> 'v) \<Rightarrow> (zcash_network \<times> 'v) list" where
  "btree_iter m = List.map_filter (\<lambda>k. map_option (Pair k) (m k)) [Mainnet, Testnet]"

lemma mem_btree_iter: "(k, v) \<in> set (btree_iter m) \<longleftrightarrow> m k = Some v"
  by (cases k; cases "m Mainnet"; cases "m Testnet")
    (auto simp: btree_iter_def List.map_filter_def)

lemma set_btree_iter: "set (btree_iter m) = {(k, v). m k = Some v}"
  by (auto simp: mem_btree_iter)

lemma btree_iter_sorted: "sorted_wrt (<) (map fst (btree_iter m))"
  by (cases "m Mainnet"; cases "m Testnet")
    (auto simp: btree_iter_def List.map_filter_def less_zcash_network_def)

lemma btree_iter_Nil_iff: "btree_iter m = [] \<longleftrightarrow> m = Map.empty"
proof
  assume "btree_iter m = []"
  then have "m k \<noteq> Some v" for k v
    using mem_btree_iter[of k v m] by simp
  then show "m = Map.empty" by (intro ext) (meson not_None_eq)
qed (simp add: btree_iter_def List.map_filter_def)

section \<open>Configuration records\<close>

record zone_config =
  zc_domain :: string
  zc_nameserver :: string
  zc_additional_nameservers :: "string list"
  zc_ttl :: u32

definition zone_config_default :: zone_config where
  "zone_config_default =
     \<lparr>zc_domain = '''', zc_nameserver = '''', zc_additional_nameservers = [], zc_ttl = 600\<rparr>"

record dns_config =
  dc_listen_addr :: socket_addr

definition dns_config_default :: dns_config where
  "dns_config_default = \<lparr>dc_listen_addr = mk_addr UNSPECIFIED_V4 53\<rparr>"

record metrics_config =
  mc_endpoint_addr :: socket_addr

definition metrics_config_default :: metrics_config where
  "metrics_config_default = \<lparr>mc_endpoint_addr = mk_addr UNSPECIFIED_V4 9999\<rparr>"

record health_config =
  hc_endpoint_addr :: socket_addr
  hc_ready_threshold :: usize

definition health_config_default :: health_config where
  "health_config_default = \<lparr>hc_endpoint_addr = mk_addr UNSPECIFIED_V4 8080, hc_ready_threshold = 1\<rparr>"

record rate_limit_config =
  rl_queries_per_second :: u32
  rl_burst_size :: u32

definition rate_limit_config_default :: rate_limit_config where
  "rate_limit_config_default = \<lparr>rl_queries_per_second = 10, rl_burst_size = 20\<rparr>"

record seeder_config =
  sc_dns :: dns_config
  sc_zones :: "zcash_network \<rightharpoonup> zone_config"
  sc_metrics :: "metrics_config option"
  sc_health :: "health_config option"
  sc_rate_limit :: "rate_limit_config option"

definition seeder_config_default :: seeder_config where
  "seeder_config_default = \<lparr>
     sc_dns = dns_config_default,
     sc_zones = Map.empty,
     sc_metrics = None,
     sc_health = None,
     sc_rate_limit = Some rate_limit_config_default\<rparr>"

section \<open>Errors\<close>

text \<open>
  Each \<open>ensure!\<close>, \<open>wrap_err\<close> and \<open>eyre!\<close> of the file is a constructor; its arguments
  are what the message interpolates. \<open>SourceError\<close> is any failure of the config crate.
\<close>

datatype 'l config_error =
    InvalidDnsName string string
  | NameserverInsideZone
  | DuplicateNameserver string
  | NotGreaterThanZero string
  | NoZoneConfigured
  | ZonesOverlap zcash_network 'l zcash_network 'l
  | SourceError string

section \<open>Validating one zone\<close>

definition parse_dns_name :: "('n, 'l) hickory \<Rightarrow> string \<Rightarrow> string \<Rightarrow> 'l config_error + 'n" where
  "parse_dns_name h field name_text =
     bind_result (ok_or (InvalidDnsName field name_text) (hk_from_ascii h name_text))
       (\<lambda>name. Inr (hk_set_fqdn h name))"

definition ensure_nameserver_is_out_of_zone ::
  "('n, 'l) hickory \<Rightarrow> 'n \<Rightarrow> 'n \<Rightarrow> 'l config_error + unit" where
  "ensure_nameserver_is_out_of_zone h domain nameserver =
     (let domain = hk_lower h domain; nameserver = hk_lower h nameserver
      in ensure (\<not> hk_zone_of h domain nameserver) NameserverInsideZone)"

text \<open>The \<open>BTreeSet\<close> of nameservers seen so far is a set: \<open>insert\<close> fails on a member.\<close>

definition validate_nameserver ::
  "('n, 'l) hickory \<Rightarrow> 'n \<Rightarrow> 'l set \<Rightarrow> string \<Rightarrow> 'n \<Rightarrow> 'l config_error + 'l set" where
  "validate_nameserver h domain nameservers field nameserver =
     bind_result (ensure_nameserver_is_out_of_zone h domain nameserver) (\<lambda>_.
     bind_result (ensure (hk_lower h nameserver \<notin> nameservers) (DuplicateNameserver field)) (\<lambda>_.
     Inr (insert (hk_lower h nameserver) nameservers)))"

definition zone_field :: "zcash_network \<Rightarrow> string \<Rightarrow> string" where
  "zone_field network name = ''zones.'' @ network_label network @ ''.'' @ name"

definition additional_field :: "zcash_network \<Rightarrow> nat \<Rightarrow> string" where
  "additional_field network index =
     zone_field network (''additional_nameservers['' @ show_nat index @ '']'')"

definition check_additional ::
  "('n, 'l) hickory \<Rightarrow> 'n \<Rightarrow> zcash_network \<Rightarrow> 'l set \<Rightarrow> nat \<times> string \<Rightarrow> 'l config_error + 'l set" where
  "check_additional h domain network nameservers = (\<lambda>(index, nameserver).
     let field = additional_field network index in
     bind_result (parse_dns_name h field nameserver) (\<lambda>nameserver.
     validate_nameserver h domain nameservers field nameserver))"

definition validated_domain ::
  "('n, 'l) hickory \<Rightarrow> zone_config \<Rightarrow> zcash_network \<Rightarrow> 'l config_error + 'l" where
  "validated_domain h self network =
     bind_result (parse_dns_name h (zone_field network ''domain'') (zc_domain self)) (\<lambda>domain.
     bind_result (parse_dns_name h (zone_field network ''nameserver'') (zc_nameserver self)) (\<lambda>primary.
     bind_result (validate_nameserver h domain {} (zone_field network ''nameserver'') primary) (\<lambda>nameservers.
     bind_result
       (result_fold (check_additional h domain network) nameservers
          (List.enumerate 0 (zc_additional_nameservers self))) (\<lambda>_.
     Inr (hk_lower h domain)))))"

section \<open>Validating the whole configuration\<close>

text \<open>
  The nested loop of \<open>ensure_zones_are_disjoint\<close>: each zone against the zones after it,
  stopping at the first pair that overlaps.
\<close>

fun ensure_disjoint_from ::
  "('n, 'l) hickory \<Rightarrow> zcash_network \<times> 'l \<Rightarrow> (zcash_network \<times> 'l) list \<Rightarrow> 'l config_error + unit" where
  "ensure_disjoint_from h left [] = Inr ()"
| "ensure_disjoint_from h left (right # rest) =
     bind_result
       (ensure (\<not> hk_zone_of h (snd left) (snd right) \<and> \<not> hk_zone_of h (snd right) (snd left))
          (ZonesOverlap (fst left) (snd left) (fst right) (snd right)))
       (\<lambda>_. ensure_disjoint_from h left rest)"

fun ensure_zones_are_disjoint ::
  "('n, 'l) hickory \<Rightarrow> (zcash_network \<times> 'l) list \<Rightarrow> 'l config_error + unit" where
  "ensure_zones_are_disjoint h [] = Inr ()"
| "ensure_zones_are_disjoint h (left # rest) =
     bind_result (ensure_disjoint_from h left rest) (\<lambda>_. ensure_zones_are_disjoint h rest)"

text \<open>A \<open>NonZeroU32\<close> is the \<open>u32\<close> it wraps.\<close>

definition nonzero_config_value :: "string \<Rightarrow> u32 \<Rightarrow> 'l config_error + u32" where
  "nonzero_config_value field v =
     ok_or (NotGreaterThanZero field) (if v = 0 then None else Some v)"

definition nonzero_queries_per_second :: "rate_limit_config \<Rightarrow> 'l config_error + u32" where
  "nonzero_queries_per_second self =
     nonzero_config_value ''rate_limit.queries_per_second'' (rl_queries_per_second self)"

definition nonzero_burst_size :: "rate_limit_config \<Rightarrow> 'l config_error + u32" where
  "nonzero_burst_size self = nonzero_config_value ''rate_limit.burst_size'' (rl_burst_size self)"

definition validate_rate_limit :: "rate_limit_config \<Rightarrow> 'l config_error + unit" where
  "validate_rate_limit self =
     bind_result (nonzero_queries_per_second self) (\<lambda>_.
     bind_result (nonzero_burst_size self) (\<lambda>_. Inr ()))"

definition zone_domains ::
  "('n, 'l) hickory \<Rightarrow> (zcash_network \<rightharpoonup> zone_config) \<Rightarrow> 'l config_error + (zcash_network \<times> 'l) list" where
  "zone_domains h zones =
     result_fold (\<lambda>zone_domains (network, zone).
        bind_result (validated_domain h zone network) (\<lambda>domain.
        Inr (zone_domains @ [(network, domain)])))
       [] (btree_iter zones)"

definition validate_config :: "('n, 'l) hickory \<Rightarrow> seeder_config \<Rightarrow> 'l config_error + unit" where
  "validate_config h self =
     bind_result (ensure (btree_iter (sc_zones self) \<noteq> []) NoZoneConfigured) (\<lambda>_.
     bind_result (zone_domains h (sc_zones self)) (\<lambda>domains.
     bind_result (ensure_zones_are_disjoint h domains) (\<lambda>_.
     case sc_rate_limit self of
       Some rate_limit \<Rightarrow> validate_rate_limit rate_limit
     | None \<Rightarrow> Inr ())))"

section \<open>Loading\<close>

text \<open>
  The sources in the order they are layered, and the resolver \<open>resolve\<close> of the config
  crate, which merges them and deserializes the result.
\<close>

datatype config_source =
    Defaults seeder_config
  | TomlFile path
  | EnvironmentVars string string string "string list" bool

definition config_sources :: "path option \<Rightarrow> config_source list" where
  "config_sources path =
     [Defaults seeder_config_default] @
     (case path of Some p \<Rightarrow> [TomlFile p] | None \<Rightarrow> []) @
     [EnvironmentVars ''ZEEDER'' ''__'' '',''
        [''zones.mainnet.additional_nameservers'', ''zones.testnet.additional_nameservers''] True]"

definition load_with_env ::
  "('n, 'l) hickory \<Rightarrow> (config_source list \<Rightarrow> string + seeder_config) \<Rightarrow> path option
    \<Rightarrow> 'l config_error + seeder_config" where
  "load_with_env h resolve path =
     bind_result (map_err SourceError (resolve (config_sources path))) (\<lambda>seeder_config.
     bind_result (validate_config h seeder_config) (\<lambda>_. Inr seeder_config))"

section \<open>What a valid configuration is\<close>

text \<open>
  The specification, without the order of the checks: a zone is valid with domain \<open>d\<close>
  when its texts parse, no nameserver lies inside the domain, and the nameservers differ.
\<close>

definition parsed_name :: "('n, 'l) hickory \<Rightarrow> string \<Rightarrow> 'n option" where
  "parsed_name h text = map_option (hk_set_fqdn h) (hk_from_ascii h text)"

definition valid_nameservers :: "('n, 'l) hickory \<Rightarrow> 'l \<Rightarrow> 'n list \<Rightarrow> bool" where
  "valid_nameservers h d ns \<longleftrightarrow>
     distinct (map (hk_lower h) ns) \<and> list_all (\<lambda>n. \<not> hk_zone_of h d (hk_lower h n)) ns"

definition valid_zone :: "('n, 'l) hickory \<Rightarrow> zone_config \<Rightarrow> 'l \<Rightarrow> bool" where
  "valid_zone h zone d \<longleftrightarrow>
     (\<exists>domain ns. parsed_name h (zc_domain zone) = Some domain \<and> d = hk_lower h domain \<and>
        those (map (parsed_name h) (zc_nameserver zone # zc_additional_nameservers zone)) = Some ns \<and>
        valid_nameservers h d ns)"

definition valid_config :: "('n, 'l) hickory \<Rightarrow> seeder_config \<Rightarrow> bool" where
  "valid_config h c \<longleftrightarrow>
     sc_zones c \<noteq> Map.empty \<and>
     (\<exists>domain_of. (\<forall>net zone. sc_zones c net = Some zone \<longrightarrow> valid_zone h zone (domain_of net)) \<and>
        (\<forall>a b. a \<noteq> b \<longrightarrow> a \<in> dom (sc_zones c) \<longrightarrow> b \<in> dom (sc_zones c) \<longrightarrow>
           \<not> hk_zone_of h (domain_of a) (domain_of b))) \<and>
     (\<forall>rl. sc_rate_limit c = Some rl \<longrightarrow> rl_queries_per_second rl \<noteq> 0 \<and> rl_burst_size rl \<noteq> 0)"

section \<open>Validation decides validity\<close>

lemma parse_dns_name_Inr_iff [result_simps]:
  "parse_dns_name h field t = Inr n \<longleftrightarrow> parsed_name h t = Some n"
  by (auto simp: parse_dns_name_def parsed_name_def ok_or_def split: option.splits)

lemma validate_nameserver_Inr_iff [result_simps]:
  "validate_nameserver h domain seen field n = Inr seen' \<longleftrightarrow>
     \<not> hk_zone_of h (hk_lower h domain) (hk_lower h n) \<and> hk_lower h n \<notin> seen \<and>
     seen' = insert (hk_lower h n) seen"
  by (auto simp: validate_nameserver_def ensure_nameserver_is_out_of_zone_def Let_def result_simps)

interpretation additional: checked_loop
  "check_additional h domain network" "parsed_name h"
  "\<lambda>seen n. \<not> hk_zone_of h (hk_lower h domain) (hk_lower h n) \<and> hk_lower h n \<notin> seen"
  "\<lambda>seen n. insert (hk_lower h n) seen"
  for h :: "('n, 'l) hickory" and domain network
  by unfold_locales (auto simp: check_additional_def Let_def result_simps)

lemma all_admitted_nameservers:
  "all_admitted (\<lambda>seen n. \<not> hk_zone_of h d (hk_lower h n) \<and> hk_lower h n \<notin> seen)
     (\<lambda>seen n. insert (hk_lower h n) seen) seen ns \<longleftrightarrow>
   valid_nameservers h d ns \<and> hk_lower h ` set ns \<inter> seen = {}"
  by (induction ns arbitrary: seen) (auto simp: valid_nameservers_def)

lemma validated_domain_Inr_iff [result_simps]:
  "validated_domain h zone network = Inr d \<longleftrightarrow> valid_zone h zone d"
proof -
  have "valid_nameservers h d (n # ns) \<longleftrightarrow>
      \<not> hk_zone_of h d (hk_lower h n) \<and> valid_nameservers h d ns \<and> hk_lower h n \<notin> hk_lower h ` set ns"
    for d n ns
    by (auto simp: valid_nameservers_def)
  then show ?thesis
    by (auto simp: validated_domain_def valid_zone_def result_simps additional.loop_Inr
        all_admitted_nameservers split: option.splits)
qed

lemma zone_domains_append:
  "result_fold (\<lambda>ds (network, zone).
      bind_result (validated_domain h zone network) (\<lambda>d. Inr (ds @ [(network, d)]))) acc zs = Inr ds \<longleftrightarrow>
   (\<exists>ds'. ds = acc @ ds' \<and> list_all2 (\<lambda>(n, z) (n', d). n = n' \<and> valid_zone h z d) zs ds')"
proof (induction zs arbitrary: acc)
  case Nil
  then show ?case by auto
next
  case (Cons z zs)
  then show ?case
    by (cases z) (auto simp: result_simps list_all2_Cons1)
qed

lemma zone_domains_Inr_iff [result_simps]:
  "zone_domains h zones = Inr ds \<longleftrightarrow>
     list_all2 (\<lambda>(n, z) (n', d). n = n' \<and> valid_zone h z d) (btree_iter zones) ds"
  by (simp add: zone_domains_def zone_domains_append)

section \<open>Disjoint zones route unambiguously\<close>

definition disjoint_domains :: "('n, 'l) hickory \<Rightarrow> (zcash_network \<times> 'l) list \<Rightarrow> bool" where
  "disjoint_domains h = sorted_wrt (\<lambda>x y.
     \<not> hk_zone_of h (snd x) (snd y) \<and> \<not> hk_zone_of h (snd y) (snd x))"

lemma ensure_disjoint_from_Inr_iff [result_simps]:
  "ensure_disjoint_from h x ds = Inr u \<longleftrightarrow>
     list_all (\<lambda>y. \<not> hk_zone_of h (snd x) (snd y) \<and> \<not> hk_zone_of h (snd y) (snd x)) ds"
  by (induction ds) (auto simp: result_simps)

lemma ensure_zones_are_disjoint_Inr_iff [result_simps]:
  "ensure_zones_are_disjoint h ds = Inr u \<longleftrightarrow> disjoint_domains h ds"
  by (induction ds) (auto simp: result_simps disjoint_domains_def list_all_iff)

text \<open>
  The contract between the validation of the configuration and the routing of queries: a
  list of zones that is accepted has pairwise incomparable domains. Where two zones with a
  common name are comparable, a name then belongs to at most one of them.
\<close>

locale zone_validator =
  fixes zone_of :: "'l \<Rightarrow> 'l \<Rightarrow> bool"
    and domain :: "'z \<Rightarrow> 'l"
    and accepts :: "'z list \<Rightarrow> bool"
  assumes accepts_incomparable:
    "accepts zs \<Longrightarrow> sorted_wrt (\<lambda>x y. \<not> zone_of (domain x) (domain y) \<and> \<not> zone_of (domain y) (domain x)) zs"
begin

lemma at_most_one_zone:
  assumes acc: "accepts zs"
    and chain: "\<And>y z. zone_of y n \<Longrightarrow> zone_of z n \<Longrightarrow> zone_of y z \<or> zone_of z y"
  shows "length (filter (\<lambda>z. zone_of (domain z) n) zs) \<le> 1"
proof -
  have "sorted_wrt (\<lambda>x y. \<not> zone_of (domain x) (domain y) \<and> \<not> zone_of (domain y) (domain x))
      (filter (\<lambda>z. zone_of (domain z) n) zs)"
    using accepts_incomparable[OF acc] by (rule sorted_wrt_filter)
  moreover have "\<forall>z \<in> set (filter (\<lambda>z. zone_of (domain z) n) zs). zone_of (domain z) n" by simp
  ultimately show ?thesis
    using chain by (cases "filter (\<lambda>z. zone_of (domain z) n) zs" rule: remdups_adj.cases) auto
qed

lemma unique_zone:
  assumes acc: "accepts zs"
    and chain: "\<And>y z. zone_of y n \<Longrightarrow> zone_of z n \<Longrightarrow> zone_of y z \<or> zone_of z y"
    and z: "z \<in> set zs" "zone_of (domain z) n"
  shows "filter (\<lambda>z. zone_of (domain z) n) zs = [z]"
proof -
  have "z \<in> set (filter (\<lambda>z. zone_of (domain z) n) zs)" using z by simp
  moreover have "length (filter (\<lambda>z. zone_of (domain z) n) zs) \<le> 1"
    by (rule at_most_one_zone[OF acc chain])
  ultimately show ?thesis
    by (cases "filter (\<lambda>z. zone_of (domain z) n) zs" rule: remdups_adj.cases) auto
qed

end

interpretation config_zones: zone_validator "hk_zone_of h" snd
  "\<lambda>ds. is_ok (ensure_zones_are_disjoint h ds)" for h :: "('n, 'l) hickory"
  by unfold_locales (auto simp: result_simps disjoint_domains_def)

lemma sorted_wrt_by_network:
  fixes ds :: "(zcash_network \<times> 'd) list"
  assumes keys: "sorted_wrt (<) (map fst ds)"
    and sym: "\<And>x y. P x y = P y x"
  shows "sorted_wrt (\<lambda>x y. P x y) ds \<longleftrightarrow>
    (\<forall>x \<in> set ds. \<forall>y \<in> set ds. fst x \<noteq> fst y \<longrightarrow> P x y)"
  using keys
proof (induction ds)
  case Nil
  then show ?case by simp
next
  case (Cons d ds)
  then have lt: "\<And>x. x \<in> set ds \<Longrightarrow> fst d < fst x"
    and IH: "sorted_wrt P ds \<longleftrightarrow> (\<forall>x \<in> set ds. \<forall>y \<in> set ds. fst x \<noteq> fst y \<longrightarrow> P x y)"
    by auto
  have "fst d \<noteq> fst x" if "x \<in> set ds" for x
    using lt[OF that] by auto
  then show ?case
    unfolding sorted_wrt.simps IH using sym by (auto simp del: split_paired_All)
qed

lemma disjoint_domains_iff:
  assumes "map fst ds = map fst (btree_iter m)"
  shows "disjoint_domains h ds \<longleftrightarrow>
    (\<forall>x \<in> set ds. \<forall>y \<in> set ds. fst x \<noteq> fst y \<longrightarrow> \<not> hk_zone_of h (snd x) (snd y))"
proof -
  have "sorted_wrt (<) (map fst ds)" unfolding assms by (rule btree_iter_sorted)
  then have "disjoint_domains h ds \<longleftrightarrow> (\<forall>x \<in> set ds. \<forall>y \<in> set ds. fst x \<noteq> fst y \<longrightarrow>
      \<not> hk_zone_of h (snd x) (snd y) \<and> \<not> hk_zone_of h (snd y) (snd x))"
    unfolding disjoint_domains_def by (rule sorted_wrt_by_network) blast
  then show ?thesis by metis
qed

lemma zone_list_of_function:
  assumes zones: "\<And>net zone. m net = Some zone \<Longrightarrow> valid_zone h zone (f net)"
    and disj: "\<And>a b. a \<noteq> b \<Longrightarrow> a \<in> dom m \<Longrightarrow> b \<in> dom m \<Longrightarrow> \<not> hk_zone_of h (f a) (f b)"
  shows "\<exists>ds. list_all2 (\<lambda>(n, z) (n', d). n = n' \<and> valid_zone h z d) (btree_iter m) ds
    \<and> disjoint_domains h ds"
proof -
  let ?ds = "map (\<lambda>(n, z). (n, f n)) (btree_iter m)"
  have keys: "map fst ?ds = map fst (btree_iter m)" by auto
  have "list_all2 (\<lambda>(n, z) (n', d). n = n' \<and> valid_zone h z d) (btree_iter m) ?ds"
    using zones by (auto simp: list_all2_map2 mem_btree_iter intro!: list.rel_refl_strong)
  moreover have "disjoint_domains h ?ds"
    unfolding disjoint_domains_iff[OF keys] using disj by (auto simp: mem_btree_iter dom_def)
  ultimately show ?thesis by blast
qed

lemma function_of_zone_list:
  assumes all2: "list_all2 (\<lambda>(n, z) (n', d). n = n' \<and> valid_zone h z d) (btree_iter m) ds"
    and disj: "disjoint_domains h ds"
  shows "\<exists>f. (\<forall>net zone. m net = Some zone \<longrightarrow> valid_zone h zone (f net)) \<and>
    (\<forall>a b. a \<noteq> b \<longrightarrow> a \<in> dom m \<longrightarrow> b \<in> dom m \<longrightarrow> \<not> hk_zone_of h (f a) (f b))"
proof (intro exI conjI allI impI)
  let ?f = "\<lambda>net. the (map_of ds net)"
  have keys: "map fst ds = map fst (btree_iter m)"
    using all2 by (induction rule: list_all2_induct) auto
  have dist: "distinct (map fst ds)"
    unfolding keys using btree_iter_sorted[of m] by (simp add: strict_sorted_iff)
  have in_ds: "\<exists>d. (net, d) \<in> set ds \<and> valid_zone h zone d" if "m net = Some zone" for net zone
    using list_all2_set1[OF all2, of "(net, zone)"] that by (auto simp: mem_btree_iter)
  then have f: "(net, ?f net) \<in> set ds \<and> valid_zone h zone (?f net)" if "m net = Some zone" for net zone
    using that dist by fastforce
  then show "valid_zone h zone (?f net)" if "m net = Some zone" for net zone
    using that by blast
  show "\<not> hk_zone_of h (?f a) (?f b)" if ab: "a \<noteq> b" "a \<in> dom m" "b \<in> dom m" for a b
  proof -
    have "(a, ?f a) \<in> set ds" "(b, ?f b) \<in> set ds" using f ab by blast+
    with ab(1) disj show ?thesis unfolding disjoint_domains_iff[OF keys] by fastforce
  qed
qed

lemma validate_rate_limit_Inr_iff [result_simps]:
  "validate_rate_limit rl = Inr u \<longleftrightarrow> rl_queries_per_second rl \<noteq> 0 \<and> rl_burst_size rl \<noteq> 0"
  by (auto simp: validate_rate_limit_def nonzero_queries_per_second_def nonzero_burst_size_def
      nonzero_config_value_def ok_or_def result_simps)

text \<open>C16: The configuration check is exact: \<open>validate\<close>, which stops at the first problem, accepts a
  configuration exactly when it has a zone, every zone has a parsed domain, a non-empty list of
  parsed, pairwise different nameservers outside that domain, no zone lies inside another one,
  and the rate limit, if there is one, has no zero.\<close>

theorem validate_config_correct:
  "validate_config h c = Inr () \<longleftrightarrow> valid_config h c"
proof -
  have zones: "(\<exists>ds. list_all2 (\<lambda>(n, z) (n', d). n = n' \<and> valid_zone h z d) (btree_iter (sc_zones c)) ds
      \<and> disjoint_domains h ds) \<longleftrightarrow>
    (\<exists>f. (\<forall>net zone. sc_zones c net = Some zone \<longrightarrow> valid_zone h zone (f net)) \<and>
      (\<forall>a b. a \<noteq> b \<longrightarrow> a \<in> dom (sc_zones c) \<longrightarrow> b \<in> dom (sc_zones c) \<longrightarrow>
         \<not> hk_zone_of h (f a) (f b)))" (is "?L \<longleftrightarrow> ?R")
  proof
    assume ?L
    then show ?R by (elim exE conjE, intro function_of_zone_list)
  next
    assume ?R
    then show ?L using zone_list_of_function[of "sc_zones c" h] by metis
  qed
  have rate: "(case sc_rate_limit c of Some rl \<Rightarrow> validate_rate_limit rl | None \<Rightarrow> Inr ()) = Inr () \<longleftrightarrow>
      (\<forall>rl. sc_rate_limit c = Some rl \<longrightarrow> rl_queries_per_second rl \<noteq> 0 \<and> rl_burst_size rl \<noteq> 0)"
    by (cases "sc_rate_limit c") (simp_all add: result_simps)
  show ?thesis
    unfolding valid_config_def zones[symmetric]
    by (simp add: validate_config_def result_simps rate btree_iter_Nil_iff) blast
qed

section \<open>A sample configuration\<close>

text \<open>The two zones of \<open>.env.example\<close>, for the witnesses.\<close>

definition sample_zone :: "zcash_network \<Rightarrow> zone_config" where
  "sample_zone network = (case network of
     Mainnet \<Rightarrow> \<lparr>zc_domain = ''mainnet.seeder.example.com'',
       zc_nameserver = ''ns-mainnet.seeder.example.com'',
       zc_additional_nameservers = [''ns2-mainnet.seeder.example.com'', ''ns3-mainnet.seeder.example.com''],
       zc_ttl = 600\<rparr>
   | Testnet \<Rightarrow> \<lparr>zc_domain = ''testnet.seeder.example.com'',
       zc_nameserver = ''ns-testnet.seeder.example.com'',
       zc_additional_nameservers = [''ns2-testnet.seeder.example.com''],
       zc_ttl = 300\<rparr>)"

definition sample_config :: seeder_config where
  "sample_config = seeder_config_default\<lparr>
     sc_zones := [Mainnet \<mapsto> sample_zone Mainnet, Testnet \<mapsto> sample_zone Testnet],
     sc_health := Some health_config_default\<rparr>"

lemma sample_config_valid: "validate_config sample_hickory sample_config = Inr ()"
  by code_simp

end
