(* ===== verification/Config_Values.thy ===== *)
theory Config_Values
  imports Network_Config
begin

text \<open>
  The configuration of \<open>src/config.rs\<close> as a tree of values: what the \<open>Serialize\<close> and
  \<open>Deserialize\<close> derived on its structures, with their \<open>serde\<close> attributes, write and accept.
  Merging the sources into one tree, and turning a single value into a string, a number, an
  address or a table, is the work of the config crate and a parameter.
\<close>

section \<open>Trees of values\<close>

datatype config_value =
    NilValue
  | BoolValue bool
  | IntValue int
  | TextValue string
  | ListValue "config_value list"
  | TableValue "(string \<times> config_value) list"

text \<open>
  How the config crate presents a value that is asked for as a type of the program. A structure
  may be offered as entries with names or as values in the order of its fields; a name that
  stands for a variant of an enumeration is matched with the names of the variants.
\<close>

datatype struct_access = MapAccess "(string \<times> config_value) list" | SeqAccess "config_value list"

record value_reader =
  vr_struct :: "config_value \<Rightarrow> string + struct_access"
  vr_variant :: "string list \<Rightarrow> string \<Rightarrow> string option"
  vr_string :: "config_value \<Rightarrow> string + string"
  vr_strings :: "config_value \<Rightarrow> string + string list"
  vr_u32 :: "config_value \<Rightarrow> string + u32"
  vr_usize :: "config_value \<Rightarrow> string + usize"
  vr_socket_addr :: "config_value \<Rightarrow> string + socket_addr"
  vr_table :: "config_value \<Rightarrow> string + (string \<times> config_value) list"

text \<open>
  It reads back what serialization writes: numbers as numbers, strings and addresses as texts,
  a list of strings as a list of texts, a table as its entries, the name of a variant as that
  variant. For the addresses only some are asked for.
\<close>

definition reader_laws :: "value_reader \<Rightarrow> socket_addr set \<Rightarrow> bool" where
  "reader_laws rd addrs \<longleftrightarrow>
     (\<forall>s. vr_string rd (TextValue s) = Inr s) \<and>
     (\<forall>ss. vr_strings rd (ListValue (map TextValue ss)) = Inr ss) \<and>
     (\<forall>n. vr_u32 rd (IntValue (uint n)) = Inr n) \<and>
     (\<forall>n. vr_usize rd (IntValue (uint n)) = Inr n) \<and>
     (\<forall>a \<in> addrs. vr_socket_addr rd (TextValue (show_socket_addr a)) = Inr a) \<and>
     (\<forall>t. vr_table rd (TableValue t) = Inr t) \<and>
     (\<forall>t. vr_struct rd (TableValue t) = Inr (MapAccess t)) \<and>
     (\<forall>vs name. name \<in> set vs \<longrightarrow> vr_variant rd vs name = Some name)"

section \<open>Structures\<close>

text \<open>
  \<open>serde(default, deny_unknown_fields)\<close>: the entries of the table are visited in their order;
  a name that is no field, or one that comes twice, is an error, and a field that does not come
  keeps its value in the default of the structure. A sequence fills the fields in their order,
  as far as it goes. \<open>ReadError\<close> is any failure of the config
  crate to present a value as asked.
\<close>

datatype shape_error = ReadError string | UnknownField string | DuplicateField string | UnknownVariant string

type_synonym 's field_readers = "(string \<times> (config_value \<Rightarrow> 's \<Rightarrow> shape_error + 's)) list"

fun visit_fields ::
  "'s field_readers \<Rightarrow> string list \<Rightarrow> 's \<Rightarrow> (string \<times> config_value) list \<Rightarrow> shape_error + 's" where
  "visit_fields readers seen s [] = Inr s"
| "visit_fields readers seen s ((name, v) # entries) =
     (case map_of readers name of
        None \<Rightarrow> Inl (UnknownField name)
      | Some read \<Rightarrow>
          bind_result (ensure (name \<notin> set seen) (DuplicateField name)) (\<lambda>_.
          bind_result (read v s) (\<lambda>s. visit_fields readers (name # seen) s entries)))"

fun visit_values :: "'s field_readers \<Rightarrow> 's \<Rightarrow> config_value list \<Rightarrow> shape_error + 's" where
  "visit_values ((_, read) # readers) s (v # vs) = bind_result (read v s) (\<lambda>s. visit_values readers s vs)"
| "visit_values _ s _ = Inr s"

definition deserialize_struct :: "value_reader \<Rightarrow> 's field_readers \<Rightarrow> 's \<Rightarrow> config_value \<Rightarrow> shape_error + 's" where
  "deserialize_struct rd readers initial v =
     bind_result (map_err ReadError (vr_struct rd v)) (\<lambda>access. case access of
       MapAccess entries \<Rightarrow> visit_fields readers [] initial entries
     | SeqAccess values \<Rightarrow> visit_values readers initial values)"

text \<open>A field is read as its type and stored; an optional one is \<open>None\<close> exactly when it is nil.\<close>

definition read_field ::
  "(config_value \<Rightarrow> string + 'a) \<Rightarrow> ('a \<Rightarrow> 's \<Rightarrow> 's) \<Rightarrow> config_value \<Rightarrow> 's \<Rightarrow> shape_error + 's" where
  "read_field read store v s = bind_result (map_err ReadError (read v)) (\<lambda>a. Inr (store a s))"

definition read_nested ::
  "(config_value \<Rightarrow> shape_error + 'a) \<Rightarrow> ('a \<Rightarrow> 's \<Rightarrow> 's) \<Rightarrow> config_value \<Rightarrow> 's \<Rightarrow> shape_error + 's" where
  "read_nested read store v s = bind_result (read v) (\<lambda>a. Inr (store a s))"

definition read_option ::
  "(config_value \<Rightarrow> shape_error + 'a) \<Rightarrow> config_value \<Rightarrow> shape_error + 'a option" where
  "read_option read v = (if v = NilValue then Inr None else bind_result (read v) (\<lambda>a. Inr (Some a)))"

section \<open>Reading a configuration\<close>

definition deserialize_dns :: "value_reader \<Rightarrow> config_value \<Rightarrow> shape_error + dns_config" where
  "deserialize_dns rd = deserialize_struct rd
     [(''listen_addr'', read_field (vr_socket_addr rd) (\<lambda>a s. s\<lparr>dc_listen_addr := a\<rparr>))] dns_config_default"

definition deserialize_metrics :: "value_reader \<Rightarrow> config_value \<Rightarrow> shape_error + metrics_config" where
  "deserialize_metrics rd = deserialize_struct rd
     [(''endpoint_addr'', read_field (vr_socket_addr rd) (\<lambda>a s. s\<lparr>mc_endpoint_addr := a\<rparr>))] metrics_config_default"

definition deserialize_health :: "value_reader \<Rightarrow> config_value \<Rightarrow> shape_error + health_config" where
  "deserialize_health rd = deserialize_struct rd
     [(''endpoint_addr'', read_field (vr_socket_addr rd) (\<lambda>a s. s\<lparr>hc_endpoint_addr := a\<rparr>)),
      (''ready_threshold'', read_field (vr_usize rd) (\<lambda>n s. s\<lparr>hc_ready_threshold := n\<rparr>))] health_config_default"

definition deserialize_rate_limit :: "value_reader \<Rightarrow> config_value \<Rightarrow> shape_error + rate_limit_config" where
  "deserialize_rate_limit rd = deserialize_struct rd
     [(''queries_per_second'', read_field (vr_u32 rd) (\<lambda>n s. s\<lparr>rl_queries_per_second := n\<rparr>)),
      (''burst_size'', read_field (vr_u32 rd) (\<lambda>n s. s\<lparr>rl_burst_size := n\<rparr>))] rate_limit_config_default"

definition deserialize_zone :: "value_reader \<Rightarrow> config_value \<Rightarrow> shape_error + zone_config" where
  "deserialize_zone rd = deserialize_struct rd
     [(''domain'', read_field (vr_string rd) (\<lambda>x s. s\<lparr>zc_domain := x\<rparr>)),
      (''nameserver'', read_field (vr_string rd) (\<lambda>x s. s\<lparr>zc_nameserver := x\<rparr>)),
      (''additional_nameservers'', read_field (vr_strings rd) (\<lambda>x s. s\<lparr>zc_additional_nameservers := x\<rparr>)),
      (''ttl'', read_field (vr_u32 rd) (\<lambda>n s. s\<lparr>zc_ttl := n\<rparr>))] zone_config_default"

text \<open>\<open>serde(rename_all = "lowercase")\<close> on the networks, which are the keys of the zones.\<close>

definition deserialize_network :: "value_reader \<Rightarrow> string \<Rightarrow> shape_error + zcash_network" where
  "deserialize_network rd name =
     (case vr_variant rd [''mainnet'', ''testnet''] name of
        None \<Rightarrow> Inl (UnknownVariant name)
      | Some variant \<Rightarrow>
          if variant = ''mainnet'' then Inr Mainnet else if variant = ''testnet'' then Inr Testnet
          else Inl (UnknownVariant variant))"

definition add_zone ::
  "value_reader \<Rightarrow> (zcash_network \<rightharpoonup> zone_config) \<Rightarrow> string \<times> config_value
    \<Rightarrow> shape_error + (zcash_network \<rightharpoonup> zone_config)" where
  "add_zone rd zones = (\<lambda>(name, v).
     bind_result (deserialize_network rd name) (\<lambda>network.
     bind_result (deserialize_zone rd v) (\<lambda>zone. Inr (zones(network \<mapsto> zone)))))"

definition deserialize_zones ::
  "value_reader \<Rightarrow> config_value \<Rightarrow> shape_error + (zcash_network \<rightharpoonup> zone_config)" where
  "deserialize_zones rd v =
     bind_result (map_err ReadError (vr_table rd v)) (\<lambda>entries. result_fold (add_zone rd) (\<lambda>_. None) entries)"

definition config_fields :: "value_reader \<Rightarrow> seeder_config field_readers" where
  "config_fields rd =
     [(''dns'', read_nested (deserialize_dns rd) (\<lambda>x s. s\<lparr>sc_dns := x\<rparr>)),
      (''zones'', read_nested (deserialize_zones rd) (\<lambda>x s. s\<lparr>sc_zones := x\<rparr>)),
      (''metrics'', read_nested (read_option (deserialize_metrics rd)) (\<lambda>x s. s\<lparr>sc_metrics := x\<rparr>)),
      (''health'', read_nested (read_option (deserialize_health rd)) (\<lambda>x s. s\<lparr>sc_health := x\<rparr>)),
      (''rate_limit'', read_nested (read_option (deserialize_rate_limit rd)) (\<lambda>x s. s\<lparr>sc_rate_limit := x\<rparr>))]"

definition deserialize_config :: "value_reader \<Rightarrow> config_value \<Rightarrow> shape_error + seeder_config" where
  "deserialize_config rd = deserialize_struct rd (config_fields rd) seeder_config_default"

section \<open>Writing a configuration\<close>

definition serialize_option :: "('a \<Rightarrow> config_value) \<Rightarrow> 'a option \<Rightarrow> config_value" where
  "serialize_option f x = (case x of None \<Rightarrow> NilValue | Some a \<Rightarrow> f a)"

definition serialize_dns :: "dns_config \<Rightarrow> config_value" where
  "serialize_dns c = TableValue [(''listen_addr'', TextValue (show_socket_addr (dc_listen_addr c)))]"

definition serialize_metrics :: "metrics_config \<Rightarrow> config_value" where
  "serialize_metrics c = TableValue [(''endpoint_addr'', TextValue (show_socket_addr (mc_endpoint_addr c)))]"

definition serialize_health :: "health_config \<Rightarrow> config_value" where
  "serialize_health c = TableValue
     [(''endpoint_addr'', TextValue (show_socket_addr (hc_endpoint_addr c))),
      (''ready_threshold'', IntValue (uint (hc_ready_threshold c)))]"

definition serialize_rate_limit :: "rate_limit_config \<Rightarrow> config_value" where
  "serialize_rate_limit c = TableValue
     [(''queries_per_second'', IntValue (uint (rl_queries_per_second c))),
      (''burst_size'', IntValue (uint (rl_burst_size c)))]"

definition serialize_zone :: "zone_config \<Rightarrow> config_value" where
  "serialize_zone c = TableValue
     [(''domain'', TextValue (zc_domain c)),
      (''nameserver'', TextValue (zc_nameserver c)),
      (''additional_nameservers'', ListValue (map TextValue (zc_additional_nameservers c))),
      (''ttl'', IntValue (uint (zc_ttl c)))]"

definition serialize_zones :: "(zcash_network \<rightharpoonup> zone_config) \<Rightarrow> config_value" where
  "serialize_zones zones =
     TableValue (map (\<lambda>(network, zone). (network_label network, serialize_zone zone)) (btree_iter zones))"

definition serialize_config :: "seeder_config \<Rightarrow> config_value" where
  "serialize_config c = TableValue
     [(''dns'', serialize_dns (sc_dns c)),
      (''zones'', serialize_zones (sc_zones c)),
      (''metrics'', serialize_option serialize_metrics (sc_metrics c)),
      (''health'', serialize_option serialize_health (sc_health c)),
      (''rate_limit'', serialize_option serialize_rate_limit (sc_rate_limit c))]"

text \<open>TOML has no nil: the entries of \<open>print-config\<close> that would be nil are left out.\<close>

definition without_nil :: "config_value \<Rightarrow> config_value" where
  "without_nil v = (case v of
     TableValue entries \<Rightarrow> TableValue (filter (\<lambda>e. snd e \<noteq> NilValue) entries)
   | _ \<Rightarrow> v)"

text \<open>The resolver of \<open>load_with_env\<close>: the config crate builds one tree, which is deserialized.\<close>

definition tree_resolver ::
  "value_reader \<Rightarrow> (shape_error \<Rightarrow> string) \<Rightarrow> (config_source list \<Rightarrow> string + config_value)
    \<Rightarrow> config_source list \<Rightarrow> string + seeder_config" where
  "tree_resolver rd message build sources =
     bind_result (build sources) (\<lambda>v. map_err message (deserialize_config rd v))"

section \<open>What is accepted, and as what\<close>

text \<open>Whether a field can be read does not depend on the fields read before.\<close>

definition reads_alone :: "(config_value \<Rightarrow> 's \<Rightarrow> shape_error + 's) \<Rightarrow> bool" where
  "reads_alone read \<longleftrightarrow> (\<forall>v s s'. is_ok (read v s) = is_ok (read v s'))"

definition entry_ok :: "'s field_readers \<Rightarrow> 's \<Rightarrow> string \<times> config_value \<Rightarrow> bool" where
  "entry_ok readers s e = (case map_of readers (fst e) of None \<Rightarrow> False | Some read \<Rightarrow> is_ok (read (snd e) s))"

lemma reads_alone_intros [simp]: "reads_alone (read_field read store)" "reads_alone (read_nested read' store)"
  by (auto simp: reads_alone_def read_field_def read_nested_def bind_result_def split: sum.split)

lemma visit_fields_ok_iff:
  assumes "\<forall>read \<in> snd ` set readers. reads_alone read"
  shows "is_ok (visit_fields readers seen s entries) \<longleftrightarrow>
    distinct (map fst entries) \<and> set (map fst entries) \<inter> set seen = {} \<and> list_all (entry_ok readers initial) entries"
proof (induction entries arbitrary: seen s)
  case (Cons e entries)
  obtain name v where e: "e = (name, v)" by (cases e)
  show ?case
  proof (cases "map_of readers name")
    case None
    then show ?thesis by (simp add: e entry_ok_def)
  next
    case (Some read)
    then have "reads_alone read" using assms map_of_SomeD by force
    then have alone: "is_ok (read v s) = is_ok (read v initial)" by (simp add: reads_alone_def)
    show ?thesis
    proof (cases "read v s")
      case (Inl x)
      with alone Some show ?thesis by (simp add: e entry_ok_def ensure_def)
    next
      case (Inr s')
      with alone Some Cons.IH[of "name # seen" s'] show ?thesis
        by (auto simp: e entry_ok_def ensure_def)
    qed
  qed
qed simp

lemma visit_fields_seen:
  "visit_fields readers seen s entries = Inr s' \<Longrightarrow> field \<in> set seen \<Longrightarrow> field \<notin> fst ` set entries"
proof (induction entries arbitrary: seen s)
  case (Cons e entries)
  obtain name v where e: "e = (name, v)" by (cases e)
  from Cons.prems obtain t where "name \<notin> set seen" and rest: "visit_fields readers (name # seen) t entries = Inr s'"
    by (auto simp: e bind_result_Inr_iff ensure_def split: option.splits if_splits)
  moreover have "field \<notin> fst ` set entries" by (rule Cons.IH[OF rest]) (simp add: Cons.prems(2))
  ultimately show ?case using Cons.prems(2) by (auto simp: e)
qed simp

text \<open>What a field of the result holds: its entry's value, or what it held before.\<close>

lemma visit_fields_get:
  assumes "visit_fields readers seen s entries = Inr s'"
    and others: "\<And>name read v s s'. map_of readers name = Some read \<Longrightarrow> name \<noteq> field \<Longrightarrow> read v s = Inr s' \<Longrightarrow> get s' = get s"
    and own: "\<And>read v s s'. map_of readers field = Some read \<Longrightarrow> read v s = Inr s' \<Longrightarrow> holds v (get s')"
  shows "case map_of entries field of
      None \<Rightarrow> get s' = get s
    | Some v \<Rightarrow> holds v (get s')"
  using assms(1)
proof (induction entries arbitrary: seen s)
  case (Cons e entries)
  obtain name v where e: "e = (name, v)" by (cases e)
  from Cons.prems obtain read t where read: "map_of readers name = Some read" "read v s = Inr t"
    and rest: "visit_fields readers (name # seen) t entries = Inr s'"
    by (auto simp: e bind_result_Inr_iff split: option.splits)
  show ?case
  proof (cases "name = field")
    case False
    with Cons.IH[OF rest] others[OF read(1) False read(2)] show ?thesis
      by (cases "map_of entries field") (auto simp: e)
  next
    case True
    from visit_fields_seen[OF rest] True have "field \<notin> fst ` set entries" by simp
    then have "map_of entries field = None" by (simp add: map_of_eq_None_iff)
    with Cons.IH[OF rest] own[of read v s t] read True show ?thesis by (simp add: e)
  qed
qed simp

lemma read_nested_Inr_iff: "read_nested read store v s = Inr s' \<longleftrightarrow> (\<exists>a. read v = Inr a \<and> s' = store a s)"
  by (auto simp: read_nested_def bind_result_Inr_iff)

lemma read_option_Inr_iff:
  "read_option read v = Inr x \<longleftrightarrow> (if v = NilValue then x = None else (\<exists>a. read v = Inr a \<and> x = Some a))"
  by (auto simp: read_option_def bind_result_Inr_iff)

text \<open>The five sections of a configuration; a section's value when its entry is there and when not.\<close>

definition section_ok :: "value_reader \<Rightarrow> string \<times> config_value \<Rightarrow> bool" where
  "section_ok rd e \<longleftrightarrow>
     (case e of (name, v) \<Rightarrow>
        name = ''dns'' \<and> is_ok (deserialize_dns rd v) \<or>
        name = ''zones'' \<and> is_ok (deserialize_zones rd v) \<or>
        name = ''metrics'' \<and> (v = NilValue \<or> is_ok (deserialize_metrics rd v)) \<or>
        name = ''health'' \<and> (v = NilValue \<or> is_ok (deserialize_health rd v)) \<or>
        name = ''rate_limit'' \<and> (v = NilValue \<or> is_ok (deserialize_rate_limit rd v)))"

lemma is_ok_read_nested: "is_ok (read_nested read store v s) = is_ok (read v)"
  by (auto simp: is_ok_iff read_nested_Inr_iff)

lemma is_ok_read_option: "is_ok (read_option read v) \<longleftrightarrow> v = NilValue \<or> is_ok (read v)"
  by (auto simp: is_ok_iff read_option_Inr_iff)

lemma entry_ok_section: "entry_ok (config_fields rd) s e = section_ok rd e"
  by (cases e) (auto simp: entry_ok_def section_ok_def config_fields_def is_ok_read_nested is_ok_read_option)

definition keeps :: "('s \<Rightarrow> 'a) \<Rightarrow> (config_value \<Rightarrow> 's \<Rightarrow> shape_error + 's) \<Rightarrow> bool" where
  "keeps get read \<longleftrightarrow> (\<forall>v s s'. read v s = Inr s' \<longrightarrow> get s' = get s)"

lemma keeps_read_nested: "(\<And>a s. get (store a s) = get s) \<Longrightarrow> keeps get (read_nested read store)"
  by (auto simp: keeps_def read_nested_Inr_iff)

lemma config_part:
  assumes v: "deserialize_config rd v = Inr c" "vr_struct rd v = Inr (MapAccess t)"
    and own: "map_of (config_fields rd) field = Some (read_nested read store)" "\<And>a s. get (store a s) = a"
    and others: "\<forall>(name, f) \<in> set (config_fields rd). name \<noteq> field \<longrightarrow> keeps get f"
  shows "case map_of t field of None \<Rightarrow> get c = get seeder_config_default | Some x \<Rightarrow> read x = Inr (get c)"
proof (rule visit_fields_get[where holds = "\<lambda>x a. read x = Inr a" and get = get and s = seeder_config_default and s' = c])
  show "visit_fields (config_fields rd) [] seeder_config_default t = Inr c"
    using v by (auto simp: deserialize_config_def deserialize_struct_def map_err_def split: sum.splits)
  show "get s' = get s" if "map_of (config_fields rd) name = Some f" "name \<noteq> field" "f x s = Inr s'" for name f x s s'
    using others map_of_SomeD[OF that(1)] that(2,3) by (fastforce simp: keeps_def)
  show "read x = Inr (get s')" if "map_of (config_fields rd) field = Some f" "f x s = Inr s'" for f x s s'
    using that own by (auto simp: read_nested_Inr_iff)
qed

lemma config_section:
  assumes v: "deserialize_config rd v = Inr c" "vr_struct rd v = Inr (MapAccess t)"
  shows "case map_of t ''dns'' of None \<Rightarrow> sc_dns c = dns_config_default | Some x \<Rightarrow> deserialize_dns rd x = Inr (sc_dns c)"
    and "case map_of t ''zones'' of None \<Rightarrow> sc_zones c = Map.empty | Some x \<Rightarrow> deserialize_zones rd x = Inr (sc_zones c)"
    and "case map_of t ''metrics'' of None \<Rightarrow> sc_metrics c = None | Some x \<Rightarrow> read_option (deserialize_metrics rd) x = Inr (sc_metrics c)"
    and "case map_of t ''health'' of None \<Rightarrow> sc_health c = None | Some x \<Rightarrow> read_option (deserialize_health rd) x = Inr (sc_health c)"
    and "case map_of t ''rate_limit'' of None \<Rightarrow> sc_rate_limit c = Some rate_limit_config_default | Some x \<Rightarrow> read_option (deserialize_rate_limit rd) x = Inr (sc_rate_limit c)"
proof -
  note parts = config_part[OF v] and simps = config_fields_def keeps_read_nested
  have "case map_of t ''dns'' of None \<Rightarrow> sc_dns c = sc_dns seeder_config_default
      | Some x \<Rightarrow> deserialize_dns rd x = Inr (sc_dns c)"
    by (rule parts[where store = "\<lambda>x s. s\<lparr>sc_dns := x\<rparr>"]) (simp_all add: simps)
  then show "case map_of t ''dns'' of None \<Rightarrow> sc_dns c = dns_config_default | Some x \<Rightarrow> deserialize_dns rd x = Inr (sc_dns c)"
    by (simp add: seeder_config_default_def cong: option.case_cong)
  have "case map_of t ''zones'' of None \<Rightarrow> sc_zones c = sc_zones seeder_config_default
      | Some x \<Rightarrow> deserialize_zones rd x = Inr (sc_zones c)"
    by (rule parts[where store = "\<lambda>x s. s\<lparr>sc_zones := x\<rparr>"]) (simp_all add: simps)
  then show "case map_of t ''zones'' of None \<Rightarrow> sc_zones c = Map.empty | Some x \<Rightarrow> deserialize_zones rd x = Inr (sc_zones c)"
    by (simp add: seeder_config_default_def cong: option.case_cong)
  have "case map_of t ''metrics'' of None \<Rightarrow> sc_metrics c = sc_metrics seeder_config_default
      | Some x \<Rightarrow> read_option (deserialize_metrics rd) x = Inr (sc_metrics c)"
    by (rule parts[where store = "\<lambda>x s. s\<lparr>sc_metrics := x\<rparr>"]) (simp_all add: simps)
  then show "case map_of t ''metrics'' of None \<Rightarrow> sc_metrics c = None | Some x \<Rightarrow> read_option (deserialize_metrics rd) x = Inr (sc_metrics c)"
    by (simp add: seeder_config_default_def cong: option.case_cong)
  have "case map_of t ''health'' of None \<Rightarrow> sc_health c = sc_health seeder_config_default
      | Some x \<Rightarrow> read_option (deserialize_health rd) x = Inr (sc_health c)"
    by (rule parts[where store = "\<lambda>x s. s\<lparr>sc_health := x\<rparr>"]) (simp_all add: simps)
  then show "case map_of t ''health'' of None \<Rightarrow> sc_health c = None | Some x \<Rightarrow> read_option (deserialize_health rd) x = Inr (sc_health c)"
    by (simp add: seeder_config_default_def cong: option.case_cong)
  have "case map_of t ''rate_limit'' of None \<Rightarrow> sc_rate_limit c = sc_rate_limit seeder_config_default
      | Some x \<Rightarrow> read_option (deserialize_rate_limit rd) x = Inr (sc_rate_limit c)"
    by (rule parts[where store = "\<lambda>x s. s\<lparr>sc_rate_limit := x\<rparr>"]) (simp_all add: simps)
  then show "case map_of t ''rate_limit'' of None \<Rightarrow> sc_rate_limit c = Some rate_limit_config_default | Some x \<Rightarrow> read_option (deserialize_rate_limit rd) x = Inr (sc_rate_limit c)"
    by (simp add: seeder_config_default_def cong: option.case_cong)
qed

section \<open>Writing and reading back\<close>

definition config_addrs :: "seeder_config \<Rightarrow> socket_addr set" where
  "config_addrs c = {dc_listen_addr (sc_dns c)} \<union> mc_endpoint_addr ` set_option (sc_metrics c) \<union>
     hc_endpoint_addr ` set_option (sc_health c)"

lemma read_back_parts:
  assumes laws: "reader_laws rd addrs"
  shows "dc_listen_addr d \<in> addrs \<Longrightarrow> deserialize_dns rd (serialize_dns d) = Inr d"
    and "mc_endpoint_addr m \<in> addrs \<Longrightarrow> deserialize_metrics rd (serialize_metrics m) = Inr m"
    and "hc_endpoint_addr h \<in> addrs \<Longrightarrow> deserialize_health rd (serialize_health h) = Inr h"
    and "deserialize_rate_limit rd (serialize_rate_limit l) = Inr l"
    and "deserialize_zone rd (serialize_zone z) = Inr z"
  using laws
  by (simp_all add: reader_laws_def deserialize_dns_def serialize_dns_def deserialize_metrics_def serialize_metrics_def
      deserialize_health_def serialize_health_def deserialize_rate_limit_def serialize_rate_limit_def
      deserialize_zone_def serialize_zone_def deserialize_struct_def read_field_def ensure_def map_err_def)

lemma deserialize_label:
  assumes "reader_laws rd addrs"
  shows "deserialize_network rd (network_label n) = Inr n"
  using assms by (cases n) (auto simp: deserialize_network_def reader_laws_def)

lemma read_back_zones:
  assumes laws: "reader_laws rd addrs"
  shows "deserialize_zones rd (serialize_zones zones) = Inr zones"
proof -
  have "add_zone rd m (network_label n, serialize_zone z) = Inr (m(n \<mapsto> z))" for m n z
    by (simp add: add_zone_def deserialize_label[OF laws] read_back_parts(5)[OF laws])
  from this[of _ Mainnet] this[of _ Testnet] have add:
    "\<And>m z. add_zone rd m (''mainnet'', serialize_zone z) = Inr (m(Mainnet \<mapsto> z))"
    "\<And>m z. add_zone rd m (''testnet'', serialize_zone z) = Inr (m(Testnet \<mapsto> z))" by simp_all
  have table: "\<And>t. vr_table rd (TableValue t) = Inr t" using laws by (simp add: reader_laws_def)
  have same: "m Mainnet = zones Mainnet \<Longrightarrow> m Testnet = zones Testnet \<Longrightarrow> m = zones" for m
    by (intro ext) (metis zcash_network.exhaust)
  show ?thesis
    by (cases "zones Mainnet"; cases "zones Testnet";
        simp add: deserialize_zones_def serialize_zones_def btree_iter_def List.map_filter_def map_err_def table add;
        rule same; simp)
qed

lemma read_back_config:
  assumes laws: "reader_laws rd (config_addrs c)"
  shows "deserialize_config rd (serialize_config c) = Inr c \<and>
    deserialize_config rd (without_nil (serialize_config c)) =
      Inr (c\<lparr>sc_rate_limit := Some (case sc_rate_limit c of None \<Rightarrow> rate_limit_config_default | Some l \<Rightarrow> l)\<rparr>)"
proof -
  note parts = read_back_parts[OF laws] read_back_zones[OF laws]
  have struct: "\<And>t. vr_struct rd (TableValue t) = Inr (MapAccess t)" using laws by (simp add: reader_laws_def)
  have addrs: "dc_listen_addr (sc_dns c) \<in> config_addrs c"
    "\<And>m. sc_metrics c = Some m \<Longrightarrow> mc_endpoint_addr m \<in> config_addrs c"
    "\<And>h. sc_health c = Some h \<Longrightarrow> hc_endpoint_addr h \<in> config_addrs c"
    by (auto simp: config_addrs_def)
  have tables: "serialize_dns d \<noteq> NilValue" "serialize_zones z \<noteq> NilValue" "serialize_metrics m \<noteq> NilValue"
    "serialize_health h \<noteq> NilValue" "serialize_rate_limit l \<noteq> NilValue" for d z m h l
    by (simp_all add: serialize_dns_def serialize_zones_def serialize_metrics_def serialize_health_def serialize_rate_limit_def)
  have read: "deserialize_dns rd (serialize_dns (sc_dns c)) = Inr (sc_dns c)"
    "deserialize_zones rd (serialize_zones (sc_zones c)) = Inr (sc_zones c)"
    "\<And>x. sc_metrics c = x \<Longrightarrow> read_option (deserialize_metrics rd) (serialize_option serialize_metrics x) = Inr x"
    "\<And>x. sc_health c = x \<Longrightarrow> read_option (deserialize_health rd) (serialize_option serialize_health x) = Inr x"
    "\<And>x. read_option (deserialize_rate_limit rd) (serialize_option serialize_rate_limit x) = Inr x"
    using addrs parts tables
    by (auto simp: read_option_def serialize_option_def split: option.split)
  have nil: "serialize_option serialize_metrics x \<noteq> NilValue \<longleftrightarrow> x \<noteq> None"
    "serialize_option serialize_health y \<noteq> NilValue \<longleftrightarrow> y \<noteq> None"
    "serialize_option serialize_rate_limit z \<noteq> NilValue \<longleftrightarrow> z \<noteq> None" for x y z
    using tables by (auto simp: serialize_option_def split: option.split)
  note simps = deserialize_config_def deserialize_struct_def serialize_config_def without_nil_def
    config_fields_def read_nested_def ensure_def map_err_def struct read nil tables seeder_config_default_def
  show ?thesis
    by (cases "sc_metrics c"; cases "sc_health c"; cases "sc_rate_limit c")
      (simp_all add: simps seeder_config.equality)
qed

text \<open>C17: Writing a configuration and reading it back: the values that \<open>Serialize\<close> produces are
  deserialized to the configuration they came from, for every configuration that is carried from
  the one to the other unchanged; the config and toml crates carry integers as \<open>i64\<close> and refuse
  a larger \<open>ready_threshold\<close> on the way. Where
  nil is left out, as in the TOML of \<open>print-config\<close>, the result is the same configuration, but a
  rate limit that was disabled comes back as the default one.\<close>

theorem config_tree_roundtrip:
  assumes laws: "reader_laws rd (config_addrs c)"
  shows "deserialize_config rd (serialize_config c) = Inr c \<and>
    deserialize_config rd (without_nil (serialize_config c)) =
      Inr (c\<lparr>sc_rate_limit := Some (case sc_rate_limit c of None \<Rightarrow> rate_limit_config_default | Some l \<Rightarrow> l)\<rparr>)"
  using laws by (rule read_back_config)

text \<open>C18: What a configuration file or environment can say: a tree is accepted exactly when every
  name in it is one of the five sections, none is there twice and every section can be read. An
  accepted tree sets a section exactly by naming it: the metrics and the health endpoint stay off
  unless they are named, the listener and the rate limit keep their defaults unless they are named,
  and the rate limit is off only if the tree gives it a nil, which TOML and the environment cannot.\<close>

theorem config_tree_meaning:
  assumes tree: "vr_struct rd v = Inr (MapAccess t)"
  shows "(is_ok (deserialize_config rd v) \<longleftrightarrow> distinct (map fst t) \<and> list_all (section_ok rd) t) \<and>
    (\<forall>c. deserialize_config rd v = Inr c \<longrightarrow>
       (map_of t ''dns'' = None \<longrightarrow> sc_dns c = dns_config_default) \<and>
       (map_of t ''zones'' = None \<longrightarrow> sc_zones c = Map.empty) \<and>
       (sc_metrics c = None \<longleftrightarrow> map_of t ''metrics'' \<in> {None, Some NilValue}) \<and>
       (sc_health c = None \<longleftrightarrow> map_of t ''health'' \<in> {None, Some NilValue}) \<and>
       (map_of t ''rate_limit'' = None \<longrightarrow> sc_rate_limit c = Some rate_limit_config_default) \<and>
       (sc_rate_limit c = None \<longleftrightarrow> map_of t ''rate_limit'' = Some NilValue))"
proof (intro conjI[OF _ allI] impI)
  have "is_ok (deserialize_config rd v) = is_ok (visit_fields (config_fields rd) [] seeder_config_default t)"
    using tree by (simp add: deserialize_config_def deserialize_struct_def map_err_def)
  also have "\<dots> \<longleftrightarrow> distinct (map fst t) \<and> list_all (entry_ok (config_fields rd) seeder_config_default) t"
    by (subst visit_fields_ok_iff[where initial = seeder_config_default]) (auto simp: config_fields_def)
  finally show "is_ok (deserialize_config rd v) \<longleftrightarrow> distinct (map fst t) \<and> list_all (section_ok rd) t"
    by (simp add: entry_ok_section list_all_iff)
qed (use config_section[OF _ tree] in \<open>auto simp: read_option_Inr_iff split: option.splits if_splits\<close>)

section \<open>Samples\<close>

text \<open>A reader that knows the given texts as addresses and takes each kind of value only as itself.\<close>

definition sample_reader :: "(string \<times> socket_addr) list \<Rightarrow> value_reader" where
  "sample_reader addrs =
     (let number = (\<lambda>v. case v of IntValue n \<Rightarrow> Inr (word_of_int n) | _ \<Rightarrow> Inl ''not a number'');
          text = (\<lambda>v. case v of TextValue s \<Rightarrow> Inr s | _ \<Rightarrow> Inl ''not a string'')
      in \<lparr>vr_struct = (\<lambda>v. case v of TableValue t \<Rightarrow> Inr (MapAccess t) | ListValue vs \<Rightarrow> Inr (SeqAccess vs)
            | _ \<Rightarrow> Inl ''not a table''),
          vr_variant = (\<lambda>variants name. if name \<in> set variants then Some name else None),
          vr_string = text,
          vr_strings = (\<lambda>v. case v of ListValue vs \<Rightarrow> result_fold (\<lambda>ss v. bind_result (text v) (\<lambda>s. Inr (ss @ [s]))) [] vs
            | _ \<Rightarrow> Inl ''not a list''),
          vr_u32 = number,
          vr_usize = (\<lambda>v. case v of IntValue n \<Rightarrow> Inr (word_of_int n) | _ \<Rightarrow> Inl ''not a number''),
          vr_socket_addr = (\<lambda>v. bind_result (text v) (\<lambda>s.
            ok_or ''not an address'' (map_of addrs s))),
          vr_table = (\<lambda>v. case v of TableValue t \<Rightarrow> Inr t | _ \<Rightarrow> Inl ''not a table'')\<rparr>)"

lemma sample_strings:
  "result_fold (\<lambda>ss v. bind_result (case v of TextValue s \<Rightarrow> Inr s | _ \<Rightarrow> Inl e) (\<lambda>s. Inr (ss @ [s]))) acc
     (map TextValue ss) = Inr (acc @ ss)"
  by (induction ss arbitrary: acc) simp_all

definition shown :: "socket_addr list \<Rightarrow> (string \<times> socket_addr) list" where
  "shown addrs = map (\<lambda>a. (show_socket_addr a, a)) addrs"

lemma sample_reader_laws:
  assumes "distinct (map show_socket_addr addrs)"
  shows "reader_laws (sample_reader (shown addrs)) (set addrs)"
proof -
  have "map_of (shown addrs) (show_socket_addr a) = Some a" if "a \<in> set addrs" for a
    using that assms by (auto simp: shown_def comp_def intro!: map_of_is_SomeI)
  then show ?thesis
    by (simp add: reader_laws_def sample_reader_def Let_def sample_strings ok_or_def)
qed

definition full_config :: seeder_config where
  "full_config = sample_config\<lparr>
     sc_metrics := Some metrics_config_default,
     sc_rate_limit := None\<rparr>"

definition config_sample_addrs :: "socket_addr list" where
  "config_sample_addrs = [dc_listen_addr dns_config_default, mc_endpoint_addr metrics_config_default,
     hc_endpoint_addr health_config_default]"

lemma config_sample_addrs_shown: "distinct (map show_socket_addr config_sample_addrs)"
  by (simp add: config_sample_addrs_def dns_config_default_def metrics_config_default_def health_config_default_def
      show_socket_addr_def UNSPECIFIED_V4_def show_nat.simps digit_char_def digit_chars)

theorem config_tree_roundtrip_witness:
  "deserialize_config (sample_reader (shown config_sample_addrs)) (serialize_config full_config) = Inr full_config \<and>
   deserialize_config (sample_reader (shown config_sample_addrs)) (without_nil (serialize_config full_config)) =
     Inr (full_config\<lparr>sc_rate_limit := Some rate_limit_config_default\<rparr>)"
proof -
  have "reader_laws (sample_reader (shown config_sample_addrs)) (set config_sample_addrs)"
    by (rule sample_reader_laws[OF config_sample_addrs_shown])
  moreover have "config_addrs full_config = set config_sample_addrs"
    by (auto simp: config_addrs_def full_config_def sample_config_def seeder_config_default_def config_sample_addrs_def)
  ultimately show ?thesis
    using config_tree_roundtrip[of "sample_reader (shown config_sample_addrs)" full_config]
    by (simp add: map_err_def full_config_def)
qed

theorem config_tree_meaning_witness:
  "\<not> is_ok (deserialize_config (sample_reader []) (TableValue [(''dns_ttl'', IntValue 300)])) \<and>
   (\<exists>c. deserialize_config (sample_reader []) (TableValue [(''metrics'', TableValue []), (''health'', NilValue)]) = Inr c \<and>
      sc_metrics c \<noteq> None \<and> sc_health c = None \<and> sc_rate_limit c = Some rate_limit_config_default)"
proof -
  let ?rd = "sample_reader []"
  let ?t = "[(''metrics'', TableValue []), (''health'', NilValue)]"
  have tree: "vr_struct ?rd (TableValue t) = Inr (MapAccess t)" for t
    by (simp add: sample_reader_def Let_def)
  have "\<not> list_all (section_ok ?rd) [(''dns_ttl'', IntValue 300)]" by (simp add: section_ok_def)
  then have unknown: "\<not> is_ok (deserialize_config ?rd (TableValue [(''dns_ttl'', IntValue 300)]))"
    using conjunct1[OF config_tree_meaning[OF tree]] by blast
  have "is_ok (deserialize_metrics ?rd (TableValue []))"
    by (simp add: deserialize_metrics_def deserialize_struct_def sample_reader_def Let_def map_err_def)
  then have "distinct (map fst ?t) \<and> list_all (section_ok ?rd) ?t" by (simp add: section_ok_def)
  then have "is_ok (deserialize_config ?rd (TableValue ?t))"
    using conjunct1[OF config_tree_meaning[OF tree]] by blast
  then obtain c where c: "deserialize_config ?rd (TableValue ?t) = Inr c" by (auto simp: is_ok_iff)
  have "sc_metrics c \<noteq> None \<and> sc_health c = None \<and> sc_rate_limit c = Some rate_limit_config_default"
    using conjunct2[OF config_tree_meaning[OF tree], rule_format, OF c] by simp
  with unknown c show ?thesis by blast
qed

end
