(* ===== verification/Metric_Ops.thy ===== *)
theory Metric_Ops
  imports Net_Address
begin

text \<open>
  The metric names and label keys of \<open>src/metrics.rs\<close> and the metric updates the other
  components perform. An update is recorded as a value, so a function that touches metrics
  returns the list of updates it makes, in order; what a recorder does with them belongs
  to the metrics crate. A gauge or histogram sample that the code casts to \<open>f64\<close> is the
  natural number it casts (every count is far below \<open>2^53\<close>, where the cast is exact).
\<close>

definition PEERS_KNOWN :: string where "PEERS_KNOWN = ''zeeder_peers_known''"
definition PEERS_SERVABLE :: string where "PEERS_SERVABLE = ''zeeder_peers_servable''"
definition PEERS_UNSERVABLE :: string where "PEERS_UNSERVABLE = ''zeeder_peers_unservable''"
definition MIN_PROTOCOL_VERSION :: string where "MIN_PROTOCOL_VERSION = ''zeeder_min_protocol_version''"
definition ACTIVATION_READY_GROUPS :: string where "ACTIVATION_READY_GROUPS = ''zeeder_activation_ready_groups''"
definition ACTIVATION_TOTAL_GROUPS :: string where "ACTIVATION_TOTAL_GROUPS = ''zeeder_activation_total_groups''"
definition ACTIVATION_QUALIFYING_SWEEPS :: string where "ACTIVATION_QUALIFYING_SWEEPS = ''zeeder_activation_qualifying_sweeps''"
definition ACTIVATION_PROBES_TOTAL :: string where "ACTIVATION_PROBES_TOTAL = ''zeeder_activation_probes_total''"
definition ACTIVATION_CONFIRMED :: string where "ACTIVATION_CONFIRMED = ''zeeder_activation_confirmed''"
definition BUILD_INFO :: string where "BUILD_INFO = ''zeeder_build_info''"
definition MUTEX_POISONING_TOTAL :: string where "MUTEX_POISONING_TOTAL = ''zeeder_mutex_poisoning_total''"
definition DNS_RATE_LIMITED_TOTAL :: string where "DNS_RATE_LIMITED_TOTAL = ''zeeder_dns_rate_limited_total''"
definition DNS_ERRORS_TOTAL :: string where "DNS_ERRORS_TOTAL = ''zeeder_dns_errors_total''"
definition DNS_QUERIES_TOTAL :: string where "DNS_QUERIES_TOTAL = ''zeeder_dns_queries_total''"
definition DNS_RESPONSE_PEERS :: string where "DNS_RESPONSE_PEERS = ''zeeder_dns_response_peers''"

definition LABEL_ADDR_FAMILY :: string where "LABEL_ADDR_FAMILY = ''addr_family''"
definition LABEL_REASON :: string where "LABEL_REASON = ''reason''"
definition LABEL_RECORD_TYPE :: string where "LABEL_RECORD_TYPE = ''record_type''"
definition LABEL_VERSION :: string where "LABEL_VERSION = ''version''"
definition LABEL_GIT_SHA :: string where "LABEL_GIT_SHA = ''git_sha''"
definition LABEL_NETWORK :: string where "LABEL_NETWORK = ''network''"
definition LABEL_OUTCOME :: string where "LABEL_OUTCOME = ''outcome''"

definition ADDR_FAMILY_IPV4 :: string where "ADDR_FAMILY_IPV4 = ''v4''"
definition ADDR_FAMILY_IPV6 :: string where "ADDR_FAMILY_IPV6 = ''v6''"

definition RECORD_TYPE_A :: string where "RECORD_TYPE_A = ''A''"
definition RECORD_TYPE_AAAA :: string where "RECORD_TYPE_AAAA = ''AAAA''"
definition RECORD_TYPE_SOA :: string where "RECORD_TYPE_SOA = ''SOA''"
definition RECORD_TYPE_NS :: string where "RECORD_TYPE_NS = ''NS''"
definition RECORD_TYPE_OTHER :: string where "RECORD_TYPE_OTHER = ''other''"

lemmas metric_name_defs =
  PEERS_KNOWN_def PEERS_SERVABLE_def PEERS_UNSERVABLE_def MIN_PROTOCOL_VERSION_def
  ACTIVATION_READY_GROUPS_def ACTIVATION_TOTAL_GROUPS_def ACTIVATION_QUALIFYING_SWEEPS_def
  ACTIVATION_PROBES_TOTAL_def ACTIVATION_CONFIRMED_def BUILD_INFO_def MUTEX_POISONING_TOTAL_def
  DNS_RATE_LIMITED_TOTAL_def DNS_ERRORS_TOTAL_def DNS_QUERIES_TOTAL_def DNS_RESPONSE_PEERS_def

lemmas metric_label_defs =
  LABEL_ADDR_FAMILY_def LABEL_REASON_def LABEL_RECORD_TYPE_def LABEL_VERSION_def
  LABEL_GIT_SHA_def LABEL_NETWORK_def LABEL_OUTCOME_def ADDR_FAMILY_IPV4_def ADDR_FAMILY_IPV6_def
  RECORD_TYPE_A_def RECORD_TYPE_AAAA_def RECORD_TYPE_SOA_def RECORD_TYPE_NS_def
  RECORD_TYPE_OTHER_def

section \<open>Metric updates\<close>

type_synonym labels = "(string \<times> string) list"

datatype metric_op =
    GaugeSet string labels nat
  | CounterIncrement string labels nat
  | HistogramRecord string labels nat

text \<open>The total a list of updates adds to one counter.\<close>

fun counter_total :: "string \<Rightarrow> labels \<Rightarrow> metric_op list \<Rightarrow> nat" where
  "counter_total n ls [] = 0"
| "counter_total n ls (CounterIncrement n' ls' k # ops) =
     (if n = n' \<and> ls = ls' then k else 0) + counter_total n ls ops"
| "counter_total n ls (_ # ops) = counter_total n ls ops"

text \<open>The value a list of updates leaves in one gauge: the last one set.\<close>

fun gauge_value :: "string \<Rightarrow> labels \<Rightarrow> metric_op list \<Rightarrow> nat option" where
  "gauge_value n ls [] = None"
| "gauge_value n ls (GaugeSet n' ls' v # ops) =
     (case gauge_value n ls ops of
        Some w \<Rightarrow> Some w
      | None \<Rightarrow> if n = n' \<and> ls = ls' then Some v else None)"
| "gauge_value n ls (_ # ops) = gauge_value n ls ops"

lemma counter_total_append [simp]:
  "counter_total n ls (xs @ ys) = counter_total n ls xs + counter_total n ls ys"
  by (induction n ls xs rule: counter_total.induct) auto

lemma gauge_value_append [simp]:
  "gauge_value n ls (xs @ ys) =
     (case gauge_value n ls ys of Some w \<Rightarrow> Some w | None \<Rightarrow> gauge_value n ls xs)"
  by (induction n ls xs rule: gauge_value.induct) (auto split: option.splits)

section \<open>Installing the exporter\<close>

text \<open>
  \<open>init\<close> installs the Prometheus recorder with an HTTP listener; the builder's
  \<open>install\<close> is the parameter \<open>install\<close>, and its failure is wrapped with the address.
\<close>

datatype metrics_error = RecorderInstallFailed socket_addr string

definition metrics_init :: "(socket_addr \<Rightarrow> string + unit) \<Rightarrow> socket_addr \<Rightarrow> metrics_error + unit" where
  "metrics_init install addr = map_err (RecorderInstallFailed addr) (install addr)"

end
