(* ===== verification/Peer_Servability.thy ===== *)
theory Peer_Servability
  imports Network_Config Metric_Ops
begin

text \<open>
  \<open>src/crawl/servability.rs\<close>: whether a crawled peer may be served, and if not the reason
  that is reported.
\<close>

section \<open>Reasons\<close>

datatype unservable_reason =
    NotRoutable
  | WrongPort
  | NotRecentlyLive
  | OutdatedVersion
  | NotFullNode
  | Inbound
  | Misbehaving

definition ALL_REASONS :: "unservable_reason list" where
  "ALL_REASONS =
     [NotRoutable, WrongPort, NotRecentlyLive, OutdatedVersion, NotFullNode, Inbound, Misbehaving]"

fun reason_label :: "unservable_reason \<Rightarrow> string" where
  "reason_label NotRoutable = ''not_routable''"
| "reason_label WrongPort = ''wrong_port''"
| "reason_label NotRecentlyLive = ''not_recently_live''"
| "reason_label OutdatedVersion = ''outdated_version''"
| "reason_label NotFullNode = ''not_full_node''"
| "reason_label Inbound = ''inbound''"
| "reason_label Misbehaving = ''misbehaving''"

lemma set_ALL_REASONS [simp]: "set ALL_REASONS = UNIV"
proof -
  have "r \<in> set ALL_REASONS" for r by (cases r) (simp_all add: ALL_REASONS_def)
  then show ?thesis by blast
qed

lemma distinct_ALL_REASONS [simp]: "distinct ALL_REASONS"
  by (simp add: ALL_REASONS_def)

lemma reason_label_inject [simp]: "reason_label r = reason_label s \<longleftrightarrow> r = s"
  by (cases r; cases s) simp_all

section \<open>Classification\<close>

record peer_attributes =
  pa_ip :: ip_addr
  pa_port :: u16
  pa_default_port :: u16
  pa_is_recently_live :: bool
  pa_negotiated_version :: "version option"
  pa_minimum_version :: version
  pa_advertises_node_network :: bool
  pa_is_inbound :: bool
  pa_misbehavior_score :: u32

text \<open>\<open>Option::is_none_or\<close>.\<close>

definition is_none_or :: "('a \<Rightarrow> bool) \<Rightarrow> 'a option \<Rightarrow> bool" where
  "is_none_or p x = (case x of None \<Rightarrow> True | Some a \<Rightarrow> p a)"

text \<open>The checks in the order of the code; the first that fails is the reason reported.\<close>

definition classify :: "peer_attributes \<Rightarrow> unservable_reason + unit" where
  "classify p =
     (if is_loopback (pa_ip p) \<or> is_unspecified (pa_ip p) \<or> is_multicast (pa_ip p) then Inl NotRoutable
      else if pa_port p \<noteq> pa_default_port p then Inl WrongPort
      else if \<not> pa_is_recently_live p then Inl NotRecentlyLive
      else if is_none_or (\<lambda>version. version < pa_minimum_version p) (pa_negotiated_version p)
        then Inl OutdatedVersion
      else if \<not> pa_advertises_node_network p then Inl NotFullNode
      else if pa_is_inbound p then Inl Inbound
      else if pa_misbehavior_score p \<noteq> 0 then Inl Misbehaving
      else Inr ())"

definition peer_attributes_of ::
  "('net, 'cache) zebra \<Rightarrow> ('book, 'meta, 'net, 'time) book_api \<Rightarrow> 'book \<Rightarrow> 'meta \<Rightarrow> 'time \<Rightarrow> 'net
    \<Rightarrow> version \<Rightarrow> peer_attributes" where
  "peer_attributes_of z api book meta now network minimum_version =
     (let addr = ma_addr api meta in \<lparr>
       pa_ip = sa_ip addr,
       pa_port = sa_port addr,
       pa_default_port = zb_default_port z network,
       pa_is_recently_live = ma_was_recently_live api meta now,
       pa_negotiated_version = ma_negotiated_version api meta,
       pa_minimum_version = minimum_version,
       pa_advertises_node_network = ma_valid_for_outbound api meta network,
       pa_is_inbound = ma_is_inbound api meta,
       pa_misbehavior_score = ab_misbehavior_score api book addr\<rparr>)"

definition classify_peer ::
  "('net, 'cache) zebra \<Rightarrow> ('book, 'meta, 'net, 'time) book_api \<Rightarrow> 'book \<Rightarrow> 'meta \<Rightarrow> 'time \<Rightarrow> 'net
    \<Rightarrow> version \<Rightarrow> unservable_reason + unit" where
  "classify_peer z api book meta now network minimum_version =
     classify (peer_attributes_of z api book meta now network minimum_version)"

section \<open>The conditions, one per reason\<close>

text \<open>
  The specification names the condition that each reason reports, independently of the
  order: a peer is servable when no condition holds, and otherwise the reason reported is
  the first of \<open>ALL_REASONS\<close> whose condition holds.
\<close>

definition routable :: "ip_addr \<Rightarrow> bool" where
  "routable ip \<longleftrightarrow> \<not> is_loopback ip \<and> \<not> is_unspecified ip \<and> \<not> is_multicast ip"

fun reason_applies :: "peer_attributes \<Rightarrow> unservable_reason \<Rightarrow> bool" where
  "reason_applies p NotRoutable \<longleftrightarrow> \<not> routable (pa_ip p)"
| "reason_applies p WrongPort \<longleftrightarrow> pa_port p \<noteq> pa_default_port p"
| "reason_applies p NotRecentlyLive \<longleftrightarrow> \<not> pa_is_recently_live p"
| "reason_applies p OutdatedVersion \<longleftrightarrow>
     (\<forall>v. pa_negotiated_version p = Some v \<longrightarrow> v < pa_minimum_version p)"
| "reason_applies p NotFullNode \<longleftrightarrow> \<not> pa_advertises_node_network p"
| "reason_applies p Inbound \<longleftrightarrow> pa_is_inbound p"
| "reason_applies p Misbehaving \<longleftrightarrow> pa_misbehavior_score p \<noteq> 0"

definition servable :: "peer_attributes \<Rightarrow> bool" where
  "servable p \<longleftrightarrow> (\<forall>r. \<not> reason_applies p r)"

lemma is_none_or_iff: "is_none_or q x \<longleftrightarrow> (\<forall>a. x = Some a \<longrightarrow> q a)"
  by (cases x) (simp_all add: is_none_or_def)

lemma all_reasons_iff: "(\<forall>r. P r) \<longleftrightarrow> list_all P ALL_REASONS"
  by (simp add: list_all_iff)

lemma classify_find:
  "classify p = (case find (reason_applies p) ALL_REASONS of None \<Rightarrow> Inr () | Some r \<Rightarrow> Inl r)"
  by (cases "pa_negotiated_version p")
    (simp_all add: classify_def ALL_REASONS_def is_none_or_iff routable_def)

lemma classify_Inr_iff: "classify p = Inr u \<longleftrightarrow> servable p"
  by (auto simp: classify_find servable_def find_None_iff find_Some_iff split: option.splits)

lemma servable_unfold:
  "servable p \<longleftrightarrow>
     routable (pa_ip p) \<and> pa_port p = pa_default_port p \<and> pa_is_recently_live p \<and>
     (\<exists>v. pa_negotiated_version p = Some v \<and> pa_minimum_version p \<le> v) \<and>
     pa_advertises_node_network p \<and> \<not> pa_is_inbound p \<and> pa_misbehavior_score p = 0"
  by (auto simp: servable_def all_reasons_iff ALL_REASONS_def not_less)

text \<open>Raising the floor never makes a peer servable, and changes no other verdict.\<close>

lemma servable_antimono:
  "servable (p\<lparr>pa_minimum_version := w\<rparr>) \<Longrightarrow> v \<le> w \<Longrightarrow> servable (p\<lparr>pa_minimum_version := v\<rparr>)"
  by (auto simp: servable_unfold)

section \<open>What the users of the filter rely on\<close>

text \<open>
  The served-address cache and the activation sampler both keep the peers that
  \<open>classify_peer\<close> accepts and rely on the same contract: an accepted peer has a recorded
  version at the floor or above and a routable address on one fixed port. Over a list of
  peers with distinct addresses, the accepted IP addresses are then distinct, although DNS
  answers and network groups drop the port.
\<close>

locale peer_filter =
  fixes admits :: "'meta \<Rightarrow> bool"
    and addr_of :: "'meta \<Rightarrow> peer_addr"
    and version_of :: "'meta \<Rightarrow> version option"
    and floor :: version
    and port :: u16
  assumes admits_version: "admits m \<Longrightarrow> \<exists>v. version_of m = Some v \<and> floor \<le> v"
    and admits_addr: "admits m \<Longrightarrow> routable (sa_ip (addr_of m)) \<and> sa_port (addr_of m) = port"
begin

lemma admitted_ip_inject:
  "admits m \<Longrightarrow> admits m' \<Longrightarrow> sa_ip (addr_of m) = sa_ip (addr_of m') \<Longrightarrow> addr_of m = addr_of m'"
  by (drule admits_addr, drule admits_addr) (simp add: socket_addr.equality)

lemma admitted_ips_distinct:
  "distinct (map addr_of ms) \<Longrightarrow> distinct (map (sa_ip \<circ> addr_of) (filter admits ms))"
  by (induction ms) (auto dest: admitted_ip_inject)

lemma admitted_routable: "\<forall>m \<in> set (filter admits ms). routable (sa_ip (addr_of m))"
  by (simp add: admits_addr)

end

interpretation servability: peer_filter
  "\<lambda>m. classify_peer z api book m now network v = Inr ()"
  "ma_addr api" "ma_negotiated_version api" v "zb_default_port z network"
  for z :: "('net, 'cache) zebra" and api :: "('book, 'meta, 'net, 'time) book_api"
    and book now network v
  by unfold_locales
    (auto simp: classify_peer_def classify_Inr_iff servable_unfold peer_attributes_of_def Let_def)

section \<open>A book for the witnesses\<close>

text \<open>A peer is its address, its negotiated version, its liveness and its misbehaviour score.\<close>

type_synonym sample_meta = "peer_addr \<times> version option \<times> bool \<times> u32"

definition sample_book_api :: "(sample_meta list, sample_meta, bool, nat) book_api" where
  "sample_book_api = \<lparr>
     ab_peers = (\<lambda>book. book),
     ab_len = length,
     ab_misbehavior_score = (\<lambda>book a. case map_of book a of None \<Rightarrow> 0 | Some (_, _, s) \<Rightarrow> s),
     ma_addr = fst,
     ma_was_recently_live = (\<lambda>m _. fst (snd (snd m))),
     ma_negotiated_version = (\<lambda>m. fst (snd m)),
     ma_valid_for_outbound = (\<lambda>_ _. True),
     ma_is_inbound = (\<lambda>_. False)\<rparr>"

lemma sample_book_simps:
  "ab_peers sample_book_api book = book"
  "ab_len sample_book_api book = length book"
  "ma_addr sample_book_api = fst"
  "ma_was_recently_live sample_book_api m now = fst (snd (snd m))"
  "ma_negotiated_version sample_book_api m = fst (snd m)"
  "ma_valid_for_outbound sample_book_api m net"
  "\<not> ma_is_inbound sample_book_api m"
  by (simp_all add: sample_book_api_def)

definition sample_peer :: "u8 \<Rightarrow> version \<Rightarrow> sample_meta" where
  "sample_peer n v = (mk_addr (V4 (Ipv4Addr 9 2 3 n)) 8233, Some v, True, 0)"

text \<open>A current peer, one at the previous version, an outdated one, and an IPv6 peer.\<close>

definition sample_book :: "sample_meta list" where
  "sample_book = [sample_peer 1 170190, sample_peer 2 170160, sample_peer 3 170130,
     (mk_addr (V6 (Ipv6Addr 0x2001 1 2 3 4 5 6 7)) 8233, Some 170190, True, 0)]"

lemmas sample_book_defs = sample_book_api_def sample_peer_def sample_book_def
  classify_peer_def classify_def peer_attributes_of_def is_none_or_def pinned_zebra_def

lemma classify_peer_servable:
  "classify_peer z api book m now network v = Inr u \<longleftrightarrow>
     servable (peer_attributes_of z api book m now network v)"
  by (simp add: classify_peer_def classify_Inr_iff)

section \<open>Properties\<close>

text \<open>C34: A peer is accepted exactly when no condition excludes it, and a refused peer is
  reported under the first reason, in the order of \<open>UnservableReason::ALL\<close>, whose condition
  holds; so an accepted peer is routable, on the default port, recently live, at the floor or
  above, a full node, outbound and unbanned.\<close>

theorem classify_first_reason:
  "(classify p = Inr () \<longleftrightarrow>
      routable (pa_ip p) \<and> pa_port p = pa_default_port p \<and> pa_is_recently_live p \<and>
      (\<exists>v. pa_negotiated_version p = Some v \<and> pa_minimum_version p \<le> v) \<and>
      pa_advertises_node_network p \<and> \<not> pa_is_inbound p \<and> pa_misbehavior_score p = 0) \<and>
   (classify p = Inl r \<longleftrightarrow>
      reason_applies p r \<and>
      list_all (\<lambda>s. \<not> reason_applies p s) (takeWhile (\<lambda>s. s \<noteq> r) ALL_REASONS))"
proof -
  have first: "find P xs = Some r \<longleftrightarrow> r \<in> set xs \<and> P r \<and> list_all (\<lambda>s. \<not> P s) (takeWhile (\<lambda>s. s \<noteq> r) xs)"
    for P and xs :: "unservable_reason list"
    by (induction xs) auto
  have "classify p = Inl r \<longleftrightarrow> find (reason_applies p) ALL_REASONS = Some r"
    by (auto simp: classify_find split: option.splits)
  then show ?thesis
    using servable_unfold[of p] by (simp add: first classify_Inr_iff)
qed

text \<open>Raising the protocol floor only ever removes peers: a peer accepted at a floor is, at
  any higher one, accepted exactly if its negotiated version still reaches it, and is
  otherwise reported as outdated and under no other reason.\<close>

theorem raised_floor_outdates:
  assumes "v \<le> w" and "classify_peer z api book m now network v = Inr ()"
  shows "classify_peer z api book m now network w =
    (if \<exists>u. ma_negotiated_version api m = Some u \<and> w \<le> u then Inr () else Inl OutdatedVersion)"
  using assms
  by (auto simp: classify_peer_def classify_def peer_attributes_of_def Let_def is_none_or_iff split: if_splits)

theorem raised_floor_outdates_witness:
  "classify_peer pinned_zebra sample_book_api sample_book (sample_peer 2 170160) 0 False 170190 =
     Inl OutdatedVersion"
proof -
  have "classify_peer pinned_zebra sample_book_api sample_book (sample_peer 2 170160) 0 False 170160 = Inr ()"
    by (simp add: sample_book_defs)
  moreover have "(170160 :: version) \<le> 170190" by simp
  ultimately show ?thesis
    using raised_floor_outdates[of 170160 170190 pinned_zebra sample_book_api sample_book
        "sample_peer 2 170160" 0 False]
    by (simp add: sample_book_api_def sample_peer_def)
qed

end
