(* ===== verification/Activation_Target.thy ===== *)
theory Activation_Target
  imports Network_Config
begin

text \<open>
  The first part of \<open>src/crawl/activation.rs\<close>: the compiled activation target, the
  confirmation record that is kept beside the peer cache, loading and persisting it, and
  the operator's attestation. The file system is a parameter.
\<close>

section \<open>Constants\<close>

definition MIN_NETWORK_GROUPS :: usize where "MIN_NETWORK_GROUPS = 12"
definition MAX_NETWORK_GROUPS_PER_SWEEP :: nat where "MAX_NETWORK_GROUPS_PER_SWEEP = 64"
definition QUORUM_NUMERATOR :: usize where "QUORUM_NUMERATOR = 3"
definition QUORUM_DENOMINATOR :: usize where "QUORUM_DENOMINATOR = 4"
definition REQUIRED_QUALIFYING_SWEEPS :: u8 where "REQUIRED_QUALIFYING_SWEEPS = 3"

lemmas activation_constants =
  MIN_NETWORK_GROUPS_def MAX_NETWORK_GROUPS_PER_SWEEP_def QUORUM_NUMERATOR_def
  QUORUM_DENOMINATOR_def REQUIRED_QUALIFYING_SWEEPS_def

definition OBSERVATION_TIMEOUT :: "('net, 'cache) zebra \<Rightarrow> duration" where
  "OBSERVATION_TIMEOUT z = duration_saturating_mul (zb_handshake_timeout z) 2"

definition MIN_SWEEP_INTERVAL :: "('net, 'cache) zebra \<Rightarrow> duration" where
  "MIN_SWEEP_INTERVAL z =
     duration_saturating_add (zb_min_peer_reconnection_delay z) (OBSERVATION_TIMEOUT z)"

section \<open>The target\<close>

record activation_target =
  at_activation_height :: height
  at_confirmation_height :: height
  at_pre_activation_height :: height
  at_required_version :: version

definition latest_target :: "('net, 'cache) zebra \<Rightarrow> 'net \<Rightarrow> activation_target" where
  "latest_target z network =
     (let activation_height = zb_current_activation_height z network (zb_max_height z)
      in \<lparr>at_activation_height = activation_height,
          at_confirmation_height = saturating_add activation_height (zb_max_block_reorg_height z),
          at_pre_activation_height =
            (case zb_previous_height z activation_height of None \<Rightarrow> 0 | Some h \<Rightarrow> h),
          at_required_version = zb_min_remote_for_height z network (Some activation_height)\<rparr>)"

section \<open>The confirmation record\<close>

definition newline :: string where
  "newline = [CHR 0x0A]"

definition record_text :: "u32 \<Rightarrow> u32 \<Rightarrow> u32 \<Rightarrow> string" where
  "record_text activation_height confirmation_height minimum_protocol_version =
     ''activation_height='' @ show_u32 activation_height @ newline @
     ''confirmation_height='' @ show_u32 confirmation_height @ newline @
     ''minimum_protocol_version='' @ show_u32 minimum_protocol_version @ newline"

definition confirmation_record :: "activation_target \<Rightarrow> string" where
  "confirmation_record self =
     record_text (at_activation_height self) (at_confirmation_height self) (at_required_version self)"

definition matches_confirmation_record :: "activation_target \<Rightarrow> string \<Rightarrow> bool" where
  "matches_confirmation_record self record \<longleftrightarrow> record = confirmation_record self"

definition confirmation_path :: "('net, 'cache) zebra \<Rightarrow> 'cache \<Rightarrow> 'net \<Rightarrow> path option" where
  "confirmation_path z cache_dir network =
     map_option (\<lambda>dir. path_join (path_join dir ''network'') (zb_lowercase_name z network @ ''.activation''))
       (zb_cache_dir z cache_dir)"

section \<open>Files\<close>

text \<open>
  Reading a file gives its text, says that there is none, or fails otherwise. Zebra's
  \<open>atomic_write\<close>, run on a blocking task, persists the text, fails to write or to rename
  the temporary file, or its task is lost. Both are functions of a file system \<open>'fs\<close>;
  the laws are what the two document: a successful write is what the next read of that
  path returns, an unsuccessful one leaves the path as it was, and other paths keep theirs.
\<close>

datatype io_kind = NotFoundKind | InvalidInputKind | TimedOutKind | OtherKind

datatype io_error = IoError io_kind string

datatype write_outcome = Persisted | WriteFailed io_error | RenameFailed io_error | WriteTaskFailed string

record 'fs file_system =
  fs_read_to_string :: "'fs \<Rightarrow> path \<Rightarrow> io_error + string"
  fs_atomic_write :: "'fs \<Rightarrow> path \<Rightarrow> string \<Rightarrow> write_outcome \<times> 'fs"

definition file_system_laws :: "'fs file_system \<Rightarrow> bool" where
  "file_system_laws fs \<longleftrightarrow>
     (\<forall>d p text p'. let (outcome, d') = fs_atomic_write fs d p text in
        fs_read_to_string fs d' p' =
          (if p' = p \<and> outcome = Persisted then Inr text else fs_read_to_string fs d p'))"

fun io_error_kind :: "io_error \<Rightarrow> io_kind" where
  "io_error_kind (IoError k _) = k"

definition cache_disabled :: io_error where
  "cache_disabled =
     IoError OtherKind ''zebra-network cache is disabled; no durable confirmation path''"

section \<open>Loading, persisting, attesting\<close>

definition load_confirmation ::
  "'fs file_system \<Rightarrow> 'fs \<Rightarrow> path option \<Rightarrow> activation_target \<Rightarrow> bool" where
  "load_confirmation fs d path target =
     (case path of
        None \<Rightarrow> False
      | Some path \<Rightarrow>
          (case fs_read_to_string fs d path of
             Inr record \<Rightarrow> matches_confirmation_record target record
           | Inl error \<Rightarrow> False))"

definition persist_confirmation ::
  "'fs file_system \<Rightarrow> 'fs \<Rightarrow> path option \<Rightarrow> activation_target \<Rightarrow> (io_error + unit) \<times> 'fs" where
  "persist_confirmation fs d path target =
     (case path of
        None \<Rightarrow> (Inl cache_disabled, d)
      | Some path \<Rightarrow>
          (case fs_atomic_write fs d path (confirmation_record target) of
             (Persisted, d') \<Rightarrow> (Inr (), d')
           | (WriteFailed e, d') \<Rightarrow> (Inl e, d')
           | (RenameFailed e, d') \<Rightarrow> (Inl e, d')
           | (WriteTaskFailed e, d') \<Rightarrow>
               (Inl (IoError OtherKind (''activation persistence task failed: '' @ e)), d')))"

definition attestation_mismatch :: "activation_target \<Rightarrow> io_error" where
  "attestation_mismatch target = IoError InvalidInputKind
     (''attestation does not match compiled target: expected activation_height='' @
      show_u32 (at_activation_height target) @ '', confirmation_height='' @
      show_u32 (at_confirmation_height target) @ '', minimum_protocol_version='' @
      show_u32 (at_required_version target))"

definition attest_confirmation ::
  "('net, 'cache) zebra \<Rightarrow> 'fs file_system \<Rightarrow> 'fs \<Rightarrow> 'cache \<Rightarrow> 'net \<Rightarrow> u32 \<Rightarrow> u32 \<Rightarrow> u32
    \<Rightarrow> (io_error + path) \<times> 'fs" where
  "attest_confirmation z fs d cache_dir network activation_height confirmation_height
      minimum_protocol_version =
     (let target = latest_target z network;
          asserted_record = record_text activation_height confirmation_height minimum_protocol_version
      in if \<not> matches_confirmation_record target asserted_record then (Inl (attestation_mismatch target), d)
         else case confirmation_path z cache_dir network of
                None \<Rightarrow> (Inl cache_disabled, d)
              | Some path \<Rightarrow>
                  (case persist_confirmation fs d (Some path) target of
                     (Inl e, d') \<Rightarrow> (Inl e, d')
                   | (Inr _, d') \<Rightarrow> (Inr path, d')))"

section \<open>The record identifies the target\<close>

lemma split_at_first:
  assumes "c \<notin> set xs" "c \<notin> set ys"
  shows "xs @ [c] @ r = ys @ [c] @ s \<longleftrightarrow> xs = ys \<and> r = s"
proof -
  have "takeWhile (\<lambda>x. x \<noteq> c) (zs @ [c] @ t) = zs" if "c \<notin> set zs" for zs t
    using that by (induction zs) auto
  with assms show ?thesis by (metis append_same_eq same_append_eq)
qed

lemma record_text_inject:
  "record_text a c v = record_text a' c' v' \<longleftrightarrow> a = a' \<and> c = c' \<and> v = v'"
proof
  assume eq: "record_text a c v = record_text a' c' v'"
  have tail: "show_u32 x @ [CHR 0x0A] @ r = show_u32 y @ [CHR 0x0A] @ s \<longleftrightarrow> x = y \<and> r = s" for x y r s
    using split_at_first[of "CHR 0x0A" "show_u32 x" "show_u32 y" r s] by simp
  have last: "show_u32 x @ [CHR 0x0A] = show_u32 y @ [CHR 0x0A] \<longleftrightarrow> x = y" for x y by simp
  from eq have "a = a'" and rest: "''confirmation_height='' @ show_u32 c @ [CHR 0x0A] @
      ''minimum_protocol_version='' @ show_u32 v @ [CHR 0x0A] =
    ''confirmation_height='' @ show_u32 c' @ [CHR 0x0A] @
      ''minimum_protocol_version='' @ show_u32 v' @ [CHR 0x0A]"
    unfolding record_text_def newline_def same_append_eq tail by blast+
  from rest have "c = c'" and "show_u32 v @ [CHR 0x0A] = show_u32 v' @ [CHR 0x0A]"
    unfolding same_append_eq tail by blast+
  with \<open>a = a'\<close> show "a = a' \<and> c = c' \<and> v = v'" by simp
qed simp

lemma confirmation_record_eq_iff:
  "confirmation_record t = confirmation_record t' \<longleftrightarrow>
     at_activation_height t = at_activation_height t' \<and>
     at_confirmation_height t = at_confirmation_height t' \<and>
     at_required_version t = at_required_version t'"
  by (simp add: confirmation_record_def record_text_inject)

section \<open>The store contract\<close>

text \<open>
  What the observer, the attestation command and a restart rely on: after a successful
  write, loading accepts exactly the targets with the same record; a failed write changes
  no answer; a write to one path changes no answer about another.
\<close>

definition same_record :: "activation_target \<Rightarrow> activation_target \<Rightarrow> bool" where
  "same_record t t' \<longleftrightarrow> confirmation_record t = confirmation_record t'"

locale confirmation_store =
  fixes lawful :: "'f \<Rightarrow> bool"
    and persist :: "'f \<Rightarrow> 'd \<Rightarrow> 'p option \<Rightarrow> 't \<Rightarrow> ('e + unit) \<times> 'd"
    and load :: "'f \<Rightarrow> 'd \<Rightarrow> 'p option \<Rightarrow> 't \<Rightarrow> bool"
    and same :: "'t \<Rightarrow> 't \<Rightarrow> bool"
  assumes same_refl: "same t t"
    and persist_load: "lawful f \<Longrightarrow> persist f d p t = (Inr u, d') \<Longrightarrow> load f d' p t' \<longleftrightarrow> same t t'"
    and persist_fail: "lawful f \<Longrightarrow> persist f d p t = (Inl e, d') \<Longrightarrow> load f d' p' t' \<longleftrightarrow> load f d p' t'"
    and persist_other: "lawful f \<Longrightarrow> persist f d p t = (r, d') \<Longrightarrow> p' \<noteq> p \<Longrightarrow>
      load f d' p' t' \<longleftrightarrow> load f d p' t'"
begin

lemma reload: "lawful f \<Longrightarrow> persist f d p t = (Inr u, d') \<Longrightarrow> load f d' p t"
  by (simp add: persist_load same_refl)

lemma stale_record_ignored:
  "lawful f \<Longrightarrow> persist f d p t = (Inr u, d') \<Longrightarrow> \<not> same t t' \<Longrightarrow> \<not> load f d' p t'"
  by (simp add: persist_load)

lemma persist_keeps_confirmed:
  assumes lawful: "lawful f" and loaded: "load f d p t"
  shows "load f (snd (persist f d p t)) p t"
proof (cases "persist f d p t")
  case (Pair r d')
  with assms show ?thesis by (cases r) (auto simp: reload persist_fail)
qed

end

lemma file_system_lawsD:
  assumes "file_system_laws fs" "fs_atomic_write fs d p text = (outcome, d')"
  shows "fs_read_to_string fs d' p' =
    (if p' = p \<and> outcome = Persisted then Inr text else fs_read_to_string fs d p')"
  using assms by (simp add: file_system_laws_def Let_def split_beta)
    (metis fst_conv snd_conv)

interpretation store: confirmation_store
  file_system_laws persist_confirmation load_confirmation same_record
proof
  fix f :: "'a file_system" and d d' p p' t t' u e and r :: "io_error + unit"
  show "same_record t t" by (simp add: same_record_def)
  assume laws: "file_system_laws f"
  show "load_confirmation f d' p t' = same_record t t'"
    if "persist_confirmation f d p t = (Inr u, d')"
    using that file_system_lawsD[OF laws]
    by (auto simp: persist_confirmation_def load_confirmation_def matches_confirmation_record_def
        same_record_def split: option.splits prod.splits write_outcome.splits)
  show "load_confirmation f d' p' t' = load_confirmation f d p' t'"
    if "persist_confirmation f d p t = (Inl e, d')"
    using that file_system_lawsD[OF laws]
    by (auto simp: persist_confirmation_def load_confirmation_def
        split: option.splits prod.splits write_outcome.splits)
  show "load_confirmation f d' p' t' = load_confirmation f d p' t'"
    if "persist_confirmation f d p t = (r, d')" "p' \<noteq> p"
    using that file_system_lawsD[OF laws]
    by (auto simp: persist_confirmation_def load_confirmation_def
        split: option.splits prod.splits write_outcome.splits)
qed

section \<open>A file system for the witnesses\<close>

text \<open>
  Files as a finite association list; every write succeeds unless its path is the one
  marked read-only.
\<close>

definition sample_files :: "((path \<times> string) list) file_system" where
  "sample_files = \<lparr>
     fs_read_to_string = (\<lambda>d p. case map_of d p of
        None \<Rightarrow> Inl (IoError NotFoundKind ''no such file'') | Some t \<Rightarrow> Inr t),
     fs_atomic_write = (\<lambda>d p t. if p = [''read-only'']
        then (WriteFailed (IoError OtherKind ''permission denied''), d) else (Persisted, (p, t) # d))\<rparr>"

lemma sample_files_laws: "file_system_laws sample_files"
  by (simp add: file_system_laws_def sample_files_def)

section \<open>The operator's attestation\<close>

lemma attest_mismatch:
  assumes "(a, c, v) \<noteq> (at_activation_height (latest_target z network),
    at_confirmation_height (latest_target z network), at_required_version (latest_target z network))"
  shows "attest_confirmation z fs d cache_dir network a c v =
    (Inl (attestation_mismatch (latest_target z network)), d)"
  using assms
  by (auto simp: attest_confirmation_def matches_confirmation_record_def confirmation_record_def
      record_text_inject Let_def)

lemma attest_match:
  "attest_confirmation z fs d cache_dir network (at_activation_height (latest_target z network))
     (at_confirmation_height (latest_target z network)) (at_required_version (latest_target z network)) =
   (case confirmation_path z cache_dir network of
      None \<Rightarrow> (Inl cache_disabled, d)
    | Some path \<Rightarrow>
        let (r, d') = persist_confirmation fs d (Some path) (latest_target z network)
        in (bind_result r (\<lambda>_. Inr path), d'))"
  by (simp add: attest_confirmation_def matches_confirmation_record_def confirmation_record_def Let_def
      split_beta split: option.split prod.split sum.split)

text \<open>C19: Attesting and reloading is a round trip: attesting with the three numbers of the compiled
  target, and only with those, can succeed, and returns the path of the record; from then on a
  target loads as confirmed exactly when it has these three numbers, so that a record of an
  earlier upgrade is ignored after an update of zebra. An attestation that fails, for whatever
  reason, changes what loads for no target and no path.\<close>

theorem attest_reload:
  assumes "file_system_laws fs"
    and "attest_confirmation z fs d cache_dir network a c v = (r, d')"
  shows "(case r of
      Inr path \<Rightarrow> confirmation_path z cache_dir network = Some path \<and>
        (a, c, v) = (at_activation_height (latest_target z network),
          at_confirmation_height (latest_target z network), at_required_version (latest_target z network)) \<and>
        (load_confirmation fs d' (Some path) t \<longleftrightarrow>
          (at_activation_height t, at_confirmation_height t, at_required_version t) = (a, c, v)) \<and>
        (p = Some path \<or> load_confirmation fs d' p t = load_confirmation fs d p t)
    | Inl _ \<Rightarrow> load_confirmation fs d' p t = load_confirmation fs d p t)"
proof (cases "(a, c, v) = (at_activation_height (latest_target z network),
    at_confirmation_height (latest_target z network), at_required_version (latest_target z network))")
  case False
  from attest_mismatch[OF this, of fs d cache_dir] assms(2) show ?thesis by auto
next
  case True
  then have numbers: "a = at_activation_height (latest_target z network)"
    "c = at_confirmation_height (latest_target z network)" "v = at_required_version (latest_target z network)"
    by simp_all
  show ?thesis
  proof (cases "confirmation_path z cache_dir network")
    case None
    with assms(2) show ?thesis by (auto simp: numbers attest_match)
  next
    case (Some path)
    obtain w d'' where w: "persist_confirmation fs d (Some path) (latest_target z network) = (w, d'')"
      by (cases "persist_confirmation fs d (Some path) (latest_target z network)")
    with assms(2) Some have r: "r = bind_result w (\<lambda>_. Inr path)" "d' = d''"
      by (simp_all add: numbers attest_match)
    show ?thesis
    proof (cases w)
      case (Inl e)
      with store.persist_fail[OF assms(1)] w r show ?thesis by simp
    next
      case (Inr u)
      with w store.persist_load[OF assms(1)] store.persist_other[OF assms(1) w] Some r show ?thesis
        by (auto simp: numbers same_record_def confirmation_record_eq_iff)
    qed
  qed
qed

theorem attest_reload_witness:
  "load_confirmation sample_files (snd (attest_confirmation pinned_zebra sample_files [] (Some [''c'']) False
      3543405 3544405 170190)) (confirmation_path pinned_zebra (Some [''c'']) False)
    (latest_target pinned_zebra False)"
proof -
  have target: "latest_target pinned_zebra False = \<lparr>at_activation_height = 3543405,
      at_confirmation_height = 3544405, at_pre_activation_height = 3543404, at_required_version = 170190\<rparr>"
    by (simp add: latest_target_def pinned_zebra_simps saturating_add_def Let_def)
  obtain path d' where attested: "attest_confirmation pinned_zebra sample_files [] (Some [''c'']) False
      3543405 3544405 170190 = (Inr path, d')"
    using attest_match[of pinned_zebra sample_files "[]" "Some [''c'']" False]
    by (simp add: target confirmation_path_def pinned_zebra_simps persist_confirmation_def sample_files_def
        path_join_def)
  from attest_reload[OF sample_files_laws this, where t = "latest_target pinned_zebra False"]
  show ?thesis by (simp add: attested target)
qed

end
