(* ===== verification/Chain_Floor.thy ===== *)
theory Chain_Floor
  imports Activation_Target
begin

text \<open>
  \<open>src/crawl/chain_tip.rs\<close>: the synthetic chain tip whose height fixes the protocol floor.
  The tip's clones share one \<open>watch\<close> channel; its state is the height the channel
  retains, with the number of times it was written, by which a receiver tells an unseen
  change.
\<close>

record seeder_chain_tip =
  ct_activation_height :: height
  ct_watched_height :: height
  ct_sends :: nat

definition new_tip :: "activation_target \<Rightarrow> bool \<Rightarrow> seeder_chain_tip" where
  "new_tip target confirmed =
     (let initial_height =
        (if confirmed then at_activation_height target else at_pre_activation_height target)
      in \<lparr>ct_activation_height = at_activation_height target,
          ct_watched_height = initial_height, ct_sends = 0\<rparr>)"

definition confirm_activation :: "seeder_chain_tip \<Rightarrow> seeder_chain_tip" where
  "confirm_activation self =
     (if ct_watched_height self < ct_activation_height self
      then self\<lparr>ct_watched_height := ct_activation_height self, ct_sends := Suc (ct_sends self)\<rparr>
      else self)"

definition is_activation_confirmed :: "seeder_chain_tip \<Rightarrow> bool" where
  "is_activation_confirmed self \<longleftrightarrow> ct_activation_height self \<le> ct_watched_height self"

text \<open>
  The \<open>ChainTip\<close> trait: only the height is reported. A block hash, a time and a
  transaction id have types of zebra-chain and chrono, left as type variables.
\<close>

definition best_tip_height :: "seeder_chain_tip \<Rightarrow> height option" where
  "best_tip_height self = Some (ct_watched_height self)"

definition best_tip_hash :: "seeder_chain_tip \<Rightarrow> 'hash option" where
  "best_tip_hash self = None"

definition best_tip_height_and_hash :: "seeder_chain_tip \<Rightarrow> (height \<times> 'hash) option" where
  "best_tip_height_and_hash self = None"

definition best_tip_block_time :: "seeder_chain_tip \<Rightarrow> 'time option" where
  "best_tip_block_time self = None"

definition best_tip_height_and_block_time :: "seeder_chain_tip \<Rightarrow> (height \<times> 'time) option" where
  "best_tip_height_and_block_time self = None"

definition best_tip_mined_transaction_ids :: "seeder_chain_tip \<Rightarrow> 'tx list" where
  "best_tip_mined_transaction_ids self = []"

text \<open>
  \<open>best_tip_changed\<close> waits for a height the receiver has not seen. It resolves at once
  when the channel was written since the receiver last looked, and then counts as having
  looked; a receiver is the number of writes it has seen. The channel cannot close while a
  clone exists, since every clone owns the sender; the error branch, taken when \<open>closed\<close> holds
  the text of the receiver's error, puts its own text before it.
\<close>

datatype changed_outcome = StillWaiting | Changed nat | WatchClosed string

definition best_tip_changed :: "string option \<Rightarrow> seeder_chain_tip \<Rightarrow> nat \<Rightarrow> changed_outcome" where
  "best_tip_changed closed self seen =
     (if seen \<noteq> ct_sends self then Changed (ct_sends self)
      else case closed of
        Some error \<Rightarrow> WatchClosed (''activation-height watch unexpectedly closed: '' @ error)
      | None \<Rightarrow> StillWaiting)"

definition mark_best_tip_seen :: "seeder_chain_tip \<Rightarrow> seeder_chain_tip" where
  "mark_best_tip_seen self = self"

section \<open>The protocol floor\<close>

text \<open>
  The floor is the version zebra-network asks for at the tip's height; the served-address
  cache and the start-up code compute it by the same call.
\<close>

definition protocol_floor :: "('net, 'cache) zebra \<Rightarrow> 'net \<Rightarrow> seeder_chain_tip \<Rightarrow> version" where
  "protocol_floor z network tip = zb_min_remote_for_height z network (best_tip_height tip)"

text \<open>
  What the seeder relies on of zebra's tables for one network: the activation height is not
  zero, \<open>previous\<close> gives the height below it, and the minimum version never falls as the
  height grows.
\<close>

definition chain_laws :: "('net, 'cache) zebra \<Rightarrow> 'net \<Rightarrow> bool" where
  "chain_laws z network \<longleftrightarrow>
     (\<forall>h. zb_previous_height z h = (if h = 0 then None else Some (h - 1))) \<and>
     0 < zb_current_activation_height z network (zb_max_height z) \<and>
     (\<forall>h h'. h \<le> h' \<longrightarrow>
        zb_min_remote_for_height z network (Some h) \<le> zb_min_remote_for_height z network (Some h'))"

lemma pinned_chain_laws: "chain_laws pinned_zebra network"
  by (auto simp: chain_laws_def pinned_zebra_def)

definition tip_of_target :: "activation_target \<Rightarrow> seeder_chain_tip \<Rightarrow> bool" where
  "tip_of_target target tip \<longleftrightarrow>
     ct_activation_height tip = at_activation_height target \<and>
     ct_watched_height tip \<in> {at_pre_activation_height target, at_activation_height target}"

lemma tip_of_target_new [simp]: "tip_of_target target (new_tip target confirmed)"
  by (simp add: tip_of_target_def new_tip_def Let_def)

lemma tip_of_target_confirm [simp]: "tip_of_target target tip \<Longrightarrow> tip_of_target target (confirm_activation tip)"
  by (auto simp: tip_of_target_def confirm_activation_def)

lemma confirm_confirms [simp]: "is_activation_confirmed (confirm_activation tip)"
  by (auto simp: is_activation_confirmed_def confirm_activation_def not_less)

lemma confirm_idempotent [simp]: "confirm_activation (confirm_activation tip) = confirm_activation tip"
  by (simp add: confirm_activation_def)

lemma confirm_raises: "ct_watched_height tip \<le> ct_watched_height (confirm_activation tip)"
  by (auto simp: confirm_activation_def)

lemma new_tip_confirmed_iff:
  assumes "chain_laws z network"
  shows "is_activation_confirmed (new_tip (latest_target z network) confirmed) \<longleftrightarrow> confirmed"
proof -
  let ?h = "zb_current_activation_height z network (zb_max_height z)"
  from assms have "zb_previous_height z ?h = Some (?h - 1)" and pos: "0 < ?h"
    by (auto simp: chain_laws_def)
  moreover from pos have "\<not> ?h \<le> ?h - 1"
    using measure_unat[of ?h] by (simp add: word_le_nat_alt word_gt_0)
  ultimately show ?thesis
    by (simp add: is_activation_confirmed_def new_tip_def latest_target_def Let_def)
qed

lemma confirmed_floor:
  assumes "chain_laws z network"
    and "ct_activation_height tip = at_activation_height (latest_target z network)"
    and "is_activation_confirmed tip"
  shows "at_required_version (latest_target z network) \<le> protocol_floor z network tip"
  using assms
  by (simp add: chain_laws_def protocol_floor_def best_tip_height_def is_activation_confirmed_def
      latest_target_def Let_def)

lemma floor_mono:
  assumes "chain_laws z network" "ct_watched_height tip \<le> ct_watched_height tip'"
  shows "protocol_floor z network tip \<le> protocol_floor z network tip'"
  using assms by (simp add: chain_laws_def protocol_floor_def best_tip_height_def)

end
