(* ===== verification/Address_Cache.thy ===== *)
theory Address_Cache
  imports Peer_Servability Chain_Floor
begin

text \<open>
  \<open>src/crawl/address_cache.rs\<close>: the snapshot of servable peers, how it is computed from the
  address book, and the background task that publishes a new one at every refresh. The task
  is a step function on a state that holds the refresh counter and the value the watch
  channel retains. The clock, the generator and the lock are inputs.
\<close>

definition MAX_DNS_RESPONSE_PEERS :: nat where "MAX_DNS_RESPONSE_PEERS = 25"
definition CACHE_REFRESH_INTERVAL :: duration where "CACHE_REFRESH_INTERVAL = from_secs 5"
definition CRAWLER_STATUS_LOG_REFRESHES :: u64 where "CRAWLER_STATUS_LOG_REFRESHES = 120"

section \<open>The snapshot\<close>

record servable_peer_lists =
  sp_ipv4 :: "peer_addr list"
  sp_ipv6 :: "peer_addr list"

definition default_servable_peers :: servable_peer_lists where
  "default_servable_peers = \<lparr>sp_ipv4 = [], sp_ipv6 = []\<rparr>"

definition total :: "servable_peer_lists \<Rightarrow> nat" where
  "total self = length (sp_ipv4 self) + length (sp_ipv6 self)"

section \<open>Computing a snapshot\<close>

text \<open>The four lists and the map of counts that the loop over the address book fills.\<close>

record cache_tally =
  tl_target_ipv4 :: "peer_addr list"
  tl_fallback_ipv4 :: "peer_addr list"
  tl_target_ipv6 :: "peer_addr list"
  tl_fallback_ipv6 :: "peer_addr list"
  tl_unservable :: "unservable_reason \<rightharpoonup> nat"

definition empty_tally :: cache_tally where
  "empty_tally = \<lparr>tl_target_ipv4 = [], tl_fallback_ipv4 = [], tl_target_ipv6 = [],
     tl_fallback_ipv6 = [], tl_unservable = (\<lambda>_. None)\<rparr>"

text \<open>\<open>Option::is_some_and\<close>.\<close>

definition is_some_and :: "('a \<Rightarrow> bool) \<Rightarrow> 'a option \<Rightarrow> bool" where
  "is_some_and p x = (case x of None \<Rightarrow> False | Some a \<Rightarrow> p a)"

definition tally_peer ::
  "('net, 'cache) zebra \<Rightarrow> ('book, 'meta, 'net, 'time) book_api \<Rightarrow> 'book \<Rightarrow> 'time \<Rightarrow> 'net
    \<Rightarrow> version \<Rightarrow> version \<Rightarrow> cache_tally \<Rightarrow> 'meta \<Rightarrow> cache_tally" where
  "tally_peer z api book now network minimum_version target_version t meta =
     (case classify_peer z api book meta now network minimum_version of
        Inr _ \<Rightarrow>
          (let addr = ma_addr api meta;
               is_target_version =
                 is_some_and (\<lambda>version. target_version \<le> version) (ma_negotiated_version api meta)
           in case (is_ipv4 (sa_ip addr), is_target_version) of
                (True, True) \<Rightarrow> t\<lparr>tl_target_ipv4 := tl_target_ipv4 t @ [addr]\<rparr>
              | (True, False) \<Rightarrow> t\<lparr>tl_fallback_ipv4 := tl_fallback_ipv4 t @ [addr]\<rparr>
              | (False, True) \<Rightarrow> t\<lparr>tl_target_ipv6 := tl_target_ipv6 t @ [addr]\<rparr>
              | (False, False) \<Rightarrow> t\<lparr>tl_fallback_ipv6 := tl_fallback_ipv6 t @ [addr]\<rparr>)
      | Inl reason \<Rightarrow>
          t\<lparr>tl_unservable := (tl_unservable t)
              (reason \<mapsto> Suc (case tl_unservable t reason of None \<Rightarrow> 0 | Some n \<Rightarrow> n))\<rparr>)"

definition shuffled_version_preferred_peers ::
  "('r, peer_addr) shuffler \<Rightarrow> 'r \<Rightarrow> peer_addr list \<Rightarrow> peer_addr list \<Rightarrow> peer_addr list \<times> 'r" where
  "shuffled_version_preferred_peers sh r target_version fallback_version =
     (let (target_version, r) = sh r target_version;
          (fallback_version, r) = sh r fallback_version
      in (take MAX_DNS_RESPONSE_PEERS (target_version @ fallback_version), r))"

definition snapshot_gauges :: "string \<Rightarrow> nat \<Rightarrow> cache_tally \<Rightarrow> metric_op list" where
  "snapshot_gauges label known t =
     [GaugeSet PEERS_KNOWN [(LABEL_NETWORK, label)] known,
      GaugeSet PEERS_SERVABLE [(LABEL_NETWORK, label), (LABEL_ADDR_FAMILY, ADDR_FAMILY_IPV4)]
        (length (tl_target_ipv4 t) + length (tl_fallback_ipv4 t)),
      GaugeSet PEERS_SERVABLE [(LABEL_NETWORK, label), (LABEL_ADDR_FAMILY, ADDR_FAMILY_IPV6)]
        (length (tl_target_ipv6 t) + length (tl_fallback_ipv6 t))] @
     map (\<lambda>reason. GaugeSet PEERS_UNSERVABLE [(LABEL_NETWORK, label), (LABEL_REASON, reason_label reason)]
            (case tl_unservable t reason of None \<Rightarrow> 0 | Some n \<Rightarrow> n)) ALL_REASONS"

text \<open>The fields of the crawler status log line.\<close>

record crawler_status =
  cs_total :: nat
  cs_servable_v4 :: nat
  cs_servable_v6 :: nat
  cs_target_version_v4 :: nat
  cs_target_version_v6 :: nat

definition status_of_tally :: "nat \<Rightarrow> cache_tally \<Rightarrow> crawler_status" where
  "status_of_tally known t = \<lparr>
     cs_total = known,
     cs_servable_v4 = length (tl_target_ipv4 t) + length (tl_fallback_ipv4 t),
     cs_servable_v6 = length (tl_target_ipv6 t) + length (tl_fallback_ipv6 t),
     cs_target_version_v4 = length (tl_target_ipv4 t),
     cs_target_version_v6 = length (tl_target_ipv6 t)\<rparr>"

record snapshot_output =
  so_peers :: servable_peer_lists
  so_metrics :: "metric_op list"
  so_status :: "crawler_status option"

definition servable_peers ::
  "('net, 'cache) zebra \<Rightarrow> ('book, 'meta, 'net, 'time) book_api \<Rightarrow> ('r, peer_addr) shuffler \<Rightarrow> 'r
    \<Rightarrow> 'book \<Rightarrow> 'time \<Rightarrow> 'net \<Rightarrow> version \<Rightarrow> version \<Rightarrow> string \<Rightarrow> bool \<Rightarrow> snapshot_output \<times> 'r" where
  "servable_peers z api sh r book now network minimum_version target_version label should_log_status =
     (let t = foldl (tally_peer z api book now network minimum_version target_version)
                empty_tally (ab_peers api book);
          (ipv4, r) = shuffled_version_preferred_peers sh r (tl_target_ipv4 t) (tl_fallback_ipv4 t);
          (ipv6, r) = shuffled_version_preferred_peers sh r (tl_target_ipv6 t) (tl_fallback_ipv6 t)
      in (\<lparr>so_peers = \<lparr>sp_ipv4 = ipv4, sp_ipv6 = ipv6\<rparr>,
           so_metrics = snapshot_gauges label (ab_len api book) t,
           so_status = (if should_log_status then Some (status_of_tally (ab_len api book) t) else None)\<rparr>, r))"

section \<open>The refresh task\<close>

text \<open>
  One step is one pass of the loop of \<open>spawn\<close>, which sleeps for the refresh interval first.
  Its input is what the pass finds: the book behind the lock, whether the lock is poisoned,
  the time, the tip's state and whether a receiver is left. A send with no receiver left
  stores nothing and ends the task.
\<close>

record 'r cache_task =
  ck_refresh_count :: u64
  ck_published :: servable_peer_lists
  ck_rng :: 'r
  ck_running :: bool

record ('book, 'time) refresh_input =
  ri_book :: 'book
  ri_poisoned :: bool
  ri_now :: 'time
  ri_tip :: seeder_chain_tip
  ri_receivers_alive :: bool

definition spawn_cache :: "'r \<Rightarrow> 'r cache_task" where
  "spawn_cache r = \<lparr>ck_refresh_count = 0, ck_published = default_servable_peers, ck_rng = r,
     ck_running = True\<rparr>"

definition refresh_cache ::
  "('net, 'cache) zebra \<Rightarrow> ('book, 'meta, 'net, 'time) book_api \<Rightarrow> ('r, peer_addr) shuffler
    \<Rightarrow> zcash_network \<Rightarrow> version \<Rightarrow> 'r cache_task \<Rightarrow> ('book, 'time) refresh_input
    \<Rightarrow> (metric_op list \<times> crawler_status option) \<times> 'r cache_task" where
  "refresh_cache z api sh network target_version ck i =
     (if \<not> ck_running ck then (([], None), ck)
      else
        let zcash_network = to_zebra z network;
            refresh_count = ck_refresh_count ck + 1;
            should_log_status = (refresh_count mod CRAWLER_STATUS_LOG_REFRESHES = 0);
            minimum_version =
              zb_min_remote_for_height z zcash_network (best_tip_height (ri_tip i));
            poisoning =
              (if ri_poisoned i
               then [CounterIncrement MUTEX_POISONING_TOTAL [(LABEL_NETWORK, network_label network)] 1]
               else []);
            (out, r) = servable_peers z api sh (ck_rng ck) (ri_book i) (ri_now i) zcash_network
                         minimum_version target_version (network_label network) should_log_status;
            ck = ck\<lparr>ck_refresh_count := refresh_count, ck_rng := r\<rparr>
        in ((poisoning @ so_metrics out, so_status out),
            if ri_receivers_alive i then ck\<lparr>ck_published := so_peers out\<rparr>
            else ck\<lparr>ck_running := False\<rparr>))"

section \<open>What the loop over the book collects\<close>

text \<open>
  The tier of a family and of a version class is the addresses of the admitted peers in it,
  in the order of the book; a refused peer is counted under its reason.
\<close>

definition at_target :: "('book, 'meta, 'net, 'time) book_api \<Rightarrow> version \<Rightarrow> 'meta \<Rightarrow> bool" where
  "at_target api target_version m \<longleftrightarrow> (\<exists>v. ma_negotiated_version api m = Some v \<and> target_version \<le> v)"

definition tier ::
  "('net, 'cache) zebra \<Rightarrow> ('book, 'meta, 'net, 'time) book_api \<Rightarrow> 'book \<Rightarrow> 'time \<Rightarrow> 'net \<Rightarrow> version
    \<Rightarrow> version \<Rightarrow> bool \<Rightarrow> bool \<Rightarrow> 'meta list \<Rightarrow> peer_addr list" where
  "tier z api book now network v target family preferred ms =
     map (ma_addr api) (filter (\<lambda>m. classify_peer z api book m now network v = Inr () \<and>
       is_ipv4 (sa_ip (ma_addr api m)) = family \<and> at_target api target m = preferred) ms)"

definition refused ::
  "('net, 'cache) zebra \<Rightarrow> ('book, 'meta, 'net, 'time) book_api \<Rightarrow> 'book \<Rightarrow> 'time \<Rightarrow> 'net \<Rightarrow> version
    \<Rightarrow> 'meta list \<Rightarrow> unservable_reason \<Rightarrow> nat" where
  "refused z api book now network v ms reason =
     length (filter (\<lambda>m. classify_peer z api book m now network v = Inl reason) ms)"

definition unservable_count :: "cache_tally \<Rightarrow> unservable_reason \<Rightarrow> nat" where
  "unservable_count t reason = (case tl_unservable t reason of None \<Rightarrow> 0 | Some n \<Rightarrow> n)"

lemma is_some_and_at_target:
  "is_some_and (\<lambda>version. target \<le> version) (ma_negotiated_version api m) = at_target api target m"
  by (cases "ma_negotiated_version api m") (simp_all add: is_some_and_def at_target_def)

lemma tier_Nil [simp]: "tier z api book now network v target family preferred [] = []"
  by (simp add: tier_def)

lemma tier_Cons [simp]:
  "tier z api book now network v target family preferred (m # ms) =
     (if classify_peer z api book m now network v = Inr () \<and>
         is_ipv4 (sa_ip (ma_addr api m)) = family \<and> at_target api target m = preferred
      then [ma_addr api m] else []) @ tier z api book now network v target family preferred ms"
  by (simp add: tier_def)

lemma refused_Nil [simp]: "refused z api book now network v [] reason = 0"
  by (simp add: refused_def)

lemma refused_Cons [simp]:
  "refused z api book now network v (m # ms) reason =
     (if classify_peer z api book m now network v = Inl reason then 1 else 0) +
     refused z api book now network v ms reason"
  by (simp add: refused_def)

lemma tally_refused:
  assumes "classify_peer z api book m now network v = Inl reason"
  shows "tally_peer z api book now network v target t m =
    t\<lparr>tl_unservable := (tl_unservable t)(reason \<mapsto> Suc (unservable_count t reason))\<rparr>"
  using assms by (simp add: tally_peer_def unservable_count_def)

lemma tally_admitted:
  assumes "classify_peer z api book m now network v = Inr u"
  shows "tally_peer z api book now network v target t m =
    (if is_ipv4 (sa_ip (ma_addr api m)) then
       if at_target api target m then t\<lparr>tl_target_ipv4 := tl_target_ipv4 t @ [ma_addr api m]\<rparr>
       else t\<lparr>tl_fallback_ipv4 := tl_fallback_ipv4 t @ [ma_addr api m]\<rparr>
     else
       if at_target api target m then t\<lparr>tl_target_ipv6 := tl_target_ipv6 t @ [ma_addr api m]\<rparr>
       else t\<lparr>tl_fallback_ipv6 := tl_fallback_ipv6 t @ [ma_addr api m]\<rparr>)"
  using assms by (simp add: tally_peer_def is_some_and_at_target Let_def)

lemma unservable_count_upd [simp]:
  "unservable_count (t\<lparr>tl_unservable := (tl_unservable t)(r \<mapsto> n)\<rparr>) reason =
     (if reason = r then n else unservable_count t reason)"
  "unservable_count (t\<lparr>tl_target_ipv4 := xs\<rparr>) reason = unservable_count t reason"
  "unservable_count (t\<lparr>tl_fallback_ipv4 := xs\<rparr>) reason = unservable_count t reason"
  "unservable_count (t\<lparr>tl_target_ipv6 := xs\<rparr>) reason = unservable_count t reason"
  "unservable_count (t\<lparr>tl_fallback_ipv6 := xs\<rparr>) reason = unservable_count t reason"
  by (simp_all add: unservable_count_def)

text \<open>What the loop adds to a tally, as a relation between the tallies before and after.\<close>

definition adds_tiers ::
  "('net, 'cache) zebra \<Rightarrow> ('book, 'meta, 'net, 'time) book_api \<Rightarrow> 'book \<Rightarrow> 'time \<Rightarrow> 'net \<Rightarrow> version
    \<Rightarrow> version \<Rightarrow> 'meta list \<Rightarrow> cache_tally \<Rightarrow> cache_tally \<Rightarrow> bool" where
  "adds_tiers z api book now network v target ms t t' \<longleftrightarrow>
     tl_target_ipv4 t' = tl_target_ipv4 t @ tier z api book now network v target True True ms \<and>
     tl_fallback_ipv4 t' = tl_fallback_ipv4 t @ tier z api book now network v target True False ms \<and>
     tl_target_ipv6 t' = tl_target_ipv6 t @ tier z api book now network v target False True ms \<and>
     tl_fallback_ipv6 t' = tl_fallback_ipv6 t @ tier z api book now network v target False False ms \<and>
     (\<forall>reason. unservable_count t' reason =
        unservable_count t reason + refused z api book now network v ms reason)"

lemma tally_step_adds:
  "adds_tiers z api book now network v target [m] t (tally_peer z api book now network v target t m)"
proof (cases "classify_peer z api book m now network v")
  case (Inl reason)
  then show ?thesis by (simp add: adds_tiers_def tally_refused)
next
  case (Inr u)
  then show ?thesis by (simp add: adds_tiers_def tally_admitted)
qed

lemma adds_tiers_Cons:
  assumes "adds_tiers z api book now network v target [m] t t'"
    and "adds_tiers z api book now network v target ms t' t''"
  shows "adds_tiers z api book now network v target (m # ms) t t''"
  using assms by (simp add: adds_tiers_def)

lemma tally_loop:
  "adds_tiers z api book now network v target ms t
     (foldl (tally_peer z api book now network v target) t ms)"
proof (induction ms arbitrary: t)
  case Nil
  then show ?case by (simp add: adds_tiers_def)
next
  case (Cons m ms)
  show ?case
    unfolding foldl_Cons by (rule adds_tiers_Cons[OF tally_step_adds Cons.IH])
qed

definition book_tally ::
  "('net, 'cache) zebra \<Rightarrow> ('book, 'meta, 'net, 'time) book_api \<Rightarrow> 'book \<Rightarrow> 'time \<Rightarrow> 'net \<Rightarrow> version
    \<Rightarrow> version \<Rightarrow> cache_tally" where
  "book_tally z api book now network v target =
     foldl (tally_peer z api book now network v target) empty_tally (ab_peers api book)"

lemma book_tally_fields [simp]:
  fixes z api book now network v target
  defines "t \<equiv> book_tally z api book now network v target"
    and "tr \<equiv> \<lambda>f p. tier z api book now network v target f p (ab_peers api book)"
  shows "tl_target_ipv4 t = tr True True" "tl_fallback_ipv4 t = tr True False"
    "tl_target_ipv6 t = tr False True" "tl_fallback_ipv6 t = tr False False"
    "unservable_count t reason = refused z api book now network v (ab_peers api book) reason"
  using tally_loop[of z api book now network v target "ab_peers api book" empty_tally]
  by (simp_all add: adds_tiers_def t_def tr_def book_tally_def)
    (simp_all add: empty_tally_def unservable_count_def)

section \<open>Choosing what is served\<close>

text \<open>
  A selection is some order of the target tier followed by some order of the fallback tier,
  cut at the cap. Every property of the choice follows from that form alone.
\<close>

definition preferred_selection :: "'a list \<Rightarrow> 'a list \<Rightarrow> 'a list \<Rightarrow> bool" where
  "preferred_selection ts fs out \<longleftrightarrow>
     (\<exists>ts' fs'. mset ts' = mset ts \<and> mset fs' = mset fs \<and> out = take MAX_DNS_RESPONSE_PEERS (ts' @ fs'))"

lemma shuffled_is_selection:
  "is_shuffle sh \<Longrightarrow> preferred_selection ts fs (fst (shuffled_version_preferred_peers sh r ts fs))"
  unfolding preferred_selection_def shuffled_version_preferred_peers_def Let_def split_beta
  by (metis fst_conv shuffle_mset)

lemma selection_length:
  "preferred_selection ts fs out \<Longrightarrow> length out = min 25 (length ts + length fs)"
  unfolding preferred_selection_def MAX_DNS_RESPONSE_PEERS_def
  by (metis length_append length_take min.commute mset_eq_length)

lemma selection_subset: "preferred_selection ts fs out \<Longrightarrow> set out \<subseteq> set ts \<union> set fs"
  unfolding preferred_selection_def by (metis mset_eq_setD set_append set_take_subset)

lemma selection_distinct:
  "preferred_selection ts fs out \<Longrightarrow> distinct (ts @ fs) \<Longrightarrow> distinct out"
  unfolding preferred_selection_def
  by (metis distinct_take mset_append mset_eq_imp_distinct_iff)

lemma selection_map: "preferred_selection ts fs out \<Longrightarrow> preferred_selection (map f ts) (map f fs) (map f out)"
  unfolding preferred_selection_def by (metis map_append mset_map take_map)

lemma selection_prefers_target:
  assumes "preferred_selection ts fs out" "x \<in> set out" "x \<notin> set ts"
  shows "set ts \<subseteq> set out"
proof -
  from assms(1) obtain ts' fs' where "mset ts' = mset ts"
    and out: "out = take MAX_DNS_RESPONSE_PEERS ts' @ take (MAX_DNS_RESPONSE_PEERS - length ts') fs'"
    by (auto simp: preferred_selection_def)
  then have set: "set ts' = set ts" by (metis mset_eq_setD)
  with assms(2,3) out have "MAX_DNS_RESPONSE_PEERS - length ts' \<noteq> 0"
    by (auto dest: in_set_takeD)
  then have "set ts' \<subseteq> set out" by (simp add: out)
  with set show ?thesis by simp
qed

definition served_from ::
  "('net, 'cache) zebra \<Rightarrow> ('book, 'meta, 'net, 'time) book_api \<Rightarrow> 'book \<Rightarrow> 'time \<Rightarrow> 'net \<Rightarrow> version
    \<Rightarrow> version \<Rightarrow> servable_peer_lists \<Rightarrow> bool" where
  "served_from z api book now network v target p \<longleftrightarrow>
     (let tr = (\<lambda>f q. tier z api book now network v target f q (ab_peers api book)) in
      preferred_selection (tr True True) (tr True False) (sp_ipv4 p) \<and>
      preferred_selection (tr False True) (tr False False) (sp_ipv6 p))"

lemma servable_peers_metrics:
  "so_metrics (fst (servable_peers z api sh r book now network v target label log)) =
     snapshot_gauges label (ab_len api book) (book_tally z api book now network v target)"
  by (simp add: servable_peers_def Let_def split_beta book_tally_def)

lemma servable_peers_served_from:
  assumes "is_shuffle sh"
  shows "served_from z api book now network v target
    (so_peers (fst (servable_peers z api sh r book now network v target label log)))"
  using shuffled_is_selection[OF assms]
  by (simp add: servable_peers_def served_from_def Let_def split_beta flip: book_tally_def)

lemma set_tier:
  "a \<in> set (tier z api book now network v target family preferred ms) \<longleftrightarrow>
     (\<exists>m \<in> set ms. a = ma_addr api m \<and> classify_peer z api book m now network v = Inr () \<and>
        is_ipv4 (sa_ip a) = family \<and> at_target api target m = preferred)"
  by (auto simp: tier_def)

text \<open>The admitted peers of one family, in the order of the book.\<close>

definition admitted_of_family ::
  "('net, 'cache) zebra \<Rightarrow> ('book, 'meta, 'net, 'time) book_api \<Rightarrow> 'book \<Rightarrow> 'time \<Rightarrow> 'net \<Rightarrow> version
    \<Rightarrow> bool \<Rightarrow> 'meta list" where
  "admitted_of_family z api book now network v family =
     filter (\<lambda>m. classify_peer z api book m now network v = Inr () \<and>
       is_ipv4 (sa_ip (ma_addr api m)) = family) (ab_peers api book)"

lemma tiers_mset:
  "mset (tier z api book now network v target f True (ab_peers api book)) +
   mset (tier z api book now network v target f False (ab_peers api book)) =
   mset (map (ma_addr api) (admitted_of_family z api book now network v f))"
proof -
  have "mset (tier z api book now network v target f True ms) +
    mset (tier z api book now network v target f False ms) =
    mset (map (ma_addr api) (filter (\<lambda>m. classify_peer z api book m now network v = Inr () \<and>
       is_ipv4 (sa_ip (ma_addr api m)) = f) ms))" for ms
    by (induction ms) auto
  then show ?thesis by (simp add: admitted_of_family_def)
qed

lemma tiers_length:
  "length (tier z api book now network v target f True (ab_peers api book)) +
   length (tier z api book now network v target f False (ab_peers api book)) =
   length (admitted_of_family z api book now network v f)"
  using arg_cong[OF tiers_mset, of size z api book now network v target f] by simp

lemma refused_partition:
  "(\<Sum>reason \<leftarrow> ALL_REASONS. refused z api book now network v ms reason) +
   length (filter (\<lambda>m. classify_peer z api book m now network v = Inr ()) ms) = length ms"
proof (induction ms)
  case (Cons m ms)
  have one: "(\<Sum>reason \<leftarrow> ALL_REASONS. if reason = x then 1 else 0) = (1 :: nat)" for x
    by (cases x) (simp_all add: ALL_REASONS_def)
  show ?case
  proof (cases "classify_peer z api book m now network v")
    case (Inl x)
    with Cons one[of x] show ?thesis by (simp add: sum_list_addf eq_commute[of x])
  qed (use Cons in simp)
qed (simp add: refused_def)

section \<open>The contract of a snapshot\<close>

text \<open>
  The DNS handler and the health endpoint read the snapshot that the watch channel retains.
  Whatever holds such a snapshot keeps this invariant: each list has one address family and
  at most 25 addresses. The number is that of \<open>docs/architecture.md\<close>, written out,
  so that the lemma \<open>selection_length\<close> has to show that \<open>MAX_DNS_RESPONSE_PEERS\<close> keeps it.
\<close>

definition snapshot_ok :: "servable_peer_lists \<Rightarrow> bool" where
  "snapshot_ok p \<longleftrightarrow>
     list_all (\<lambda>a. is_ipv4 (sa_ip a)) (sp_ipv4 p) \<and> length (sp_ipv4 p) \<le> 25 \<and>
     list_all (\<lambda>a. \<not> is_ipv4 (sa_ip a)) (sp_ipv6 p) \<and> length (sp_ipv6 p) \<le> 25"

locale snapshot_holder =
  fixes held :: "'s \<Rightarrow> servable_peer_lists"
    and inv :: "'s \<Rightarrow> bool"
  assumes held_ok: "inv s \<Longrightarrow> snapshot_ok (held s)"
begin

lemma total_le: "inv s \<Longrightarrow> total (held s) \<le> 50"
  using held_ok[of s] by (simp add: snapshot_ok_def total_def)

lemma families_disjoint: "inv s \<Longrightarrow> set (sp_ipv4 (held s)) \<inter> set (sp_ipv6 (held s)) = {}"
  using held_ok[of s] by (auto simp: snapshot_ok_def list_all_iff)

end

lemma served_from_ok:
  assumes "served_from z api book now network v target p"
  shows "snapshot_ok p"
proof -
  let ?tr = "\<lambda>f q. tier z api book now network v target f q (ab_peers api book)"
  from assms have 4: "preferred_selection (?tr True True) (?tr True False) (sp_ipv4 p)"
    and 6: "preferred_selection (?tr False True) (?tr False False) (sp_ipv6 p)"
    by (simp_all add: served_from_def Let_def)
  from selection_subset[OF 4] have "list_all (\<lambda>a. is_ipv4 (sa_ip a)) (sp_ipv4 p)"
    by (auto simp: list_all_iff set_tier subset_iff)
  moreover from selection_subset[OF 6] have "list_all (\<lambda>a. \<not> is_ipv4 (sa_ip a)) (sp_ipv6 p)"
    by (auto simp: list_all_iff set_tier subset_iff)
  ultimately show ?thesis
    using selection_length[OF 4] selection_length[OF 6] by (simp add: snapshot_ok_def)
qed

text \<open>How many addresses a snapshot of a book has.\<close>

lemma served_from_lengths:
  assumes "served_from z api book now network v target p"
  shows "length (sp_ipv4 p) = min 25 (length (admitted_of_family z api book now network v True))"
    "length (sp_ipv6 p) = min 25 (length (admitted_of_family z api book now network v False))"
  using assms by (auto simp: served_from_def Let_def selection_length simp flip: tiers_length[of _ _ _ _ _ _ target])

lemma served_from_total:
  assumes "served_from z api book now network v target p"
  shows "total p = min 25 (length (admitted_of_family z api book now network v True)) +
    min 25 (length (admitted_of_family z api book now network v False))"
  by (simp add: total_def served_from_lengths[OF assms])

lemma default_snapshot_ok [simp]: "snapshot_ok default_servable_peers"
  by (simp add: snapshot_ok_def default_servable_peers_def)

text \<open>
  What a refresh leaves in the channel: nothing new when the task has stopped or no receiver
  is left, and otherwise a snapshot served from the book at the tip's floor.
\<close>

lemma refresh_published:
  assumes "is_shuffle sh"
  shows "let ck' = snd (refresh_cache z api sh network target ck i) in
    if ck_running ck \<and> ri_receivers_alive i
    then served_from z api (ri_book i) (ri_now i) (to_zebra z network)
      (protocol_floor z (to_zebra z network) (ri_tip i)) target (ck_published ck')
    else ck_published ck' = ck_published ck"
  by (simp add: refresh_cache_def Let_def split_beta protocol_floor_def
      servable_peers_served_from[OF assms])

definition cache_ok :: "'r cache_task \<Rightarrow> bool" where
  "cache_ok ck \<longleftrightarrow> snapshot_ok (ck_published ck)"

lemma refresh_cache_ok:
  assumes "is_shuffle sh" "cache_ok ck"
  shows "cache_ok (snd (refresh_cache z api sh network target ck i))"
  using refresh_published[OF assms(1), of z api network target ck i] assms(2)
  by (auto simp: cache_ok_def Let_def served_from_ok split: if_splits)

interpretation cache: safe_machine
  "\<lambda>ck i. snd (refresh_cache z api sh network target ck i)" "\<lambda>_. is_shuffle sh" cache_ok
  for z :: "('net, 'cache) zebra" and api :: "('book, 'meta, 'net, 'time) book_api"
    and sh :: "('r, peer_addr) shuffler" and network target
  by unfold_locales (rule refresh_cache_ok)

interpretation cache_snapshot: snapshot_holder ck_published cache_ok
  by unfold_locales (simp add: cache_ok_def)

text \<open>A reader of the channel holds the snapshot itself.\<close>

interpretation plain_snapshot: snapshot_holder "\<lambda>p. p" snapshot_ok
  by unfold_locales

section \<open>Gauges\<close>

lemma snapshot_gauges_values:
  "gauge_value PEERS_KNOWN [(LABEL_NETWORK, l)] (snapshot_gauges l known t) = Some known"
  "gauge_value PEERS_SERVABLE [(LABEL_NETWORK, l), (LABEL_ADDR_FAMILY, ADDR_FAMILY_IPV4)]
     (snapshot_gauges l known t) = Some (length (tl_target_ipv4 t) + length (tl_fallback_ipv4 t))"
  "gauge_value PEERS_SERVABLE [(LABEL_NETWORK, l), (LABEL_ADDR_FAMILY, ADDR_FAMILY_IPV6)]
     (snapshot_gauges l known t) = Some (length (tl_target_ipv6 t) + length (tl_fallback_ipv6 t))"
  by (simp_all add: snapshot_gauges_def ALL_REASONS_def metric_name_defs metric_label_defs)

lemma snapshot_gauges_unservable:
  "gauge_value PEERS_UNSERVABLE [(LABEL_NETWORK, l), (LABEL_REASON, reason_label reason)]
     (snapshot_gauges l known t) = Some (unservable_count t reason)"
  by (cases reason)
    (simp_all add: snapshot_gauges_def ALL_REASONS_def metric_name_defs metric_label_defs
      unservable_count_def)

section \<open>Properties\<close>

lemma served_from_lists:
  assumes "served_from z api book now network v target p"
  shows "a \<in> set (sp_ipv4 p) \<Longrightarrow>
      \<exists>m \<in> set (ab_peers api book). a = ma_addr api m \<and> is_ipv4 (sa_ip a) \<and>
        servable (peer_attributes_of z api book m now network v)"
    and "a \<in> set (sp_ipv6 p) \<Longrightarrow>
      \<exists>m \<in> set (ab_peers api book). a = ma_addr api m \<and> \<not> is_ipv4 (sa_ip a) \<and>
        servable (peer_attributes_of z api book m now network v)"
  using assms
  by (auto simp: served_from_def Let_def set_tier classify_peer_servable
      dest!: selection_subset subsetD)

text \<open>C27: Whatever the address book, clock and shuffles, each address of a computed snapshot
  belongs to a peer of the book that meets every serving condition at the given floor and has
  the address family of its list, and each list is as long as the cap of 25 allows: exactly
  \<open>min 25 n\<close> when \<open>n\<close> peers of that family are admitted.\<close>

theorem snapshot_serves_admitted:
  assumes "is_shuffle sh"
  shows "let p = so_peers (fst (servable_peers z api sh r book now network v target label log)) in
    (\<forall>a \<in> set (sp_ipv4 p). \<exists>m \<in> set (ab_peers api book). a = ma_addr api m \<and> is_ipv4 (sa_ip a) \<and>
       servable (peer_attributes_of z api book m now network v)) \<and>
    (\<forall>a \<in> set (sp_ipv6 p). \<exists>m \<in> set (ab_peers api book). a = ma_addr api m \<and> \<not> is_ipv4 (sa_ip a) \<and>
       servable (peer_attributes_of z api book m now network v)) \<and>
    length (sp_ipv4 p) = min 25 (length (admitted_of_family z api book now network v True)) \<and>
    length (sp_ipv6 p) = min 25 (length (admitted_of_family z api book now network v False))"
proof -
  let ?p = "so_peers (fst (servable_peers z api sh r book now network v target label log))"
  have served: "served_from z api book now network v target ?p"
    by (rule servable_peers_served_from[OF assms])
  from served_from_lists[OF served] served_from_lengths[OF served] show ?thesis by (simp add: Let_def)
qed

theorem snapshot_serves_admitted_witness:
  "length (sp_ipv4 (so_peers (fst (servable_peers pinned_zebra sample_book_api rotating_shuffle 0
     sample_book 0 False 170160 170190 ''mainnet'' False)))) = 2"
proof -
  have "length (admitted_of_family pinned_zebra sample_book_api sample_book 0 False 170160 True) = 2"
    by (simp add: admitted_of_family_def sample_book_defs)
  with snapshot_serves_admitted[OF is_shuffle_rotating,
      of pinned_zebra sample_book_api 0 sample_book 0 False 170160 170190 "''mainnet''" False]
  show ?thesis by (simp add: Let_def)
qed

text \<open>C12: Peers at the compiled target version are served before peers at the previous floor:
  an address of an admitted peer below the target version is in a snapshot only if every
  admitted peer of that family at the target version is in it too.\<close>

theorem snapshot_prefers_target:
  assumes "is_shuffle sh"
    and "p = so_peers (fst (servable_peers z api sh r book now network v target label log))"
    and "a \<in> set (sp_ipv4 p @ sp_ipv6 p)"
    and "\<forall>m \<in> set (ab_peers api book). ma_addr api m = a \<longrightarrow> \<not> at_target api target m"
    and "m' \<in> set (ab_peers api book)" "at_target api target m'"
    and "servable (peer_attributes_of z api book m' now network v)"
    and "is_ipv4 (sa_ip (ma_addr api m')) = is_ipv4 (sa_ip a)"
  shows "ma_addr api m' \<in> set (sp_ipv4 p @ sp_ipv6 p)"
proof -
  let ?tr = "\<lambda>f q. tier z api book now network v target f q (ab_peers api book)"
  have served: "served_from z api book now network v target p"
    using servable_peers_served_from[OF assms(1)] assms(2) by simp
  have m': "ma_addr api m' \<in> set (?tr (is_ipv4 (sa_ip a)) True)"
    using assms(5-8) by (auto simp: set_tier classify_peer_servable)
  have a: "a \<notin> set (?tr f True)" for f using assms(4) by (auto simp: set_tier)
  have sel: "preferred_selection (?tr True True) (?tr True False) (sp_ipv4 p)"
    "preferred_selection (?tr False True) (?tr False False) (sp_ipv6 p)"
    using served by (simp_all add: served_from_def Let_def)
  show ?thesis
  proof (cases "a \<in> set (sp_ipv4 p)")
    case True
    with served_from_lists(1)[OF served] have "is_ipv4 (sa_ip a)" by blast
    with selection_prefers_target[OF sel(1) True a] m' show ?thesis by auto
  next
    case False
    with assms(3) have in6: "a \<in> set (sp_ipv6 p)" by simp
    with served_from_lists(2)[OF served] have "\<not> is_ipv4 (sa_ip a)" by blast
    with selection_prefers_target[OF sel(2) in6 a] m' show ?thesis by auto
  qed
qed

definition sample_snapshot :: servable_peer_lists where
  "sample_snapshot = so_peers (fst (servable_peers pinned_zebra sample_book_api rotating_shuffle 0
     sample_book 0 False 170160 170190 ''mainnet'' False))"

lemma sample_tally:
  "foldl (tally_peer pinned_zebra sample_book_api sample_book 0 False 170160 170190) empty_tally sample_book =
     \<lparr>tl_target_ipv4 = [mk_addr (V4 (Ipv4Addr 9 2 3 1)) 8233],
      tl_fallback_ipv4 = [mk_addr (V4 (Ipv4Addr 9 2 3 2)) 8233],
      tl_target_ipv6 = [mk_addr (V6 (Ipv6Addr 0x2001 1 2 3 4 5 6 7)) 8233],
      tl_fallback_ipv6 = [], tl_unservable = [OutdatedVersion \<mapsto> 1]\<rparr>"
  by (simp add: tally_peer_def sample_book_defs empty_tally_def is_some_and_def Let_def)

lemma sample_snapshot_eval:
  "sample_snapshot = \<lparr>sp_ipv4 = [mk_addr (V4 (Ipv4Addr 9 2 3 1)) 8233, mk_addr (V4 (Ipv4Addr 9 2 3 2)) 8233],
     sp_ipv6 = [mk_addr (V6 (Ipv6Addr 0x2001 1 2 3 4 5 6 7)) 8233]\<rparr>"
proof -
  have "ab_peers sample_book_api sample_book = sample_book" by (simp add: sample_book_api_def)
  then show ?thesis
    by (simp add: sample_snapshot_def servable_peers_def sample_tally shuffled_version_preferred_peers_def
        rotating_shuffle_def MAX_DNS_RESPONSE_PEERS_def)
qed

theorem snapshot_prefers_target_witness:
  "ma_addr sample_book_api (sample_peer 1 170190) \<in> set (sp_ipv4 sample_snapshot @ sp_ipv6 sample_snapshot)"
proof -
  have "servable (peer_attributes_of pinned_zebra sample_book_api sample_book
      (sample_peer 1 170190) 0 False 170160)"
    by (simp add: servable_unfold routable_def sample_book_defs)
  moreover have "mk_addr (V4 (Ipv4Addr 9 2 3 2)) 8233 \<in> set (sp_ipv4 sample_snapshot @ sp_ipv6 sample_snapshot)"
    by (simp add: sample_snapshot_eval)
  moreover have "\<forall>m \<in> set (ab_peers sample_book_api sample_book).
      ma_addr sample_book_api m = mk_addr (V4 (Ipv4Addr 9 2 3 2)) 8233 \<longrightarrow>
      \<not> at_target sample_book_api 170190 m"
    by (simp add: sample_book_defs at_target_def)
  ultimately show ?thesis
    by (intro snapshot_prefers_target[OF is_shuffle_rotating sample_snapshot_def,
          where a = "mk_addr (V4 (Ipv4Addr 9 2 3 2)) 8233"])
      (simp_all add: sample_book_defs at_target_def)
qed

text \<open>C35: The gauges published with a snapshot account for every peer of the book: each
  per-reason gauge is the number of peers refused for that reason, the two servable gauges are
  the admitted peers of the two families whether or not the cap serves them, and together they
  add up to the number of peers.\<close>

theorem snapshot_gauges_account:
  "let ops = so_metrics (fst (servable_peers z api sh r book now network v target label log));
       refusals = refused z api book now network v (ab_peers api book);
       admitted = (\<lambda>f. length (admitted_of_family z api book now network v f))
   in gauge_value PEERS_KNOWN [(LABEL_NETWORK, label)] ops = Some (ab_len api book) \<and>
      gauge_value PEERS_SERVABLE [(LABEL_NETWORK, label), (LABEL_ADDR_FAMILY, ADDR_FAMILY_IPV4)] ops =
        Some (admitted True) \<and>
      gauge_value PEERS_SERVABLE [(LABEL_NETWORK, label), (LABEL_ADDR_FAMILY, ADDR_FAMILY_IPV6)] ops =
        Some (admitted False) \<and>
      (\<forall>reason. gauge_value PEERS_UNSERVABLE [(LABEL_NETWORK, label), (LABEL_REASON, reason_label reason)] ops =
        Some (refusals reason)) \<and>
      (\<Sum>reason \<leftarrow> ALL_REASONS. refusals reason) + admitted True + admitted False =
        length (ab_peers api book)"
proof -
  let ?ok = "\<lambda>m. classify_peer z api book m now network v = Inr ()"
  have "length (filter ?ok ms) = length (filter (\<lambda>m. ?ok m \<and> is_ipv4 (sa_ip (ma_addr api m)) = True) ms) +
      length (filter (\<lambda>m. ?ok m \<and> is_ipv4 (sa_ip (ma_addr api m)) = False) ms)" for ms
    by (induction ms) auto
  from this[of "ab_peers api book"] refused_partition[of z api book now network v "ab_peers api book"]
  have "(\<Sum>reason \<leftarrow> ALL_REASONS. refused z api book now network v (ab_peers api book) reason) +
      length (admitted_of_family z api book now network v True) +
      length (admitted_of_family z api book now network v False) = length (ab_peers api book)"
    by (simp add: admitted_of_family_def)
  then show ?thesis
    by (simp add: Let_def servable_peers_metrics snapshot_gauges_values snapshot_gauges_unservable tiers_length)
qed

text \<open>C29: DNS answers drop the port, yet no IP address is served twice: when the book holds
  its peers under distinct socket addresses, the IP addresses of each list of a snapshot are
  distinct and routable, because every admitted peer listens on the network's default port.\<close>

theorem snapshot_ips_distinct:
  assumes "is_shuffle sh" and "distinct (map (ma_addr api) (ab_peers api book))"
  shows "let p = so_peers (fst (servable_peers z api sh r book now network v target label log)) in
    distinct (map sa_ip (sp_ipv4 p)) \<and> distinct (map sa_ip (sp_ipv6 p)) \<and>
    (\<forall>a \<in> set (sp_ipv4 p @ sp_ipv6 p). routable (sa_ip a))"
proof -
  let ?p = "so_peers (fst (servable_peers z api sh r book now network v target label log))"
  let ?tr = "\<lambda>f q. tier z api book now network v target f q (ab_peers api book)"
  let ?adm = "\<lambda>f. map (ma_addr api) (admitted_of_family z api book now network v f)"
  have served: "served_from z api book now network v target ?p"
    by (rule servable_peers_served_from[OF assms(1)])
  have "distinct (map sa_ip (?tr f True) @ map sa_ip (?tr f False))" for f
  proof -
    have "distinct (map (sa_ip \<circ> ma_addr api) (admitted_of_family z api book now network v f))"
    proof -
      have "admitted_of_family z api book now network v f =
          filter (\<lambda>m. classify_peer z api book m now network v = Inr ())
            (filter (\<lambda>m. is_ipv4 (sa_ip (ma_addr api m)) = f) (ab_peers api book))"
        by (simp add: admitted_of_family_def conj_commute)
      then show ?thesis
        using servability.admitted_ips_distinct[OF distinct_map_filter[OF assms(2)]] by simp
    qed
    moreover have "mset (map sa_ip (?tr f True) @ map sa_ip (?tr f False)) =
        mset (map (sa_ip \<circ> ma_addr api) (admitted_of_family z api book now network v f))"
      using arg_cong[OF tiers_mset, of "image_mset sa_ip" z api book now network v target f]
      by (simp add: image_mset.compositionality)
    ultimately show ?thesis by (metis mset_eq_imp_distinct_iff)
  qed
  with served have "distinct (map sa_ip (sp_ipv4 ?p))" "distinct (map sa_ip (sp_ipv6 ?p))"
    by (auto simp: served_from_def Let_def intro: selection_distinct[OF selection_map])
  moreover have "\<forall>a \<in> set (sp_ipv4 ?p @ sp_ipv6 ?p). routable (sa_ip a)"
  proof
    fix a assume "a \<in> set (sp_ipv4 ?p @ sp_ipv6 ?p)"
    then obtain m where "a = ma_addr api m" "servable (peer_attributes_of z api book m now network v)"
      using served_from_lists[OF served, of a] by auto
    then show "routable (sa_ip a)" by (simp add: servable_unfold peer_attributes_of_def Let_def)
  qed
  ultimately show ?thesis by (simp add: Let_def)
qed

theorem snapshot_ips_distinct_witness:
  "distinct (map sa_ip (sp_ipv4 (so_peers (fst (servable_peers pinned_zebra sample_book_api
     rotating_shuffle 7 sample_book 0 False 170160 170190 ''mainnet'' False)))))"
proof -
  have "distinct (map (ma_addr sample_book_api) (ab_peers sample_book_api sample_book))"
    by (simp add: sample_book_defs)
  from snapshot_ips_distinct[OF is_shuffle_rotating this,
      of pinned_zebra 7 0 False 170160 170190 "''mainnet''" False] show ?thesis by (simp add: Let_def)
qed

text \<open>Once the tip is confirmed, the next refresh that still has a receiver publishes only
  peers whose negotiated version is at the newest activation's required version or above,
  whatever was served before.\<close>

theorem refresh_after_confirmation:
  assumes "is_shuffle sh" and "chain_laws z (to_zebra z network)"
    and "ck_running ck" "ri_receivers_alive i"
    and "ct_activation_height (ri_tip i) = at_activation_height (latest_target z (to_zebra z network))"
    and "is_activation_confirmed (ri_tip i)"
  shows "let p = ck_published (snd (refresh_cache z api sh network target ck i)) in
    \<forall>a \<in> set (sp_ipv4 p @ sp_ipv6 p). \<exists>m \<in> set (ab_peers api (ri_book i)). a = ma_addr api m \<and>
      at_target api (at_required_version (latest_target z (to_zebra z network))) m"
proof -
  let ?p = "ck_published (snd (refresh_cache z api sh network target ck i))"
  let ?floor = "protocol_floor z (to_zebra z network) (ri_tip i)"
  have served: "served_from z api (ri_book i) (ri_now i) (to_zebra z network) ?floor target ?p"
    using refresh_published[OF assms(1), of z api network target ck i] assms(3,4) by (simp add: Let_def)
  have floor: "at_required_version (latest_target z (to_zebra z network)) \<le> ?floor"
    by (rule confirmed_floor) (use assms in auto)
  have "\<exists>m \<in> set (ab_peers api (ri_book i)). a = ma_addr api m \<and>
      at_target api (at_required_version (latest_target z (to_zebra z network))) m"
    if "a \<in> set (sp_ipv4 ?p @ sp_ipv6 ?p)" for a
  proof -
    from that obtain m where m: "m \<in> set (ab_peers api (ri_book i))" "a = ma_addr api m"
      and "servable (peer_attributes_of z api (ri_book i) m (ri_now i) (to_zebra z network) ?floor)"
      using served_from_lists[OF served, of a] by auto
    then have "at_target api ?floor m"
      by (simp add: servable_unfold peer_attributes_of_def at_target_def Let_def)
    with m floor show ?thesis by (auto simp: at_target_def intro: order_trans)
  qed
  then show ?thesis by (simp add: Let_def)
qed

definition sample_refresh_input :: "(sample_meta list, nat) refresh_input" where
  "sample_refresh_input = \<lparr>ri_book = sample_book, ri_poisoned = False, ri_now = 0,
     ri_tip = new_tip (latest_target pinned_zebra False) True, ri_receivers_alive = True\<rparr>"

theorem refresh_after_confirmation_witness:
  "ma_addr sample_book_api (sample_peer 2 170160) \<notin>
     set (sp_ipv4 (ck_published (snd (refresh_cache pinned_zebra sample_book_api rotating_shuffle
       Mainnet 170190 (spawn_cache 0) sample_refresh_input))))"
proof -
  have "ck_running (spawn_cache (0 :: nat))" "ri_receivers_alive sample_refresh_input"
    "ct_activation_height (ri_tip sample_refresh_input) =
      at_activation_height (latest_target pinned_zebra (to_zebra pinned_zebra Mainnet))"
    "is_activation_confirmed (ri_tip sample_refresh_input)"
    by (simp_all add: spawn_cache_def sample_refresh_input_def new_tip_def pinned_zebra_simps
        is_activation_confirmed_def)
  note served = refresh_after_confirmation[OF is_shuffle_rotating pinned_chain_laws this,
      of sample_book_api 170190]
  have "at_required_version (latest_target pinned_zebra (to_zebra pinned_zebra Mainnet)) = 170190"
    by (simp add: latest_target_def pinned_zebra_def)
  moreover have "\<not> at_target sample_book_api 170190 m"
    if "m \<in> set (ab_peers sample_book_api (ri_book sample_refresh_input))"
      "ma_addr sample_book_api m = ma_addr sample_book_api (sample_peer 2 170160)" for m
    using that by (auto simp: sample_refresh_input_def sample_book_defs at_target_def)
  ultimately show ?thesis
    using served unfolding Let_def by (metis Un_iff set_append)
qed

text \<open>Over any number of refreshes with any inputs, from the empty snapshot the task starts
  with, what the channel retains has at most 25 addresses per list, only IPv4 addresses in
  one and only IPv6 addresses in the other.\<close>

theorem cache_runs_ok:
  assumes "is_shuffle sh"
  shows "snapshot_ok (ck_published
    (foldl (\<lambda>ck i. snd (refresh_cache z api sh network target ck i)) (spawn_cache r) is))"
proof -
  have "cache_ok (spawn_cache r)" by (simp add: cache_ok_def spawn_cache_def)
  with assms show ?thesis
    using cache.run_inv[of "spawn_cache r" sh "is" z api network target]
    by (simp add: cache_ok_def list_all_iff)
qed

theorem cache_runs_ok_witness:
  "snapshot_ok (ck_published (foldl (\<lambda>ck i. snd (refresh_cache pinned_zebra sample_book_api
     rotating_shuffle Mainnet 170190 ck i)) (spawn_cache 0) [sample_refresh_input, sample_refresh_input]))"
  by (rule cache_runs_ok[OF is_shuffle_rotating])

end

