(* ===== verification/Zone_Records.thy ===== *)
theory Zone_Records
  imports Address_Cache
begin

text \<open>
  The zone half of \<open>src/dns/request_handler.rs\<close>: a served zone with its static records,
  built from the configured texts, and the answer it gives to a name and a record type. The
  zone reads its network's peers through a feed, the receiver of the cache's watch channel;
  what the receiver borrows is an argument of the operation that reads it.
\<close>

definition SOA_SERIAL :: u32 where "SOA_SERIAL = 1"
definition SOA_REFRESH_SECONDS :: "32 word" where "SOA_REFRESH_SECONDS = 3600"
definition SOA_RETRY_SECONDS :: "32 word" where "SOA_RETRY_SECONDS = 600"
definition SOA_EXPIRE_SECONDS :: "32 word" where "SOA_EXPIRE_SECONDS = 86400"

section \<open>Records\<close>

text \<open>The record types and record data of hickory-proto that the code constructs.\<close>

datatype record_type = RecordA | RecordAAAA | RecordNS | RecordSOA | RecordOther u16

record 'n soa_data =
  soa_mname :: 'n
  soa_rname :: 'n
  soa_serial :: u32
  soa_refresh :: "32 word"
  soa_retry :: "32 word"
  soa_expire :: "32 word"
  soa_minimum :: u32

datatype 'n rdata = A ipv4_addr | AAAA ipv6_addr | NS 'n | SOA "'n soa_data"

record 'n dns_record =
  dr_name :: 'n
  dr_ttl :: u32
  dr_data :: "'n rdata"

definition from_rdata :: "'n \<Rightarrow> u32 \<Rightarrow> 'n rdata \<Rightarrow> 'n dns_record" where
  "from_rdata name ttl data = \<lparr>dr_name = name, dr_ttl = ttl, dr_data = data\<rparr>"

fun data_type :: "'n rdata \<Rightarrow> record_type" where
  "data_type (A _) = RecordA"
| "data_type (AAAA _) = RecordAAAA"
| "data_type (NS _) = RecordNS"
| "data_type (SOA _) = RecordSOA"

section \<open>Building a zone\<close>

datatype zone_error =
    InvalidName string string
  | NameserverInsideDomain
  | RepeatedNameserver string
  | NoPrimaryNameserver
  | InvalidMailbox string

definition parse_absolute_name :: "('n, 'l) hickory \<Rightarrow> string \<Rightarrow> string \<Rightarrow> zone_error + 'n" where
  "parse_absolute_name h field name_text =
     bind_result (ok_or (InvalidName field name_text) (hk_from_ascii h name_text))
       (\<lambda>name. Inr (hk_set_fqdn h name))"

record 'n zone_records =
  zr_soa :: "'n dns_record"
  zr_nameservers :: "'n dns_record list"

definition first :: "'a list \<Rightarrow> 'a option" where
  "first xs = (case xs of [] \<Rightarrow> None | x # _ \<Rightarrow> Some x)"

definition new_zone_records ::
  "('n, 'l) hickory \<Rightarrow> 'n \<Rightarrow> 'n list \<Rightarrow> u32 \<Rightarrow> zone_error + 'n zone_records" where
  "new_zone_records h seed_domain nameserver_names dns_ttl =
     bind_result (ok_or NoPrimaryNameserver (first nameserver_names)) (\<lambda>primary_nameserver.
     let seed_domain_ascii = hk_to_ascii h seed_domain in
     bind_result
       (ok_or (InvalidMailbox seed_domain_ascii)
          (hk_from_ascii h (''hostmaster.'' @ seed_domain_ascii))) (\<lambda>responsible_mailbox.
     let soa = \<lparr>soa_mname = primary_nameserver, soa_rname = responsible_mailbox,
                soa_serial = SOA_SERIAL, soa_refresh = SOA_REFRESH_SECONDS,
                soa_retry = SOA_RETRY_SECONDS, soa_expire = SOA_EXPIRE_SECONDS,
                soa_minimum = dns_ttl\<rparr>
     in Inr \<lparr>zr_soa = from_rdata seed_domain dns_ttl (SOA soa),
             zr_nameservers =
               map (\<lambda>nameserver. from_rdata seed_domain dns_ttl (NS nameserver)) nameserver_names\<rparr>))"

record ('n, 'l, 'feed) seed_zone =
  sz_network :: zcash_network
  sz_domain :: 'l
  sz_records :: "'n zone_records"
  sz_ttl :: u32
  sz_servable_peers :: 'feed

definition nameserver_field :: "nat \<Rightarrow> string" where
  "nameserver_field index =
     (if index = 0 then ''nameserver'' else ''additional nameserver '' @ show_nat (index - 1))"

text \<open>The body of the loop over the primary and the additional nameservers.\<close>

definition add_nameserver ::
  "('n, 'l) hickory \<Rightarrow> 'l \<Rightarrow> 'n list \<times> 'l set \<Rightarrow> nat \<times> string \<Rightarrow> zone_error + 'n list \<times> 'l set" where
  "add_nameserver h seed_domain_lower s = (\<lambda>(index, nameserver).
     let (nameserver_names, unique_nameservers) = s;
         field = nameserver_field index in
     bind_result (parse_absolute_name h field nameserver) (\<lambda>nameserver_name.
     let nameserver_lower = hk_lower h nameserver_name in
     bind_result (ensure (\<not> hk_zone_of h seed_domain_lower nameserver_lower) NameserverInsideDomain) (\<lambda>_.
     bind_result (ensure (nameserver_lower \<notin> unique_nameservers) (RepeatedNameserver field)) (\<lambda>_.
     Inr (nameserver_names @ [nameserver_name], insert nameserver_lower unique_nameservers)))))"

definition new_seed_zone ::
  "('n, 'l) hickory \<Rightarrow> zcash_network \<Rightarrow> string \<Rightarrow> string \<Rightarrow> string list \<Rightarrow> u32 \<Rightarrow> 'feed
    \<Rightarrow> zone_error + ('n, 'l, 'feed) seed_zone" where
  "new_seed_zone h network seed_domain nameserver additional_nameservers dns_ttl feed =
     bind_result (parse_absolute_name h ''seed domain'' seed_domain) (\<lambda>seed_domain.
     let seed_domain_lower = hk_lower h seed_domain in
     bind_result
       (result_fold (add_nameserver h seed_domain_lower) ([], {})
          (List.enumerate 0 (nameserver # additional_nameservers))) (\<lambda>(nameserver_names, _).
     bind_result (new_zone_records h seed_domain nameserver_names dns_ttl) (\<lambda>records.
     Inr \<lparr>sz_network = network, sz_domain = seed_domain_lower, sz_records = records,
          sz_ttl = dns_ttl, sz_servable_peers = feed\<rparr>)))"

definition readiness :: "('n, 'l, 'feed) seed_zone \<Rightarrow> zcash_network \<times> 'feed" where
  "readiness self = (sz_network self, sz_servable_peers self)"

definition contains :: "('n, 'l) hickory \<Rightarrow> ('n, 'l, 'feed) seed_zone \<Rightarrow> 'l \<Rightarrow> bool" where
  "contains h self query_name \<longleftrightarrow> hk_zone_of h (sz_domain self) query_name"

section \<open>Answering\<close>

datatype zone_answer = NoData | Nameserver | StartOfAuthority | PeerAddresses "peer_addr list"

definition resolve_peer_answer :: "peer_addr list \<Rightarrow> zone_answer" where
  "resolve_peer_answer peers = (if peers = [] then NoData else PeerAddresses peers)"

definition resolve_answer ::
  "('n, 'l) hickory \<Rightarrow> ('n, 'l, 'feed) seed_zone \<Rightarrow> 'l \<Rightarrow> record_type \<Rightarrow> servable_peer_lists \<Rightarrow> zone_answer" where
  "resolve_answer h self query_name record_type snapshot =
     (if hk_num_labels h query_name \<noteq> hk_num_labels h (sz_domain self) then NoData
      else case record_type of
        RecordA \<Rightarrow> resolve_peer_answer (sp_ipv4 snapshot)
      | RecordAAAA \<Rightarrow> resolve_peer_answer (sp_ipv6 snapshot)
      | RecordNS \<Rightarrow> Nameserver
      | RecordSOA \<Rightarrow> StartOfAuthority
      | RecordOther _ \<Rightarrow> NoData)"

record 'n dns_response_records =
  rr_answer_records :: "'n dns_record list"
  rr_soa_records :: "'n dns_record list"

definition default_response_records :: "'n dns_response_records" where
  "default_response_records = \<lparr>rr_answer_records = [], rr_soa_records = []\<rparr>"

definition peer_record :: "('n, 'l) hickory \<Rightarrow> 'l \<Rightarrow> u32 \<Rightarrow> peer_addr \<Rightarrow> 'n dns_record" where
  "peer_record h query_name ttl addr =
     (let rdata = (case sa_ip addr of V4 ipv4 \<Rightarrow> A ipv4 | V6 ipv6 \<Rightarrow> AAAA ipv6)
      in from_rdata (hk_to_name h query_name) ttl rdata)"

definition response_records_for_answer ::
  "('n, 'l) hickory \<Rightarrow> ('n, 'l, 'feed) seed_zone \<Rightarrow> 'l \<Rightarrow> zone_answer
    \<Rightarrow> 'n dns_response_records \<times> metric_op list" where
  "response_records_for_answer h self query_name answer =
     (case answer of
        NoData \<Rightarrow> (\<lparr>rr_answer_records = [], rr_soa_records = [zr_soa (sz_records self)]\<rparr>, [])
      | Nameserver \<Rightarrow>
          (\<lparr>rr_answer_records = zr_nameservers (sz_records self), rr_soa_records = []\<rparr>, [])
      | StartOfAuthority \<Rightarrow>
          (\<lparr>rr_answer_records = [zr_soa (sz_records self)], rr_soa_records = []\<rparr>, [])
      | PeerAddresses peers \<Rightarrow>
          (\<lparr>rr_answer_records = map (peer_record h query_name (sz_ttl self)) peers, rr_soa_records = []\<rparr>,
           [HistogramRecord DNS_RESPONSE_PEERS [(LABEL_NETWORK, network_label (sz_network self))]
              (length peers)]))"

fun record_type_label :: "record_type \<Rightarrow> string" where
  "record_type_label RecordA = RECORD_TYPE_A"
| "record_type_label RecordAAAA = RECORD_TYPE_AAAA"
| "record_type_label RecordNS = RECORD_TYPE_NS"
| "record_type_label RecordSOA = RECORD_TYPE_SOA"
| "record_type_label (RecordOther _) = RECORD_TYPE_OTHER"

section \<open>What a built zone is\<close>

text \<open>The specification of a zone's records, without the order of the checks.\<close>

definition zone_of_texts ::
  "('n, 'l) hickory \<Rightarrow> zcash_network \<Rightarrow> 'n \<Rightarrow> 'n list \<Rightarrow> 'n \<Rightarrow> u32 \<Rightarrow> 'feed \<Rightarrow> ('n, 'l, 'feed) seed_zone" where
  "zone_of_texts h network domain ns mailbox ttl feed =
     \<lparr>sz_network = network, sz_domain = hk_lower h domain,
      sz_records = \<lparr>
        zr_soa = from_rdata domain ttl (SOA \<lparr>soa_mname = hd ns, soa_rname = mailbox, soa_serial = 1,
          soa_refresh = 3600, soa_retry = 600, soa_expire = 86400, soa_minimum = ttl\<rparr>),
        zr_nameservers = map (\<lambda>n. from_rdata domain ttl (NS n)) ns\<rparr>,
      sz_ttl = ttl, sz_servable_peers = feed\<rparr>"

definition mailbox_of :: "('n, 'l) hickory \<Rightarrow> 'n \<Rightarrow> 'n option" where
  "mailbox_of h domain = hk_from_ascii h (''hostmaster.'' @ hk_to_ascii h domain)"

lemma parse_absolute_name_Inr_iff [result_simps]:
  "parse_absolute_name h field t = Inr n \<longleftrightarrow> parsed_name h t = Some n"
  by (auto simp: parse_absolute_name_def parsed_name_def ok_or_def split: option.splits)

lemma foldl_add_names:
  "foldl (\<lambda>(ns, seen) n. (ns @ [n], insert (lower n) seen)) (ns0, seen0) ns = (ns0 @ ns, lower ` set ns \<union> seen0)"
  by (induction ns arbitrary: ns0 seen0) auto

interpretation nameservers: checked_loop
  "add_nameserver h d" "parsed_name h"
  "\<lambda>s n. \<not> hk_zone_of h d (hk_lower h n) \<and> hk_lower h n \<notin> snd s"
  "\<lambda>s n. (fst s @ [n], insert (hk_lower h n) (snd s))"
  for h :: "('n, 'l) hickory" and d
  by unfold_locales (auto simp: add_nameserver_def Let_def split_beta result_simps)

lemma all_admitted_zone_names:
  "all_admitted (\<lambda>s n. \<not> hk_zone_of h d (hk_lower h n) \<and> hk_lower h n \<notin> snd s)
     (\<lambda>s n. (fst s @ [n], insert (hk_lower h n) (snd s))) (ns0, seen) ns \<longleftrightarrow>
   valid_nameservers h d ns \<and> hk_lower h ` set ns \<inter> seen = {}"
  by (induction ns arbitrary: ns0 seen) (auto simp: valid_nameservers_def)

lemma new_zone_records_Inr_iff [result_simps]:
  "new_zone_records h domain ns ttl = Inr r \<longleftrightarrow>
     (\<exists>mailbox. ns \<noteq> [] \<and> mailbox_of h domain = Some mailbox \<and>
        r = \<lparr>zr_soa = from_rdata domain ttl (SOA \<lparr>soa_mname = hd ns, soa_rname = mailbox,
            soa_serial = SOA_SERIAL, soa_refresh = SOA_REFRESH_SECONDS, soa_retry = SOA_RETRY_SECONDS,
            soa_expire = SOA_EXPIRE_SECONDS, soa_minimum = ttl\<rparr>),
          zr_nameservers = map (\<lambda>n. from_rdata domain ttl (NS n)) ns\<rparr>)"
  by (cases ns) (auto simp: new_zone_records_def Let_def first_def mailbox_of_def result_simps)

lemma nameserver_loop_Inr:
  "result_fold (add_nameserver h d) ([], {}) (List.enumerate 0 texts) = Inr (ns, seen) \<longleftrightarrow>
     those (map (parsed_name h) texts) = Some ns \<and> valid_nameservers h d ns \<and> seen = hk_lower h ` set ns"
proof -
  have "foldl (\<lambda>s n. (fst s @ [n], insert (hk_lower h n) (snd s))) ([], {}) ns = (ns, hk_lower h ` set ns)" for ns
    using foldl_add_names[of "hk_lower h" "[]" "{}" ns] by (simp add: split_beta')
  then show ?thesis
    unfolding nameservers.loop_Inr by (auto simp: all_admitted_zone_names)
qed

lemma new_seed_zone_Inr_iff:
  "new_seed_zone h network domain_text ns_text others ttl feed = Inr z \<longleftrightarrow>
     (\<exists>domain ns mailbox. parsed_name h domain_text = Some domain \<and>
        those (map (parsed_name h) (ns_text # others)) = Some ns \<and>
        valid_nameservers h (hk_lower h domain) ns \<and> mailbox_of h domain = Some mailbox \<and>
        z = zone_of_texts h network domain ns mailbox ttl feed)"
proof -
  define texts where "texts = ns_text # others"
  have "those (map (parsed_name h) texts) = Some ns \<Longrightarrow> ns \<noteq> []" for ns
    by (auto simp: texts_def split: option.splits)
  then show ?thesis
    unfolding new_seed_zone_def texts_def[symmetric]
    by (auto simp: Let_def bind_result_Inr_iff parse_absolute_name_Inr_iff nameserver_loop_Inr
        new_zone_records_Inr_iff zone_of_texts_def
        SOA_SERIAL_def SOA_REFRESH_SECONDS_def SOA_RETRY_SECONDS_def SOA_EXPIRE_SECONDS_def)
qed

section \<open>What a zone answers\<close>

text \<open>
  Every reader of a snapshot that keeps the cache's invariant answers with the right family
  and within the cap.
\<close>

context snapshot_holder
begin

lemma peer_answers:
  assumes "inv s" "resolve_answer h z q ty (held s) = PeerAddresses peers"
  shows "peers \<noteq> [] \<and> length peers \<le> 25 \<and>
    list_all (\<lambda>a. data_type (dr_data (peer_record h q ttl a)) = ty) peers"
proof -
  have v4: "data_type (dr_data (peer_record h q ttl a)) = (if is_ipv4 (sa_ip a) then RecordA else RecordAAAA)" for a
    by (cases "sa_ip a") (simp_all add: peer_record_def from_rdata_def)
  show ?thesis
    using held_ok[OF assms(1)] assms(2)
    by (auto simp: resolve_answer_def resolve_peer_answer_def snapshot_ok_def v4 list_all_iff
        split: if_splits record_type.splits)
qed

end

definition well_built :: "('n, 'l, 'feed) seed_zone \<Rightarrow> bool" where
  "well_built z \<longleftrightarrow> data_type (dr_data (zr_soa (sz_records z))) = RecordSOA \<and>
     zr_nameservers (sz_records z) \<noteq> [] \<and>
     list_all (\<lambda>r. data_type (dr_data r) = RecordNS) (zr_nameservers (sz_records z))"

lemma new_seed_zone_well_built:
  "new_seed_zone h network d n ns ttl feed = Inr z \<Longrightarrow> well_built z"
  by (auto simp: new_seed_zone_Inr_iff well_built_def zone_of_texts_def from_rdata_def list_all_iff
      split: option.splits)

lemma same_labels_iff:
  assumes laws: "name_laws h labels" and zone: "hk_zone_of h d q"
  shows "hk_num_labels h q = hk_num_labels h d \<longleftrightarrow>
    labels q = labels d \<or> labels q = ''*'' # labels d \<and> (labels d = [] \<or> hd (labels d) \<noteq> ''*'')"
proof -
  obtain pre where q: "labels q = pre @ labels d"
    using zone unfolding zone_of_iff_labels[OF laws] by blast
  have count: "counted_labels ls = length ls - (if ls \<noteq> [] \<and> hd ls = ''*'' then 1 else 0)" for ls
    by (cases ls) (simp_all add: counted_labels_def)
  show ?thesis
  proof (cases pre)
    case Nil
    with q show ?thesis by (simp add: num_labels_counted[OF laws])
  next
    case (Cons x xs)
    with q show ?thesis
      by (cases "labels d") (auto simp: num_labels_counted[OF laws] count)
  qed
qed

lemma answer_facts:
  assumes "well_built z" and "snapshot_ok p"
  shows "let answer = resolve_answer h z q ty p;
      rr = fst (response_records_for_answer h z q answer)
    in ((answer = NoData \<longleftrightarrow> rr_answer_records rr = []) \<and>
       rr_soa_records rr = (if answer = NoData then [zr_soa (sz_records z)] else []) \<and>
       list_all (\<lambda>r. data_type (dr_data r) = ty) (rr_answer_records rr) \<and>
       (ty = RecordNS \<or> length (rr_answer_records rr) \<le> 25) \<and>
       (ty \<notin> {RecordA, RecordAAAA} \<or>
          list_all (\<lambda>r. dr_name r = hk_to_name h q \<and> dr_ttl r = sz_ttl z) (rr_answer_records rr)))"
proof (cases "resolve_answer h z q ty p")
  case (PeerAddresses peers)
  from plain_snapshot.peer_answers[OF assms(2) this, of "sz_ttl z"] PeerAddresses show ?thesis
    by (auto simp: response_records_for_answer_def list_all_iff peer_record_def from_rdata_def Let_def)
next
  case Nameserver
  then have "ty = RecordNS"
    by (auto simp: resolve_answer_def resolve_peer_answer_def split: if_splits record_type.splits)
  with Nameserver assms(1) show ?thesis
    by (simp add: response_records_for_answer_def well_built_def)
next
  case StartOfAuthority
  then have "ty = RecordSOA"
    by (auto simp: resolve_answer_def resolve_peer_answer_def split: if_splits record_type.splits)
  with StartOfAuthority assms(1) show ?thesis
    by (simp add: response_records_for_answer_def well_built_def)
qed (simp add: response_records_for_answer_def)

section \<open>Properties\<close>

text \<open>C33: The zone constructor and the configuration check agree: a zone is built exactly when
  the configuration check accepts it and the SOA mailbox \<open>hostmaster.\<close> plus the domain is a
  name; the built zone is authoritative for the domain the check computed, and its NS records
  are the configured nameservers, the primary first and as SOA master name.\<close>

theorem zone_built_iff_validated:
  "new_seed_zone h network (zc_domain zone) (zc_nameserver zone) (zc_additional_nameservers zone)
       (zc_ttl zone) feed = Inr z \<longleftrightarrow>
     (\<exists>domain ns mailbox. validated_domain h zone network = Inr (hk_lower h domain) \<and>
        parsed_name h (zc_domain zone) = Some domain \<and> mailbox_of h domain = Some mailbox \<and>
        those (map (parsed_name h) (zc_nameserver zone # zc_additional_nameservers zone)) = Some ns \<and>
        z = zone_of_texts h network domain ns mailbox (zc_ttl zone) feed)"
  unfolding new_seed_zone_Inr_iff validated_domain_Inr_iff valid_zone_def
  by (metis option.inject)

text \<open>C21: Within its zone a name is answered by record type exactly when it is the zone's domain
  or, unless the domain itself starts with an asterisk, the wildcard label \<open>*\<close> directly below
  it; every other name in the zone has no data. The label count that the code compares does
  not count a leading asterisk, so \<open>*.<domain>\<close> is served like the domain itself.\<close>

theorem answered_names:
  assumes "name_laws h labels" and "contains h z q"
  shows "resolve_answer h z q ty p =
    (if labels q = labels (sz_domain z) \<or>
        labels q = ''*'' # labels (sz_domain z) \<and>
          (labels (sz_domain z) = [] \<or> hd (labels (sz_domain z)) \<noteq> ''*'')
     then (case ty of RecordA \<Rightarrow> resolve_peer_answer (sp_ipv4 p) | RecordAAAA \<Rightarrow> resolve_peer_answer (sp_ipv6 p)
             | RecordNS \<Rightarrow> Nameserver | RecordSOA \<Rightarrow> StartOfAuthority | RecordOther _ \<Rightarrow> NoData)
     else NoData)"
  using same_labels_iff[OF assms(1), of "sz_domain z" q] assms(2)
  by (simp add: resolve_answer_def contains_def)

text \<open>A built zone for the witnesses.\<close>

definition sample_seed_zone :: "(string list, string list, zcash_network) seed_zone" where
  "sample_seed_zone = zone_of_texts sample_hickory Mainnet [''main'', ''seed'', ''org'']
     [[''ns1'', ''net''], [''ns2'', ''net'']] [''hostmaster'', ''main'', ''seed'', ''org''] 600 Mainnet"

lemma sample_seed_zone_domain: "sz_domain sample_seed_zone = [''main'', ''seed'', ''org'']"
  by (simp add: sample_seed_zone_def zone_of_texts_def sample_hickory_def lower_char_def)

lemma sample_seed_zone_well: "well_built sample_seed_zone"
  by (simp add: sample_seed_zone_def zone_of_texts_def well_built_def from_rdata_def)

lemma sample_snapshot_ok: "snapshot_ok sample_snapshot"
  by (simp add: snapshot_ok_def sample_snapshot_eval)

lemma sample_contains:
  "contains sample_hickory sample_seed_zone q \<longleftrightarrow> label_suffix [''main'', ''seed'', ''org''] q"
  by (simp add: contains_def sample_seed_zone_domain) (simp add: sample_hickory_def)

theorem answered_names_witness:
  "resolve_answer sample_hickory sample_seed_zone [''*'', ''main'', ''seed'', ''org''] RecordSOA sample_snapshot = StartOfAuthority \<and>
   resolve_answer sample_hickory sample_seed_zone [''www'', ''main'', ''seed'', ''org''] RecordSOA sample_snapshot = NoData"
proof -
  have "contains sample_hickory sample_seed_zone [''*'', ''main'', ''seed'', ''org'']"
    "contains sample_hickory sample_seed_zone [''www'', ''main'', ''seed'', ''org'']"
    by (simp_all add: sample_contains label_suffix_def)
  from answered_names[OF sample_name_laws this(1)] answered_names[OF sample_name_laws this(2)]
  show ?thesis by (simp add: sample_seed_zone_domain)
qed

end
