(* ===== verification/Query_Limiter.thy ===== *)
theory Query_Limiter
  imports Network_Config
begin

text \<open>
  \<open>src/dns/rate_limiter.rs\<close>: the per-IP limiter in front of the query handler and the
  detached loop that prunes it. The governor crate's algorithm is a parameter that works on
  the cell of one key; the keyed state store is the map the code names
  (\<open>DashMapStateStore<IpAddr>\<close>). Times come from the limiter's clock, in nanoseconds.
\<close>

definition RATE_LIMIT_PRUNE_INTERVAL :: duration where
  "RATE_LIMIT_PRUNE_INTERVAL = from_secs 5"

section \<open>The limiter\<close>

text \<open>\<open>Quota::per_second(rate).allow_burst(burst)\<close>, both non-zero.\<close>

record quota =
  qu_per_second :: u32
  qu_burst :: u32

text \<open>
  \<open>gv_check\<close> decides one query of a key at a time, given the key's cell if it has one, and
  returns the cell to keep; \<open>gv_recent\<close> is the test of \<open>retain_recent\<close>. The law is what
  governor documents of that method: a cell that is not recent decides like no cell at all,
  then and later.
\<close>

record 'c governor =
  gv_check :: "quota \<Rightarrow> nat \<Rightarrow> 'c option \<Rightarrow> bool \<times> 'c option"
  gv_recent :: "quota \<Rightarrow> nat \<Rightarrow> 'c \<Rightarrow> bool"

definition governor_laws :: "'c governor \<Rightarrow> bool" where
  "governor_laws gv \<longleftrightarrow>
     (\<forall>q t c t'. \<not> gv_recent gv q t c \<and> t \<le> t' \<longrightarrow> gv_check gv q t' (Some c) = gv_check gv q t' None)"

record 'c rate_limiter =
  rl_quota :: quota
  rl_cells :: "ip_addr \<rightharpoonup> 'c"

definition new_rate_limiter :: "rate_limit_config \<Rightarrow> 'l config_error + 'c rate_limiter" where
  "new_rate_limiter config =
     bind_result (nonzero_queries_per_second config) (\<lambda>queries_per_second.
     bind_result (nonzero_burst_size config) (\<lambda>burst_size.
       Inr \<lparr>rl_quota = \<lparr>qu_per_second = queries_per_second, qu_burst = burst_size\<rparr>,
            rl_cells = (\<lambda>_. None)\<rparr>))"

definition check :: "'c governor \<Rightarrow> nat \<Rightarrow> 'c rate_limiter \<Rightarrow> ip_addr \<Rightarrow> bool \<times> 'c rate_limiter" where
  "check gv now self key =
     (let (within, cell) = gv_check gv (rl_quota self) now (rl_cells self key)
      in (within, self\<lparr>rl_cells := (rl_cells self)(key := cell)\<rparr>))"

text \<open>One pass of the prune loop: \<open>retain_recent\<close> on every cell.\<close>

definition prune_pass :: "'c governor \<Rightarrow> nat \<Rightarrow> 'c rate_limiter \<Rightarrow> 'c rate_limiter" where
  "prune_pass gv now self = self\<lparr>rl_cells := (\<lambda>key. case rl_cells self key of
     Some cell \<Rightarrow> if gv_recent gv (rl_quota self) now cell then Some cell else None
   | None \<Rightarrow> None)\<rparr>"

section \<open>Interleavings\<close>

text \<open>
  The listener's checks and the loop's passes interleave freely; an event carries its time.
  A check is observed as its decision, a pass as nothing.
\<close>

datatype limiter_event = CheckKey nat ip_addr | PrunePass nat

fun event_time :: "limiter_event \<Rightarrow> nat" where
  "event_time (CheckKey t _) = t"
| "event_time (PrunePass t) = t"

fun limiter_step :: "'c governor \<Rightarrow> 'c rate_limiter \<Rightarrow> limiter_event \<Rightarrow> bool option \<times> 'c rate_limiter" where
  "limiter_step gv l (CheckKey t key) = (let (within, l') = check gv t l key in (Some within, l'))"
| "limiter_step gv l (PrunePass t) = (None, prune_pass gv t l)"

text \<open>
  A simulation up to dropped events: when events that are not kept change nothing a kept one
  can see, the outputs of the kept events are those of the run that has only them.
\<close>

fun outputs :: "('s \<Rightarrow> 'e \<Rightarrow> 'o \<times> 's) \<Rightarrow> 's \<Rightarrow> 'e list \<Rightarrow> ('e \<times> 'o) list" where
  "outputs step s [] = []"
| "outputs step s (e # es) = (e, fst (step s e)) # outputs step (snd (step s e)) es"

locale dropping_simulation =
  fixes step :: "'s \<Rightarrow> 'e \<Rightarrow> 'o \<times> 's"
    and time_of :: "'e \<Rightarrow> nat"
    and keep :: "'e \<Rightarrow> bool"
    and rel :: "nat \<Rightarrow> 's \<Rightarrow> 's \<Rightarrow> bool"
    and lawful :: bool
  assumes kept: "lawful \<Longrightarrow> rel t s s' \<Longrightarrow> t \<le> time_of e \<Longrightarrow> keep e \<Longrightarrow>
      fst (step s e) = fst (step s' e) \<and> rel (time_of e) (snd (step s e)) (snd (step s' e))"
    and dropped: "lawful \<Longrightarrow> rel t s s' \<Longrightarrow> t \<le> time_of e \<Longrightarrow> \<not> keep e \<Longrightarrow>
      rel (time_of e) (snd (step s e)) s'"
begin

lemma outputs_kept:
  assumes lawful "rel t s s'" "sorted (t # map time_of es)"
  shows "filter (\<lambda>x. keep (fst x)) (outputs step s es) = outputs step s' (filter keep es)"
  using assms(2,3)
proof (induction es arbitrary: t s s')
  case (Cons e es)
  then have le: "t \<le> time_of e" and rest: "sorted (time_of e # map time_of es)" by simp_all
  show ?case
  proof (cases "keep e")
    case True
    with kept[OF assms(1) Cons.prems(1) le] Cons.IH[OF _ rest] show ?thesis by simp
  next
    case False
    with Cons.IH[OF dropped[OF assms(1) Cons.prems(1) le False] rest] show ?thesis by simp
  qed
qed simp

end

text \<open>
  From the time on, two limiters decide alike for a key when their cells for it do.
\<close>

definition same_cell :: "'c governor \<Rightarrow> quota \<Rightarrow> nat \<Rightarrow> 'c option \<Rightarrow> 'c option \<Rightarrow> bool" where
  "same_cell gv q t c d \<longleftrightarrow> (\<forall>t' \<ge> t. gv_check gv q t' c = gv_check gv q t' d)"

definition same_for :: "'c governor \<Rightarrow> ip_addr set \<Rightarrow> nat \<Rightarrow> 'c rate_limiter \<Rightarrow> 'c rate_limiter \<Rightarrow> bool" where
  "same_for gv keys t l l' \<longleftrightarrow> rl_quota l = rl_quota l' \<and>
     (\<forall>key \<in> keys. same_cell gv (rl_quota l) t (rl_cells l key) (rl_cells l' key))"

fun checks_of :: "ip_addr set \<Rightarrow> limiter_event \<Rightarrow> bool" where
  "checks_of keys (CheckKey _ key) = (key \<in> keys)"
| "checks_of keys (PrunePass _) = False"

lemma same_cell_later: "same_cell gv q t c d \<Longrightarrow> t \<le> t' \<Longrightarrow> same_cell gv q t' c d"
  by (simp add: same_cell_def)

lemma pruned_cell:
  assumes "governor_laws gv" "same_cell gv q t c d" "t \<le> t'"
  shows "same_cell gv q t' (case c of Some x \<Rightarrow> if gv_recent gv q t' x then Some x else None | None \<Rightarrow> None) d"
proof (cases c)
  case (Some x)
  have "gv_check gv q u None = gv_check gv q u (Some x)" if "\<not> gv_recent gv q t' x" "t' \<le> u" for u
    using assms(1) that by (simp add: governor_laws_def)
  with assms(2,3) Some show ?thesis by (auto simp: same_cell_def)
qed (use assms same_cell_later in auto)

interpretation limiter: dropping_simulation
  "limiter_step gv" event_time "checks_of keys" "same_for gv keys" "governor_laws gv"
  for gv :: "'c governor" and keys
proof
  fix t and s s' :: "'c rate_limiter" and e
  assume laws: "governor_laws gv" and rel: "same_for gv keys t s s'" and le: "t \<le> event_time e"
  show "fst (limiter_step gv s e) = fst (limiter_step gv s' e) \<and>
      same_for gv keys (event_time e) (snd (limiter_step gv s e)) (snd (limiter_step gv s' e))"
    if "checks_of keys e"
    using that rel le
    by (cases e) (auto simp: same_for_def same_cell_def check_def Let_def split_beta)
  show "same_for gv keys (event_time e) (snd (limiter_step gv s e)) s'" if "\<not> checks_of keys e"
    using that rel le
    by (cases e) (auto simp: same_for_def check_def prune_pass_def Let_def split_beta
        cong: option.case_cong intro: same_cell_later[of _ _ t] pruned_cell[OF laws, of _ t])
qed

section \<open>Construction\<close>

text \<open>A limiter is built exactly when both limits are non-zero, and then has no cells: the
  configuration check and the construction agree, so a validated rate limit always builds.\<close>

lemma new_rate_limiter_iff:
  "(is_ok (new_rate_limiter config :: 'l config_error + 'c rate_limiter) \<longleftrightarrow>
      is_ok (validate_rate_limit config :: 'l config_error + unit)) \<and>
   (new_rate_limiter config = (Inr l :: 'l config_error + 'c rate_limiter) \<longleftrightarrow>
      rl_queries_per_second config \<noteq> 0 \<and> rl_burst_size config \<noteq> 0 \<and>
      l = \<lparr>rl_quota = \<lparr>qu_per_second = rl_queries_per_second config, qu_burst = rl_burst_size config\<rparr>,
           rl_cells = (\<lambda>_. None)\<rparr>)"
  by (auto simp: new_rate_limiter_def validate_rate_limit_def nonzero_queries_per_second_def
      nonzero_burst_size_def nonzero_config_value_def result_simps split: if_splits)

section \<open>Properties\<close>

text \<open>C24: Clients are limited each on their own and pruning is invisible: in any time-ordered
  interleaving of checks of any addresses with passes of the prune loop, the decisions for a
  set of addresses are exactly those of the run that has only the checks of these addresses
  and no pruning at all.\<close>

theorem limiter_isolates_clients:
  assumes "governor_laws gv" and "sorted (map event_time es)"
  shows "filter (\<lambda>x. checks_of keys (fst x)) (outputs (limiter_step gv) l es) =
    outputs (limiter_step gv) l (filter (checks_of keys) es)"
proof -
  have "same_for gv keys 0 l l" by (simp add: same_for_def same_cell_def)
  moreover have "sorted (0 # map event_time es)" using assms(2) by simp
  ultimately show ?thesis by (rule limiter.outputs_kept[OF assms(1)])
qed

text \<open>
  A governor for the witnesses, the generic cell rate algorithm: a cell is the time at which
  the key is at rest again.
\<close>

definition gcra :: "nat governor" where
  "gcra = \<lparr>
     gv_check = (\<lambda>q t cell.
       let interval = 10 ^ 9 div unat (qu_per_second q);
           rest = max t (case cell of None \<Rightarrow> t | Some r \<Rightarrow> r)
       in if rest - t \<le> interval * (unat (qu_burst q) - 1) then (True, Some (rest + interval)) else (False, cell)),
     gv_recent = (\<lambda>q t r. t < r)\<rparr>"

lemma gcra_laws: "governor_laws gcra"
  by (simp add: governor_laws_def gcra_def Let_def max_def)

definition sample_limiter :: "nat rate_limiter" where
  "sample_limiter = \<lparr>rl_quota = \<lparr>qu_per_second = 1, qu_burst = 2\<rparr>, rl_cells = (\<lambda>_. None)\<rparr>"

theorem limiter_isolates_clients_witness:
  "map snd (filter (\<lambda>x. checks_of {LOCALHOST_V4} (fst x)) (outputs (limiter_step gcra) sample_limiter
     [CheckKey 0 LOCALHOST_V4, CheckKey 0 UNSPECIFIED_V4, CheckKey 1 LOCALHOST_V4, PrunePass 2,
      CheckKey 3 LOCALHOST_V4])) = [Some True, Some True, Some False]"
proof -
  have "sorted (map event_time [CheckKey 0 LOCALHOST_V4, CheckKey 0 UNSPECIFIED_V4, CheckKey 1 LOCALHOST_V4,
      PrunePass 2, CheckKey 3 LOCALHOST_V4])" by simp
  from limiter_isolates_clients[OF gcra_laws this, of "{LOCALHOST_V4}" sample_limiter]
  show ?thesis
    by (simp only:) (simp add: LOCALHOST_V4_def UNSPECIFIED_V4_def check_def gcra_def sample_limiter_def)
qed

end
