(* ===== verification/Query_Handler.thy ===== *)
theory Query_Handler
  imports Zone_Records Query_Limiter
begin

text \<open>
  The handler half of \<open>src/dns/request_handler.rs\<close>: routing a query to its zone and the
  whole of \<open>answer_request\<close>, from the rate limit to the response that is sent. Building the
  response metadata from the request's, and sending, belong to hickory and are parameters.
\<close>

section \<open>Routing\<close>

record ('n, 'l, 'feed, 'c) dns_request_handler =
  dh_zones :: "('n, 'l, 'feed) seed_zone list"
  dh_rate_limiter :: "'c rate_limiter option"

definition new_handler ::
  "('n, 'l, 'feed) seed_zone list \<Rightarrow> 'c rate_limiter option \<Rightarrow> ('n, 'l, 'feed, 'c) dns_request_handler" where
  "new_handler zones limiter = \<lparr>dh_zones = zones, dh_rate_limiter = limiter\<rparr>"

definition matching_zone ::
  "('n, 'l) hickory \<Rightarrow> ('n, 'l, 'feed) seed_zone list \<Rightarrow> 'l \<Rightarrow> ('n, 'l, 'feed) seed_zone option" where
  "matching_zone h zones name =
     max_by_key (\<lambda>zone. hk_num_labels h (sz_domain zone)) (filter (\<lambda>zone. contains h zone name) zones)"

section \<open>Requests and responses\<close>

datatype response_code = NoError | Refused | OtherCode u16

text \<open>Of the metadata the code sets the authoritative flag and the response code.\<close>

record 'm metadata =
  md_authoritative :: bool
  md_response_code :: response_code
  md_copied :: 'm

record ('l, 'm) dns_request =
  rq_src :: socket_addr
  rq_metadata :: 'm
  rq_queries :: "('l \<times> record_type) list"

record ('n, 'm) dns_response =
  rs_metadata :: "'m metadata"
  rs_answers :: "'n dns_record list"
  rs_soas :: "'n dns_record list"

text \<open>
  \<open>Metadata::response_from_request\<close>: hickory documents that it copies the request's fields
  and starts from a successful, non-authoritative response.
\<close>

definition response_from_request :: "'m \<Rightarrow> 'm metadata" where
  "response_from_request m = \<lparr>md_authoritative = False, md_response_code = NoError, md_copied = m\<rparr>"

text \<open>
  \<open>ResponseInfo\<close> of a header with the given metadata and no counts, for a request that
  was dropped or could not be answered, or whatever the sender reports.
\<close>

datatype ('m, 'i) response_info = HeaderOnly "'m metadata" | SentInfo 'i

text \<open>
  What one request leads to: the information returned, the response handed to the sender if
  any, the metric updates and the limiter afterwards.
\<close>

record ('n, 'm, 'i, 'c) handled =
  hd_info :: "('m, 'i) response_info"
  hd_sent :: "('n, 'm) dns_response option"
  hd_metrics :: "metric_op list"
  hd_rate_limiter :: "'c rate_limiter option"

text \<open>
  The part of \<open>answer_request\<close> after the limit: the first query is counted and routed; with
  no query, or in no zone, the response has no records.
\<close>

definition answer_query ::
  "('n, 'l) hickory \<Rightarrow> ('n, 'l, 'feed) seed_zone list \<Rightarrow> ('feed \<Rightarrow> servable_peer_lists)
    \<Rightarrow> 'm metadata \<Rightarrow> ('l \<times> record_type) list
    \<Rightarrow> 'm metadata \<times> 'n dns_response_records \<times> metric_op list" where
  "answer_query h zones borrow md queries =
     (case queries of
        [] \<Rightarrow> (md, default_response_records, [])
      | (name, record_type) # _ \<Rightarrow>
          let ops = [CounterIncrement DNS_QUERIES_TOTAL
                       [(LABEL_RECORD_TYPE, record_type_label record_type)] 1]
          in case matching_zone h zones name of
               None \<Rightarrow> (md\<lparr>md_response_code := Refused\<rparr>, default_response_records, ops)
             | Some zone \<Rightarrow>
                 let snapshot = borrow (sz_servable_peers zone);
                     answer = resolve_answer h zone name record_type snapshot;
                     (records, more_ops) = response_records_for_answer h zone name answer
                 in (md, records, ops @ more_ops))"

definition answer_request ::
  "('n, 'l) hickory \<Rightarrow> 'c governor \<Rightarrow> ('feed \<Rightarrow> servable_peer_lists) \<Rightarrow> (('n, 'm) dns_response \<Rightarrow> string + 'i)
    \<Rightarrow> nat \<Rightarrow> ('n, 'l, 'feed, 'c) dns_request_handler \<Rightarrow> ('l, 'm) dns_request \<Rightarrow> ('n, 'm, 'i, 'c) handled" where
  "answer_request h gv borrow send now self request =
     (let md = (response_from_request (rq_metadata request))\<lparr>md_authoritative := True\<rparr>;
          (within, limiter) =
            (case dh_rate_limiter self of
               None \<Rightarrow> (True, None)
             | Some limiter \<Rightarrow>
                 let (within, limiter) = check gv now limiter (sa_ip (rq_src request)) in (within, Some limiter))
      in if \<not> within then
           \<lparr>hd_info = HeaderOnly md, hd_sent = None,
            hd_metrics = [CounterIncrement DNS_RATE_LIMITED_TOTAL [] 1], hd_rate_limiter = limiter\<rparr>
         else
           let (md, records, ops) = answer_query h (dh_zones self) borrow md (rq_queries request);
               response = \<lparr>rs_metadata = md, rs_answers = rr_answer_records records,
                           rs_soas = rr_soa_records records\<rparr>
           in case send response of
                Inr info \<Rightarrow>
                  \<lparr>hd_info = SentInfo info, hd_sent = Some response, hd_metrics = ops,
                   hd_rate_limiter = limiter\<rparr>
              | Inl error \<Rightarrow>
                  \<lparr>hd_info = HeaderOnly md, hd_sent = Some response,
                   hd_metrics = ops @ [CounterIncrement DNS_ERRORS_TOTAL [] 1], hd_rate_limiter = limiter\<rparr>)"

section \<open>Routing is unambiguous\<close>

text \<open>
  Served zones whose domains passed the disjointness check: whatever the order of the zones,
  at most one contains a name, and that one is chosen.
\<close>

definition zones_disjoint :: "('n, 'l) hickory \<Rightarrow> ('n, 'l, 'feed) seed_zone list \<Rightarrow> bool" where
  "zones_disjoint h zones \<longleftrightarrow>
     is_ok (ensure_zones_are_disjoint h (map (\<lambda>z. (sz_network z, sz_domain z)) zones))"

interpretation served: zone_validator "hk_zone_of h" sz_domain "zones_disjoint h"
  for h :: "('n, 'l) hickory"
  by unfold_locales
    (auto simp: zones_disjoint_def is_ok_iff ensure_zones_are_disjoint_Inr_iff disjoint_domains_def
      sorted_wrt_map)

lemma matching_zone_contains:
  "matching_zone h zones name = Some z \<Longrightarrow> z \<in> set zones \<and> contains h z name"
  using max_by_key_in[of _ "filter (\<lambda>zone. contains h zone name) zones" z] by (simp add: matching_zone_def)

lemma matching_zone_None_iff:
  "matching_zone h zones name = None \<longleftrightarrow> list_all (\<lambda>z. \<not> contains h z name) zones"
  by (simp add: matching_zone_def filter_empty_conv list_all_iff)

lemma matching_zone_unique:
  assumes laws: "name_laws h labels" and disjoint: "zones_disjoint h zones"
    and z: "z \<in> set zones" "contains h z name"
  shows "matching_zone h zones name = Some z"
proof -
  have "filter (\<lambda>z. hk_zone_of h (sz_domain z) name) zones = [z]"
    by (rule served.unique_zone[OF disjoint zone_of_chain[OF laws]])
      (use z in \<open>simp_all add: contains_def\<close>)
  then show ?thesis by (simp add: matching_zone_def contains_def)
qed

section \<open>One request, case by case\<close>

definition over_budget :: "'c governor \<Rightarrow> nat \<Rightarrow> 'c rate_limiter option \<Rightarrow> ip_addr \<Rightarrow> bool" where
  "over_budget gv now limiter ip = (case limiter of None \<Rightarrow> False | Some l \<Rightarrow> \<not> fst (check gv now l ip))"

definition limiter_after :: "'c governor \<Rightarrow> nat \<Rightarrow> 'c rate_limiter option \<Rightarrow> ip_addr \<Rightarrow> 'c rate_limiter option" where
  "limiter_after gv now limiter ip = map_option (\<lambda>l. snd (check gv now l ip)) limiter"

definition initial_metadata :: "'m \<Rightarrow> 'm metadata" where
  "initial_metadata m = \<lparr>md_authoritative = True, md_response_code = NoError, md_copied = m\<rparr>"

definition query_response ::
  "('n, 'l) hickory \<Rightarrow> ('feed \<Rightarrow> servable_peer_lists) \<Rightarrow> ('n, 'l, 'feed, 'c) dns_request_handler
    \<Rightarrow> ('l, 'm) dns_request \<Rightarrow> ('n, 'm) dns_response" where
  "query_response h borrow self request =
     (let (md, records, ops) =
        answer_query h (dh_zones self) borrow (initial_metadata (rq_metadata request)) (rq_queries request)
      in \<lparr>rs_metadata = md, rs_answers = rr_answer_records records, rs_soas = rr_soa_records records\<rparr>)"

definition query_metrics ::
  "('n, 'l) hickory \<Rightarrow> ('feed \<Rightarrow> servable_peer_lists) \<Rightarrow> ('n, 'l, 'feed, 'c) dns_request_handler
    \<Rightarrow> ('l, 'm) dns_request \<Rightarrow> metric_op list" where
  "query_metrics h borrow self request =
     snd (snd (answer_query h (dh_zones self) borrow (initial_metadata (rq_metadata request)) (rq_queries request)))"

lemma answer_request_cases:
  "answer_request h gv borrow send now self request =
    (let limiter = limiter_after gv now (dh_rate_limiter self) (sa_ip (rq_src request));
         response = query_response h borrow self request
     in if over_budget gv now (dh_rate_limiter self) (sa_ip (rq_src request))
        then \<lparr>hd_info = HeaderOnly (initial_metadata (rq_metadata request)), hd_sent = None,
              hd_metrics = [CounterIncrement DNS_RATE_LIMITED_TOTAL [] 1], hd_rate_limiter = limiter\<rparr>
        else \<lparr>hd_info = (case send response of Inr info \<Rightarrow> SentInfo info
                | Inl _ \<Rightarrow> HeaderOnly (rs_metadata response)),
              hd_sent = Some response,
              hd_metrics = query_metrics h borrow self request @
                (if is_ok (send response) then [] else [CounterIncrement DNS_ERRORS_TOTAL [] 1]),
              hd_rate_limiter = limiter\<rparr>)"
proof -
  have md: "(response_from_request m)\<lparr>md_authoritative := True\<rparr> = initial_metadata m" for m :: 'm
    by (simp add: response_from_request_def initial_metadata_def)
  show ?thesis
    by (cases "dh_rate_limiter self";
        cases "send (query_response h borrow self request)")
      (simp_all add: answer_request_def md over_budget_def limiter_after_def query_response_def
        query_metrics_def Let_def split_beta)
qed

lemma answer_query_first:
  "answer_query h zones borrow md ((name, ty) # qs) =
    (case matching_zone h zones name of
       None \<Rightarrow> (md\<lparr>md_response_code := Refused\<rparr>, default_response_records,
         [CounterIncrement DNS_QUERIES_TOTAL [(LABEL_RECORD_TYPE, record_type_label ty)] 1])
     | Some zone \<Rightarrow>
         let rr = response_records_for_answer h zone name
               (resolve_answer h zone name ty (borrow (sz_servable_peers zone)))
         in (md, fst rr, CounterIncrement DNS_QUERIES_TOTAL [(LABEL_RECORD_TYPE, record_type_label ty)] 1 # snd rr))"
  by (simp add: answer_query_def Let_def split_beta split: option.split)

lemma sent_is_query_response:
  assumes "hd_sent (answer_request h gv borrow send now self request) = Some response"
  shows "response = query_response h borrow self request"
  using assms by (simp add: answer_request_cases Let_def split: if_splits)

text \<open>The address records of a response, in a zone, are those of that zone's snapshot.\<close>

lemma peer_answer_records:
  assumes "r \<in> set (rr_answer_records (fst (response_records_for_answer h zone name (resolve_answer h zone name ty p))))"
    and "ty \<in> {RecordA, RecordAAAA}"
  shows "\<exists>a \<in> set (if ty = RecordA then sp_ipv4 p else sp_ipv6 p). r = peer_record h name (sz_ttl zone) a"
  using assms
  by (auto simp: response_records_for_answer_def resolve_answer_def resolve_peer_answer_def split: if_splits)

lemma response_in_zone:
  assumes "rq_queries request = (name, ty) # more_queries" "matching_zone h (dh_zones self) name = Some zone"
  shows "query_response h borrow self request =
    (let rr = fst (response_records_for_answer h zone name
        (resolve_answer h zone name ty (borrow (sz_servable_peers zone))))
     in \<lparr>rs_metadata = initial_metadata (rq_metadata request),
         rs_answers = rr_answer_records rr, rs_soas = rr_soa_records rr\<rparr>)"
  by (simp add: query_response_def answer_query_first assms Let_def)

section \<open>Properties\<close>

text \<open>C13: Queries route unambiguously: when the zones passed the disjointness check of the
  configuration, a name is routed to a zone exactly when that zone is one of the served ones and
  contains the name, whatever the order of the zones and the tie-break of the code.\<close>

theorem routing_unambiguous:
  assumes "name_laws h labels" and "zones_disjoint h zones"
  shows "matching_zone h zones name = Some z \<longleftrightarrow> z \<in> set zones \<and> contains h z name"
proof
  assume "matching_zone h zones name = Some z"
  then show "z \<in> set zones \<and> contains h z name" by (rule matching_zone_contains)
next
  assume "z \<in> set zones \<and> contains h z name"
  then show "matching_zone h zones name = Some z" by (simp add: matching_zone_unique[OF assms])
qed

theorem routing_unambiguous_witness:
  "matching_zone sample_hickory [sample_seed_zone] [''a'', ''main'', ''seed'', ''org''] = Some sample_seed_zone"
proof -
  have "zones_disjoint sample_hickory [sample_seed_zone]"
    by (simp add: zones_disjoint_def)
  from routing_unambiguous[OF sample_name_laws this, of "[''a'', ''main'', ''seed'', ''org'']" sample_seed_zone]
  show ?thesis by (simp add: sample_contains label_suffix_def)
qed

text \<open>C23: A request over its client's budget is dropped silently and nothing else is: no response
  is handed to the sender exactly when there is a limiter and its check of the client's address
  fails, and then, whatever the request asks, only the rate-limit counter moves. The limiter is
  consulted exactly once per request.\<close>

theorem over_budget_dropped_silently:
  "let out = answer_request h gv borrow send now self request;
      ip = sa_ip (rq_src request)
    in (hd_sent out = None \<longleftrightarrow> (\<exists>l. dh_rate_limiter self = Some l \<and> fst (check gv now l ip) = False)) \<and>
       (hd_sent out = None \<longleftrightarrow> hd_metrics out = [CounterIncrement DNS_RATE_LIMITED_TOTAL [] 1]) \<and>
       counter_total DNS_RATE_LIMITED_TOTAL [] (hd_metrics out) = of_bool (hd_sent out = None) \<and>
       hd_rate_limiter out = map_option (\<lambda>l. snd (check gv now l ip)) (dh_rate_limiter self)"
proof -
  let ?out = "answer_request h gv borrow send now self request"
  have none: "counter_total DNS_RATE_LIMITED_TOTAL [] (query_metrics h borrow self request) = 0"
    by (cases "rq_queries request")
      (auto simp: query_metrics_def answer_query_def response_records_for_answer_def Let_def split_beta
        metric_name_defs split: option.split zone_answer.split)
  have sent: "hd_sent ?out = None \<longleftrightarrow> over_budget gv now (dh_rate_limiter self) (sa_ip (rq_src request))"
    by (simp add: answer_request_cases Let_def)
  have "counter_total DNS_RATE_LIMITED_TOTAL [] (hd_metrics ?out) = of_bool (hd_sent ?out = None)"
    using none by (simp add: answer_request_cases Let_def) (simp add: metric_name_defs)
  moreover from this have "hd_sent ?out = None \<longleftrightarrow> hd_metrics ?out = [CounterIncrement DNS_RATE_LIMITED_TOTAL [] 1]"
    by (cases "hd_sent ?out = None") (auto simp: answer_request_cases Let_def split: if_splits)
  moreover have "hd_rate_limiter ?out = map_option (\<lambda>l. snd (check gv now l (sa_ip (rq_src request)))) (dh_rate_limiter self)"
    by (simp add: answer_request_cases Let_def limiter_after_def)
  ultimately show ?thesis
    by (simp add: Let_def sent) (auto simp: over_budget_def split: option.splits)
qed

text \<open>C22: A response that is sent is authoritative, copies the request's metadata, and is refused
  exactly when the request has a query and no served zone contains the name of the first one;
  a refused response carries no records, and a request without a query gets an empty successful
  one.\<close>

theorem refused_iff_out_of_zone:
  assumes "hd_sent (answer_request h gv borrow send now self request) = Some response"
  shows "md_authoritative (rs_metadata response) \<and>
    md_copied (rs_metadata response) = rq_metadata request \<and>
    md_response_code (rs_metadata response) =
      (case rq_queries request of
         [] \<Rightarrow> NoError
       | q # _ \<Rightarrow> if list_all (\<lambda>z. \<not> contains h z (fst q)) (dh_zones self) then Refused else NoError) \<and>
    (md_response_code (rs_metadata response) = Refused \<or> rq_queries request = [] \<longrightarrow>
      rs_answers response = [] \<and> rs_soas response = [])"
proof -
  note resp = sent_is_query_response[OF assms]
  show ?thesis
  proof (cases "rq_queries request")
    case Nil
    then show ?thesis
      by (simp add: resp query_response_def answer_query_def initial_metadata_def default_response_records_def)
  next
    case (Cons q qs)
    obtain name ty where q: "q = (name, ty)" by (cases q)
    show ?thesis
    proof (cases "matching_zone h (dh_zones self) name")
      case None
      then have "list_all (\<lambda>z. \<not> contains h z name) (dh_zones self)"
        by (simp add: matching_zone_None_iff)
      with None show ?thesis
        by (simp add: resp query_response_def Cons q answer_query_first initial_metadata_def
            default_response_records_def)
    next
      case (Some zone)
      then have "\<not> list_all (\<lambda>z. \<not> contains h z name) (dh_zones self)"
        by (metis matching_zone_None_iff option.distinct(1))
      with Some show ?thesis
        by (simp add: resp query_response_def Cons q answer_query_first initial_metadata_def Let_def)
    qed
  qed
qed

text \<open>
  A server for the witnesses: one zone, a limiter of two queries per second, a cache snapshot,
  and a sender that fails for empty responses.
\<close>

definition sample_handler :: "(string list, string list, zcash_network, nat) dns_request_handler" where
  "sample_handler = new_handler [sample_seed_zone] (Some sample_limiter)"

definition sample_request :: "string list \<Rightarrow> record_type \<Rightarrow> (string list, nat) dns_request" where
  "sample_request name ty = \<lparr>rq_src = mk_addr LOCALHOST_V4 5353, rq_metadata = 7, rq_queries = [(name, ty)]\<rparr>"

definition sample_send :: "(string list, nat) dns_response \<Rightarrow> string + nat" where
  "sample_send r = (if rs_answers r = [] \<and> rs_soas r = [] then Inl ''closed'' else Inr (length (rs_answers r)))"

abbreviation sample_answer :: "string list \<Rightarrow> record_type \<Rightarrow> (string list, nat, nat, nat) handled" where
  "sample_answer name ty \<equiv>
     answer_request sample_hickory gcra (\<lambda>_. sample_snapshot) sample_send 0 sample_handler (sample_request name ty)"

lemma sample_sent:
  "hd_sent (sample_answer name ty) =
     Some (query_response sample_hickory (\<lambda>_. sample_snapshot) sample_handler (sample_request name ty))"
  by (simp add: answer_request_cases Let_def over_budget_def sample_handler_def new_handler_def
      sample_limiter_def check_def gcra_def)

theorem refused_iff_out_of_zone_witness:
  "md_response_code (rs_metadata (query_response sample_hickory (\<lambda>_. sample_snapshot) sample_handler
     (sample_request [''other'', ''org''] RecordA))) = Refused"
  using refused_iff_out_of_zone[OF sample_sent, of "[''other'', ''org'']" RecordA]
  by (simp add: sample_request_def sample_handler_def new_handler_def sample_contains label_suffix_def)

text \<open>C10: What a client receives: when every served zone is built by the zone constructor and its
  feed holds a snapshot with the cache's invariant, then all answer records of a sent response
  are of the type the first query asks for, an address answer carries at most 25 addresses, all
  from the snapshot of a served zone that contains the name, and each response has answers or
  authority records but never both.\<close>

theorem responses_well_formed:
  assumes "hd_sent (answer_request h gv borrow send now self request) = Some response"
    and "rq_queries request = (name, ty) # more_queries"
    and "list_all (\<lambda>z. well_built z \<and> snapshot_ok (borrow (sz_servable_peers z))) (dh_zones self)"
  shows "list_all (\<lambda>r. data_type (dr_data r) = ty) (rs_answers response) \<and>
    (rs_answers response = [] \<or> rs_soas response = []) \<and>
    (ty = RecordNS \<or> length (rs_answers response) \<le> 25) \<and>
    (ty \<notin> {RecordA, RecordAAAA} \<or>
       (\<forall>r \<in> set (rs_answers response). \<exists>z \<in> set (dh_zones self). contains h z name \<and>
          (\<exists>a \<in> set (if ty = RecordA then sp_ipv4 (borrow (sz_servable_peers z))
                      else sp_ipv6 (borrow (sz_servable_peers z))).
             r = peer_record h name (sz_ttl z) a)))"
proof -
  note resp = sent_is_query_response[OF assms(1)]
  show ?thesis
  proof (cases "matching_zone h (dh_zones self) name")
    case None
    then show ?thesis
      by (simp add: resp query_response_def assms(2) answer_query_first default_response_records_def)
  next
    case (Some zone)
    let ?p = "borrow (sz_servable_peers zone)"
    let ?rr = "fst (response_records_for_answer h zone name (resolve_answer h zone name ty ?p))"
    from matching_zone_contains[OF Some] have zone: "zone \<in> set (dh_zones self)" "contains h zone name"
      by simp_all
    with assms(3) have "well_built zone" "snapshot_ok ?p" by (simp_all add: list_all_iff)
    from answer_facts[OF this, of h name ty]
    have shape: "list_all (\<lambda>r. data_type (dr_data r) = ty) (rr_answer_records ?rr)"
      "rr_answer_records ?rr = [] \<or> rr_soa_records ?rr = []"
      "ty = RecordNS \<or> length (rr_answer_records ?rr) \<le> 25"
      by (auto simp: Let_def)
    have "\<exists>a \<in> set (if ty = RecordA then sp_ipv4 ?p else sp_ipv6 ?p). r = peer_record h name (sz_ttl zone) a"
      if "r \<in> set (rr_answer_records ?rr)" "ty \<in> {RecordA, RecordAAAA}" for r
      by (rule peer_answer_records[OF that])
    with zone shape show ?thesis
      by (auto simp: resp response_in_zone[OF assms(2) Some] Let_def)
  qed
qed

theorem responses_well_formed_witness:
  "length (rs_answers (query_response sample_hickory (\<lambda>_. sample_snapshot) sample_handler
     (sample_request [''main'', ''seed'', ''org''] RecordA))) \<le> 25"
proof -
  have "list_all (\<lambda>z. well_built z \<and> snapshot_ok ((\<lambda>_. sample_snapshot) (sz_servable_peers z)))
      (dh_zones sample_handler)"
    by (simp add: sample_handler_def new_handler_def sample_seed_zone_well sample_snapshot_ok)
  from responses_well_formed[OF sample_sent _ this, of "[''main'', ''seed'', ''org'']" RecordA]
  show ?thesis by (simp add: sample_request_def)
qed

end
