(* ===== verification/Health_Endpoint.thy ===== *)
theory Health_Endpoint
  imports Activation_Target Address_Cache
begin

text \<open>
  \<open>src/health.rs\<close>: the responder behind \<open>/health\<close> and \<open>/ready\<close>. A request arrives as
  bytes and is decoded lossily to code points; text operations of \<open>str\<close> are modelled on
  those. Responses are built from ASCII text, a byte per character. The socket is a
  parameter: each of its operations takes some time, or for ever, and gives a result.
\<close>

definition CONNECTION_IO_TIMEOUT :: duration where "CONNECTION_IO_TIMEOUT = from_secs 5"
definition MAX_REQUEST_BYTES :: nat where "MAX_REQUEST_BYTES = 1024"

section \<open>Decoding a request\<close>

text \<open>
  \<open>String::from_utf8_lossy\<close>: well-formed sequences decode to their code point, and each
  maximal ill-formed prefix becomes the replacement character. The second byte's range
  depends on the first as in the Unicode table.
\<close>

type_synonym code_points = "nat list"

definition replacement_char :: nat where "replacement_char = 0xFFFD"

definition continuation :: "nat \<Rightarrow> bool" where
  "continuation b \<longleftrightarrow> 0x80 \<le> b \<and> b \<le> 0xBF"

definition utf8_width :: "nat \<Rightarrow> nat" where
  "utf8_width b =
     (if b < 0x80 then 1
      else if 0xC2 \<le> b \<and> b \<le> 0xDF then 2
      else if 0xE0 \<le> b \<and> b \<le> 0xEF then 3
      else if 0xF0 \<le> b \<and> b \<le> 0xF4 then 4 else 0)"

definition second_byte_ok :: "nat \<Rightarrow> nat \<Rightarrow> bool" where
  "second_byte_ok b0 b \<longleftrightarrow>
     (if b0 = 0xE0 then 0xA0 \<le> b \<and> b \<le> 0xBF
      else if b0 = 0xED then 0x80 \<le> b \<and> b \<le> 0x9F
      else if b0 = 0xF0 then 0x90 \<le> b \<and> b \<le> 0xBF
      else if b0 = 0xF4 then 0x80 \<le> b \<and> b \<le> 0x8F
      else continuation b)"

text \<open>One step: the code point decoded, and how many bytes it takes.\<close>

definition decode_step :: "nat \<Rightarrow> nat list \<Rightarrow> nat \<times> nat" where
  "decode_step b0 rest =
     (let w = utf8_width b0 in
      if w = 0 then (replacement_char, 1)
      else if w = 1 then (b0, 1)
      else case rest of
        [] \<Rightarrow> (replacement_char, 1)
      | b1 # rest1 \<Rightarrow>
          if \<not> second_byte_ok b0 b1 then (replacement_char, 1)
          else if w = 2 then ((b0 - 0xC0) * 64 + (b1 - 0x80), 2)
          else case rest1 of
            [] \<Rightarrow> (replacement_char, 2)
          | b2 # rest2 \<Rightarrow>
              if \<not> continuation b2 then (replacement_char, 2)
              else if w = 3 then ((b0 - 0xE0) * 4096 + (b1 - 0x80) * 64 + (b2 - 0x80), 3)
              else case rest2 of
                [] \<Rightarrow> (replacement_char, 3)
              | b3 # _ \<Rightarrow>
                  if \<not> continuation b3 then (replacement_char, 3)
                  else ((b0 - 0xF0) * 262144 + (b1 - 0x80) * 4096 + (b2 - 0x80) * 64 + (b3 - 0x80), 4))"

function decode_lossy :: "nat list \<Rightarrow> code_points" where
  "decode_lossy [] = []"
| "decode_lossy (b # bs) = fst (decode_step b bs) # decode_lossy (drop (snd (decode_step b bs) - 1) bs)"
  by pat_completeness auto
termination by (relation "measure length") auto

definition from_utf8_lossy :: "u8 list \<Rightarrow> code_points" where
  "from_utf8_lossy bytes = decode_lossy (map unat bytes)"

section \<open>The request target\<close>

text \<open>\<open>char::is_whitespace\<close>, the Unicode property.\<close>

definition is_whitespace :: "nat \<Rightarrow> bool" where
  "is_whitespace c \<longleftrightarrow>
     9 \<le> c \<and> c \<le> 13 \<or>
     c \<in> {0x20, 0x85, 0xA0, 0x1680, 0x2028, 0x2029, 0x202F, 0x205F, 0x3000} \<or>
     0x2000 \<le> c \<and> c \<le> 0x200A"

text \<open>
  \<open>str::lines().next()\<close>: nothing for an empty text; otherwise up to the first newline,
  without a carriage return just before it.
\<close>

definition first_line :: "code_points \<Rightarrow> code_points option" where
  "first_line s =
     (if s = [] then None
      else
        let line = takeWhile (\<lambda>c. c \<noteq> 10) s;
            terminated = length line < length s
        in Some (if terminated \<and> line \<noteq> [] \<and> last line = 13 then butlast line else line))"

text \<open>\<open>split_whitespace\<close>: the non-empty runs between whitespace.\<close>

function split_whitespace :: "code_points \<Rightarrow> code_points list" where
  "split_whitespace s =
     (let s' = dropWhile is_whitespace s in
      if s' = [] then []
      else takeWhile (\<lambda>c. \<not> is_whitespace c) s' # split_whitespace (dropWhile (\<lambda>c. \<not> is_whitespace c) s'))"
  by pat_completeness auto
termination
proof (relation "measure length")
  fix s s' :: code_points
  assume s': "s' = dropWhile is_whitespace s" and "s' \<noteq> []"
  then obtain c cs where c: "s' = c # cs" by (meson list.exhaust)
  with s' have "\<not> is_whitespace c" by (metis hd_dropWhile list.distinct(1) list.sel(1))
  then have "length (dropWhile (\<lambda>c. \<not> is_whitespace c) s') \<le> length cs"
    by (simp add: c length_dropWhile_le)
  also have "length cs < length s"
  proof -
    have "length s' \<le> length s" unfolding s' by (rule length_dropWhile_le)
    with c show ?thesis by simp
  qed
  finally show "(dropWhile (\<lambda>c. \<not> is_whitespace c) s', s) \<in> measure length" by simp
qed simp

declare split_whitespace.simps [simp del]

definition nth_opt :: "nat \<Rightarrow> 'a list \<Rightarrow> 'a option" where
  "nth_opt n xs = (if n < length xs then Some (xs ! n) else None)"

definition parse_request_path :: "code_points \<Rightarrow> code_points option" where
  "parse_request_path request =
     Option.bind (first_line request) (\<lambda>line.
     Option.bind (nth_opt 1 (split_whitespace line)) (\<lambda>target.
     Some (takeWhile (\<lambda>c. c \<noteq> 63) target)))"

section \<open>Responses\<close>

definition crlf :: string where "crlf = [CHR 0x0D, CHR 0x0A]"

definition http_response :: "u16 \<Rightarrow> string \<Rightarrow> string \<Rightarrow> string" where
  "http_response status reason body =
     ''HTTP/1.1 '' @ show_nat (unat status) @ '' '' @ reason @ crlf @
     ''Content-Type: text/plain; charset=utf-8'' @ crlf @
     ''Content-Length: '' @ show_nat (length body) @ crlf @
     ''Connection: close'' @ crlf @
     crlf @
     body"

text \<open>The loop of \<open>readiness_response\<close> over the zones: whether all are ready so far, and the body.\<close>

definition zone_state ::
  "('feed \<Rightarrow> servable_peer_lists) \<Rightarrow> usize \<Rightarrow> bool \<times> string \<Rightarrow> zcash_network \<times> 'feed \<Rightarrow> bool \<times> string" where
  "zone_state borrow ready_threshold s = (\<lambda>(network, feed).
     let (all_ready, body) = s;
         servable = total (borrow feed);
         ready = (unat ready_threshold \<le> servable);
         all_ready = (all_ready \<and> ready);
         state = (if ready then ''ready'' else ''not ready'')
     in (all_ready, body @ network_label network @ '': '' @ show_nat servable @ '' servable peers ('' @
           state @ '')'' @ newline))"

definition readiness_response ::
  "('feed \<Rightarrow> servable_peer_lists) \<Rightarrow> (zcash_network \<times> 'feed) list \<Rightarrow> usize \<Rightarrow> string" where
  "readiness_response borrow zones ready_threshold =
     (let (all_ready, body) = foldl (zone_state borrow ready_threshold) (True, []) zones
      in if all_ready then http_response 200 ''OK'' body
         else http_response 503 ''Service Unavailable'' body)"

definition codes :: "string \<Rightarrow> code_points" where
  "codes s = map of_char s"

definition response_for ::
  "('feed \<Rightarrow> servable_peer_lists) \<Rightarrow> (zcash_network \<times> 'feed) list \<Rightarrow> usize \<Rightarrow> code_points \<Rightarrow> string" where
  "response_for borrow zones ready_threshold request =
     (let path = parse_request_path request in
      if path = Some (codes ''/health'') then http_response 200 ''OK'' (''ok'' @ newline)
      else if path = Some (codes ''/ready'') \<or> path = Some (codes ''/'')
        then readiness_response borrow zones ready_threshold
      else http_response 404 ''Not Found'' (''not found'' @ newline))"

section \<open>One connection\<close>

definition connection_timeout :: "string \<Rightarrow> io_error" where
  "connection_timeout operation =
     IoError TimedOutKind (''health connection '' @ operation @ '' timed out'')"

text \<open>
  What the stream's operations do: the bytes that have arrived when a read completes, whether a
  write of a text completes, and the flush. A read fills at most the buffer. The result is
  the text written, if the write completed, and the error or success of the connection.
\<close>

record connection =
  cn_read :: "(duration \<times> (io_error + u8 list)) option"
  cn_write_all :: "string \<Rightarrow> (duration \<times> (io_error + unit)) option"
  cn_flush :: "(duration \<times> (io_error + unit)) option"

definition within_timeout :: "string \<Rightarrow> (duration \<times> (io_error + 'a)) option \<Rightarrow> io_error + 'a" where
  "within_timeout operation future =
     bind_result (ok_or (connection_timeout operation) (timeout CONNECTION_IO_TIMEOUT future)) (\<lambda>r. r)"

definition serve_connection ::
  "('feed \<Rightarrow> servable_peer_lists) \<Rightarrow> connection \<Rightarrow> (zcash_network \<times> 'feed) list \<Rightarrow> usize
    \<Rightarrow> string option \<times> (io_error + unit)" where
  "serve_connection borrow stream zones ready_threshold =
     (case within_timeout ''read'' (cn_read stream) of
        Inl error \<Rightarrow> (None, Inl error)
      | Inr bytes \<Rightarrow>
          let request = from_utf8_lossy (take MAX_REQUEST_BYTES bytes);
              response = response_for borrow zones ready_threshold request
          in case within_timeout ''write'' (cn_write_all stream response) of
               Inl error \<Rightarrow> (None, Inl error)
             | Inr _ \<Rightarrow> (Some response, within_timeout ''flush'' (cn_flush stream)))"

text \<open>
  Binding the endpoint, and one turn of the accept loop: an accepted stream is served on a task
  of its own and its error only logged; a failed accept only logs and the loop goes on.
\<close>

datatype health_error = HealthBindFailed socket_addr io_error

definition bind_health :: "(socket_addr \<Rightarrow> io_error + 'listener) \<Rightarrow> socket_addr \<Rightarrow> health_error + 'listener" where
  "bind_health bind endpoint_addr = map_err (HealthBindFailed endpoint_addr) (bind endpoint_addr)"

definition accept_turn ::
  "('feed \<Rightarrow> servable_peer_lists) \<Rightarrow> (zcash_network \<times> 'feed) list \<Rightarrow> usize \<Rightarrow> io_error + connection
    \<Rightarrow> (string option \<times> (io_error + unit)) option" where
  "accept_turn borrow zones ready_threshold accepted =
     (case accepted of
        Inr stream \<Rightarrow> Some (serve_connection borrow stream zones ready_threshold)
      | Inl error \<Rightarrow> None)"

section \<open>Decoding and parsing a probe\<close>

lemma decode_ascii_append:
  "list_all (\<lambda>b. b < 128) xs \<Longrightarrow> decode_lossy (xs @ ys) = xs @ decode_lossy ys"
  by (induction xs) (simp_all add: decode_step_def utf8_width_def)

lemma split_whitespace_skip: "is_whitespace c \<Longrightarrow> split_whitespace (c # s) = split_whitespace s"
  by (simp add: split_whitespace.simps[of "c # s"] split_whitespace.simps[of s])

lemma split_whitespace_word:
  assumes "w \<noteq> []" "list_all (\<lambda>c. \<not> is_whitespace c) w" "s = [] \<or> is_whitespace (hd s)"
  shows "split_whitespace (w @ s) = w # split_whitespace s"
proof -
  obtain c cs where w: "w = c # cs" using assms(1) by (cases w) auto
  have drop: "dropWhile is_whitespace (w @ s) = w @ s" using assms(2) by (simp add: w)
  have stop: "takeWhile (\<lambda>c. \<not> is_whitespace c) s = []" "dropWhile (\<lambda>c. \<not> is_whitespace c) s = s"
    using assms(3) by (cases s; simp)+
  have "takeWhile (\<lambda>c. \<not> is_whitespace c) (w @ s) = w" "dropWhile (\<lambda>c. \<not> is_whitespace c) (w @ s) = s"
    using assms(2) stop by (simp_all add: list_all_iff takeWhile_append2 dropWhile_append2)
  then show ?thesis
    by (intro trans[OF split_whitespace.simps[of "w @ s"]]) (simp add: drop Let_def assms(1))
qed

text \<open>
  The first line of a request that starts with two words reaches beyond them: their characters
  and the spaces are no line ends, and a carriage return that is cut off comes later.
\<close>

lemma first_line_prefix:
  assumes "10 \<notin> set xs" "xs \<noteq> []" "last xs \<noteq> 13" 
  shows "\<exists>ys. first_line (xs @ s) = Some (xs @ ys)"
proof -
  let ?t = "takeWhile (\<lambda>c. c \<noteq> 10) s"
  have take: "takeWhile (\<lambda>c. c \<noteq> 10) (xs @ s) = xs @ ?t"
    using assms(1) by (subst takeWhile_append2) auto
  show ?thesis
  proof (cases ?t rule: rev_cases)
    case Nil
    with take assms(2,3) show ?thesis by (simp add: first_line_def)
  next
    case (snoc ys y)
    with take assms(2) show ?thesis by (auto simp: first_line_def Let_def butlast_append)
  qed
qed

lemma not_whitespace_newline: "list_all (\<lambda>c. \<not> is_whitespace c) w \<Longrightarrow> 10 \<notin> set w \<and> 13 \<notin> set w"
proof -
  have "is_whitespace 10" "is_whitespace 13" by (simp_all add: is_whitespace_def)
  then show "list_all (\<lambda>c. \<not> is_whitespace c) w \<Longrightarrow> 10 \<notin> set w \<and> 13 \<notin> set w"
    unfolding list_all_iff by blast
qed

lemma parse_probe:
  assumes "m \<noteq> []" "list_all (\<lambda>c. \<not> is_whitespace c) m"
    and "target \<noteq> []" "list_all (\<lambda>c. \<not> is_whitespace c) target"
  shows "parse_request_path (m @ [32] @ target @ [32] @ rest) = Some (takeWhile (\<lambda>c. c \<noteq> 63) target)"
proof -
  let ?xs = "m @ [32] @ target @ [32]"
  have "10 \<notin> set ?xs" using not_whitespace_newline[OF assms(2)] not_whitespace_newline[OF assms(4)] by simp
  then obtain ys where line: "first_line (?xs @ rest) = Some (?xs @ ys)"
    using first_line_prefix[of ?xs rest] by auto
  have space: "is_whitespace 32" by (simp add: is_whitespace_def)
  have "split_whitespace (?xs @ ys) = m # target # split_whitespace (32 # ys)"
    using split_whitespace_word[OF assms(1,2), of "32 # target @ 32 # ys"]
      split_whitespace_word[OF assms(3,4), of "32 # ys"]
    by (simp add: space split_whitespace_skip)
  with line show ?thesis by (simp add: parse_request_path_def nth_opt_def)
qed

section \<open>Readiness\<close>

definition zone_line :: "('feed \<Rightarrow> servable_peer_lists) \<Rightarrow> usize \<Rightarrow> zcash_network \<times> 'feed \<Rightarrow> string" where
  "zone_line borrow threshold z =
     network_label (fst z) @ '': '' @ show_nat (total (borrow (snd z))) @ '' servable peers ('' @
     (if unat threshold \<le> total (borrow (snd z)) then ''ready'' else ''not ready'') @ '')'' @ newline"

lemma zone_loop:
  "foldl (zone_state borrow th) (ok, body) zones =
     (ok \<and> list_all (\<lambda>z. unat th \<le> total (borrow (snd z))) zones,
      body @ concat (map (zone_line borrow th) zones))"
  by (induction zones arbitrary: ok body) (auto simp: zone_state_def zone_line_def Let_def)

lemma readiness_response_eq:
  "readiness_response borrow zones th =
     (if list_all (\<lambda>z. unat th \<le> total (borrow (snd z))) zones
      then http_response 200 ''OK'' (concat (map (zone_line borrow th) zones))
      else http_response 503 ''Service Unavailable'' (concat (map (zone_line borrow th) zones)))"
  by (simp add: readiness_response_def zone_loop)

lemma show_nat_statuses: "show_nat 200 = ''200''" "show_nat 503 = ''503''"
  by code_simp+

lemma readiness_status:
  "take 12 (readiness_response borrow zones th) =
     (if list_all (\<lambda>z. unat th \<le> total (borrow (snd z))) zones then ''HTTP/1.1 200'' else ''HTTP/1.1 503'')"
  by (simp add: readiness_response_eq http_response_def show_nat_statuses)

section \<open>Properties\<close>

text \<open>C37: The readiness response is a 200 exactly when every zone holds at least the threshold of
  peers and a 503 otherwise, and its body has one line per zone, in order, with the zone's
  network, the number of peers in its snapshot and its own verdict.\<close>

theorem ready_iff_every_zone:
  "(take 12 (readiness_response borrow zones th) = ''HTTP/1.1 200'' \<longleftrightarrow>
      list_all (\<lambda>z. unat th \<le> total (borrow (snd z))) zones) \<and>
   (take 12 (readiness_response borrow zones th) \<in> {''HTTP/1.1 200'', ''HTTP/1.1 503''}) \<and>
   (\<exists>head. readiness_response borrow zones th = head @ concat (map (\<lambda>z.
      network_label (fst z) @ '': '' @ show_nat (total (borrow (snd z))) @ '' servable peers ('' @
      (if unat th \<le> total (borrow (snd z)) then ''ready'' else ''not ready'') @ '')'' @ newline) zones))"
proof -
  have "\<exists>head. http_response s r b = head @ b" for s r b
    unfolding http_response_def by (metis append_assoc)
  then show ?thesis
    unfolding readiness_status zone_line_def[symmetric] by (auto simp: readiness_response_eq)
qed

text \<open>C40: A probe is answered by its path alone: whatever the method, query string, version, headers
  and bytes that follow, when the first kilobyte holds a method and a request target followed
  by a space, the response written is the liveness, the readiness or the not-found response
  according to the target up to its first question mark.\<close>

theorem probe_answered_by_path:
  assumes "within_timeout ''read'' (cn_read stream) = Inr bytes"
    and "map unat bytes = m @ [32] @ target @ [32] @ rest"
    and "m \<noteq> []" "target \<noteq> []"
    and "list_all (\<lambda>c. c < 128 \<and> \<not> is_whitespace c) (m @ target)"
    and "length m + length target + 2 \<le> 1024"
    and "is_ok (within_timeout ''write'' (cn_write_all stream response))"
    and "response = (let path = takeWhile (\<lambda>c. c \<noteq> 63) target in
      if path = codes ''/health'' then http_response 200 ''OK'' (''ok'' @ newline)
      else if path = codes ''/ready'' \<or> path = codes ''/'' then readiness_response borrow zones th
      else http_response 404 ''Not Found'' (''not found'' @ newline))"
  shows "fst (serve_connection borrow stream zones th) = Some response"
proof -
  let ?pre = "m @ [32] @ target @ [32]"
  have ascii: "list_all (\<lambda>b. b < 128) ?pre" and m: "list_all (\<lambda>c. \<not> is_whitespace c) m"
    and target: "list_all (\<lambda>c. \<not> is_whitespace c) target"
    using assms(5) by (auto simp: list_all_iff)
  have "map unat (take MAX_REQUEST_BYTES bytes) = take MAX_REQUEST_BYTES (?pre @ rest)"
    using assms(2) by (simp flip: take_map)
  also have "\<dots> = ?pre @ take (MAX_REQUEST_BYTES - length ?pre) rest"
    using assms(6) by (subst take_append) (simp add: MAX_REQUEST_BYTES_def)
  finally have "from_utf8_lossy (take MAX_REQUEST_BYTES bytes) =
      ?pre @ decode_lossy (take (MAX_REQUEST_BYTES - length ?pre) rest)"
    by (simp only: from_utf8_lossy_def decode_ascii_append[OF ascii])
  then have "parse_request_path (from_utf8_lossy (take MAX_REQUEST_BYTES bytes)) =
      Some (takeWhile (\<lambda>c. c \<noteq> 63) target)"
    using parse_probe[OF assms(3) m assms(4) target] by simp
  then have "response_for borrow zones th (from_utf8_lossy (take MAX_REQUEST_BYTES bytes)) = response"
    by (simp add: response_for_def assms(8) Let_def)
  with assms(1,7) show ?thesis
    by (auto simp: serve_connection_def Let_def split: sum.split)
qed

text \<open>A probe for the witnesses: \<open>GET /ready?x HTTP\<close>, read and written at once.\<close>

definition sample_probe :: connection where
  "sample_probe = \<lparr>
     cn_read = Some (1, Inr (map of_nat (codes ''GET /ready?x HTTP''))),
     cn_write_all = (\<lambda>_. Some (1, Inr ())),
     cn_flush = Some (1, Inr ())\<rparr>"

theorem probe_answered_by_path_witness:
  "fst (serve_connection (\<lambda>_. sample_snapshot) sample_probe [(Mainnet, ())] 1) =
     Some (readiness_response (\<lambda>_. sample_snapshot) [(Mainnet, ())] 1)"
proof (rule probe_answered_by_path[where m = "codes ''GET''" and target = "codes ''/ready?x''" and
      rest = "codes ''HTTP''" and bytes = "map of_nat (codes ''GET /ready?x HTTP'')"])
  show "within_timeout ''read'' (cn_read sample_probe) = Inr (map of_nat (codes ''GET /ready?x HTTP''))"
    "is_ok (within_timeout ''write'' (cn_write_all sample_probe
      (readiness_response (\<lambda>_. sample_snapshot) [(Mainnet, ())] 1)))"
    by (simp_all add: sample_probe_def within_timeout_def timeout_def CONNECTION_IO_TIMEOUT_def from_secs_def
        ok_or_def)
qed (simp_all add: codes_def is_whitespace_def)

section \<open>Slow clients\<close>

text \<open>
  When a step under the timeout returns: at its completion or at the limit, whichever is first.
  The connection's time is that of the steps it comes to.
\<close>

definition step_time :: "(duration \<times> 'a) option \<Rightarrow> duration" where
  "step_time future = (case future of
     None \<Rightarrow> CONNECTION_IO_TIMEOUT
   | Some (elapsed, _) \<Rightarrow> min elapsed CONNECTION_IO_TIMEOUT)"

definition connection_time ::
  "('feed \<Rightarrow> servable_peer_lists) \<Rightarrow> connection \<Rightarrow> (zcash_network \<times> 'feed) list \<Rightarrow> usize \<Rightarrow> duration" where
  "connection_time borrow stream zones ready_threshold =
     step_time (cn_read stream) +
     (case within_timeout ''read'' (cn_read stream) of
        Inl error \<Rightarrow> 0
      | Inr bytes \<Rightarrow>
          let response = response_for borrow zones ready_threshold (from_utf8_lossy (take MAX_REQUEST_BYTES bytes))
          in step_time (cn_write_all stream response) +
             (case within_timeout ''write'' (cn_write_all stream response) of
                Inl error \<Rightarrow> 0
              | Inr _ \<Rightarrow> step_time (cn_flush stream)))"

abbreviation response_to ::
  "('feed \<Rightarrow> servable_peer_lists) \<Rightarrow> (zcash_network \<times> 'feed) list \<Rightarrow> usize \<Rightarrow> u8 list \<Rightarrow> string" where
  "response_to borrow zones th bytes \<equiv>
     response_for borrow zones th (from_utf8_lossy (take MAX_REQUEST_BYTES bytes))"

text \<open>
  The same connection as a sequence of timed steps, each of which ends the connection when it
  fails: its time is \<open>connection_time\<close> and its result the one of \<open>serve_connection\<close>.
\<close>

definition timed_step :: "string \<Rightarrow> (duration \<times> (io_error + 'a)) option \<Rightarrow> duration \<times> (io_error + 'a)" where
  "timed_step operation future = (step_time future, within_timeout operation future)"

definition timed_then ::
  "duration \<times> (io_error + 'a) \<Rightarrow> ('a \<Rightarrow> duration \<times> (io_error + 'b)) \<Rightarrow> duration \<times> (io_error + 'b)" where
  "timed_then first next = (case snd first of
     Inl error \<Rightarrow> (fst first, Inl error)
   | Inr x \<Rightarrow> (fst first + fst (next x), snd (next x)))"

lemma connection_time_steps:
  "(connection_time borrow stream zones th, snd (serve_connection borrow stream zones th)) =
     timed_then (timed_step ''read'' (cn_read stream)) (\<lambda>bytes.
       timed_then (timed_step ''write'' (cn_write_all stream (response_to borrow zones th bytes))) (\<lambda>_.
         timed_step ''flush'' (cn_flush stream)))"
  by (simp add: timed_then_def timed_step_def connection_time_def serve_connection_def Let_def split: sum.split)

text \<open>A step takes the whole limit or ends with what it was waiting for, at the moment it came.\<close>

lemma step_time_result:
  "timeout CONNECTION_IO_TIMEOUT future = None \<and> step_time future = CONNECTION_IO_TIMEOUT \<or>
   (\<exists>elapsed result. future = Some (elapsed, result) \<and>
      timeout CONNECTION_IO_TIMEOUT future = Some result \<and> step_time future = elapsed)"
  by (auto simp: timeout_def step_time_def split: option.split)

lemma step_time_le: "step_time future \<le> from_secs 5"
  by (simp add: step_time_def CONNECTION_IO_TIMEOUT_def split: option.split prod.split)

lemma within_timeout_late:
  "timeout CONNECTION_IO_TIMEOUT future = None \<Longrightarrow> within_timeout operation future = Inl (connection_timeout operation)"
  by (simp add: within_timeout_def ok_or_def)

text \<open>C39: Every connection ends: whatever a client does or leaves undone, its task is over within
  fifteen seconds; when the client sends nothing for five seconds, or does not take the
  response or its flush within five seconds each, the connection fails with the timeout error
  that names that step, and no response is written after a read that failed.\<close>

theorem slow_clients_dropped:
  "connection_time borrow stream zones th \<le> from_secs 15 \<and>
    (timeout CONNECTION_IO_TIMEOUT (cn_read stream) = None \<longrightarrow>
       serve_connection borrow stream zones th = (None, Inl (connection_timeout ''read''))) \<and>
    (timeout CONNECTION_IO_TIMEOUT (cn_read stream) = Some (Inr bytes) \<longrightarrow>
       timeout CONNECTION_IO_TIMEOUT (cn_write_all stream (response_to borrow zones th bytes)) = None \<longrightarrow>
       serve_connection borrow stream zones th = (None, Inl (connection_timeout ''write''))) \<and>
    (timeout CONNECTION_IO_TIMEOUT (cn_read stream) = Some (Inr bytes) \<longrightarrow>
       timeout CONNECTION_IO_TIMEOUT (cn_write_all stream (response_to borrow zones th bytes)) = Some (Inr ()) \<longrightarrow>
       timeout CONNECTION_IO_TIMEOUT (cn_flush stream) = None \<longrightarrow>
       serve_connection borrow stream zones th = (Some (response_to borrow zones th bytes), Inl (connection_timeout ''flush'')))"
proof -
  have branch: "(\<And>x. f x \<le> b) \<Longrightarrow> (case r of Inl _ \<Rightarrow> 0 | Inr x \<Rightarrow> f x) \<le> b"
    for r :: "io_error + 'x" and f and b :: duration
    by (cases r) auto
  have "connection_time borrow stream zones th \<le> from_secs 5 + (from_secs 5 + from_secs 5)"
    unfolding connection_time_def Let_def by (intro add_mono branch step_time_le)
  then have "connection_time borrow stream zones th \<le> from_secs 15" by (simp add: from_secs_def)
  moreover have finished: "timeout CONNECTION_IO_TIMEOUT f = Some (Inr x) \<Longrightarrow> within_timeout operation f = Inr x" for f x operation
    by (simp add: within_timeout_def ok_or_def)
  ultimately show ?thesis
    by (auto simp: serve_connection_def within_timeout_late finished Let_def)
qed

definition silent_client :: connection where
  "silent_client = \<lparr>cn_read = None, cn_write_all = (\<lambda>_. None), cn_flush = None\<rparr>"

theorem slow_clients_dropped_witness:
  "serve_connection (\<lambda>_. sample_snapshot) silent_client [(Mainnet, ())] 1 =
     (None, Inl (connection_timeout ''read''))"
proof -
  have "timeout CONNECTION_IO_TIMEOUT (cn_read silent_client) = None"
    by (simp add: silent_client_def timeout_def)
  with slow_clients_dropped[of "\<lambda>_. sample_snapshot" silent_client "[(Mainnet, ())]" 1] show ?thesis by blast
qed

end
