(* ===== verification/Activation_Gate.thy ===== *)
theory Activation_Gate
  imports Chain_Floor Metric_Ops
begin

text \<open>
  The decision of \<open>src/crawl/activation.rs\<close>: the evidence of one sweep, the gate that
  counts consecutive qualifying sweeps, the sweep interval and the observation metrics.
  The gate is shown to refine a specification over the whole history of sweeps.
\<close>

section \<open>Evidence and interval\<close>

record sweep_evidence =
  se_total_groups :: usize
  se_ready_groups :: usize

definition default_evidence :: sweep_evidence where
  "default_evidence = \<lparr>se_total_groups = 0, se_ready_groups = 0\<rparr>"

definition sweep_interval :: "('net, 'cache) zebra \<Rightarrow> 'net \<Rightarrow> height \<Rightarrow> duration" where
  "sweep_interval z network activation_height =
     max (case zb_target_spacing_for_height z network activation_height of
            None \<Rightarrow> from_secs 75
          | Some spacing \<Rightarrow> spacing)
         (MIN_SWEEP_INTERVAL z)"

definition publish_observation_metrics :: "string \<Rightarrow> sweep_evidence \<Rightarrow> u8 \<Rightarrow> metric_op list" where
  "publish_observation_metrics label evidence qualifying_sweeps =
     [GaugeSet ACTIVATION_TOTAL_GROUPS [(LABEL_NETWORK, label)] (unat (se_total_groups evidence)),
      GaugeSet ACTIVATION_READY_GROUPS [(LABEL_NETWORK, label)] (unat (se_ready_groups evidence)),
      GaugeSet ACTIVATION_QUALIFYING_SWEEPS [(LABEL_NETWORK, label)] (unat qualifying_sweeps)]"

section \<open>The gate\<close>

record activation_gate =
  ag_qualifying_sweeps :: u8

definition default_gate :: activation_gate where
  "default_gate = \<lparr>ag_qualifying_sweeps = 0\<rparr>"

definition observe :: "activation_gate \<Rightarrow> sweep_evidence \<Rightarrow> bool \<times> activation_gate" where
  "observe self evidence =
     (let has_enough_groups = MIN_NETWORK_GROUPS \<le> se_total_groups evidence;
          has_fixed_quorum =
            saturating_mul (se_total_groups evidence) QUORUM_NUMERATOR
              \<le> saturating_mul (se_ready_groups evidence) QUORUM_DENOMINATOR
      in if \<not> has_enough_groups \<or> \<not> has_fixed_quorum then
           (False, self\<lparr>ag_qualifying_sweeps := 0\<rparr>)
         else
           let self = self\<lparr>ag_qualifying_sweeps := saturating_add (ag_qualifying_sweeps self) 1\<rparr>
           in (REQUIRED_QUALIFYING_SWEEPS \<le> ag_qualifying_sweeps self, self))"

definition qualifying_sweeps :: "activation_gate \<Rightarrow> u8" where
  "qualifying_sweeps self = ag_qualifying_sweeps self"

section \<open>Specification: what a sweep must show\<close>

text \<open>
  In exact arithmetic a sweep qualifies when it reached at least twelve groups and three
  quarters of them are ready. The code's saturating products agree with it as long as
  three times the number of groups fits the machine word; a sweep samples at most 64.
\<close>

definition qualifies :: "sweep_evidence \<Rightarrow> bool" where
  "qualifies e \<longleftrightarrow> 12 \<le> unat (se_total_groups e) \<and>
     3 * unat (se_total_groups e) \<le> 4 * unat (se_ready_groups e)"

definition exact_evidence :: "sweep_evidence \<Rightarrow> bool" where
  "exact_evidence e \<longleftrightarrow> 3 * unat (se_total_groups e) < 2 ^ 64"

text \<open>The qualifying sweeps at the end of a history, and whether three of them end it.\<close>

definition qualifying_suffix :: "sweep_evidence list \<Rightarrow> nat" where
  "qualifying_suffix evs = length (takeWhile qualifies (rev evs))"

definition three_in_a_row :: "sweep_evidence list \<Rightarrow> bool" where
  "three_in_a_row evs \<longleftrightarrow>
     (\<exists>before a b c. evs = before @ [a, b, c] \<and> qualifies a \<and> qualifies b \<and> qualifies c)"

definition gate_step :: "activation_gate \<times> sweep_evidence list \<Rightarrow> sweep_evidence
    \<Rightarrow> activation_gate \<times> sweep_evidence list" where
  "gate_step s e = (snd (observe (fst s) e), snd s @ [e])"

definition gate_counts :: "activation_gate \<times> sweep_evidence list \<Rightarrow> bool" where
  "gate_counts s \<longleftrightarrow> unat (ag_qualifying_sweeps (fst s)) = min 255 (qualifying_suffix (snd s))"

definition gate_after :: "sweep_evidence list \<Rightarrow> activation_gate" where
  "gate_after evs = foldl (\<lambda>g e. snd (observe g e)) default_gate evs"

lemma qualifying_suffix_snoc [simp]:
  "qualifying_suffix (evs @ [e]) = (if qualifies e then Suc (qualifying_suffix evs) else 0)"
  by (simp add: qualifying_suffix_def)

lemma qualifying_suffix_Nil [simp]: "qualifying_suffix [] = 0"
  by (simp add: qualifying_suffix_def)

lemma three_in_a_row_last:
  "three_in_a_row (before @ [a, b, c]) \<longleftrightarrow> qualifies a \<and> qualifies b \<and> qualifies c"
  by (simp add: three_in_a_row_def)

lemma three_in_a_row_iff: "three_in_a_row evs \<longleftrightarrow> 3 \<le> qualifying_suffix evs"
proof (cases "\<exists>before a b c. evs = before @ [a, b, c]")
  case True
  then obtain before a b c where evs: "evs = before @ [a, b, c]" by blast
  have "qualifying_suffix evs = qualifying_suffix (((before @ [a]) @ [b]) @ [c])"
    by (simp add: evs)
  then show ?thesis
    unfolding qualifying_suffix_snoc by (simp add: evs three_in_a_row_last)
next
  case False
  have "length evs < 3"
  proof (rule ccontr)
    assume "\<not> length evs < 3"
    then have "3 \<le> length (rev evs)" by simp
    then obtain c b a r where "rev evs = c # b # a # r"
      by (metis Suc_le_length_iff numeral_3_eq_3)
    then have "evs = rev r @ [a, b, c]" by (simp add: rev_swap)
    with False show False by blast
  qed
  moreover have "qualifying_suffix evs \<le> length evs"
    unfolding qualifying_suffix_def using length_takeWhile_le[of qualifies "rev evs"] by simp
  ultimately show ?thesis using False by (auto simp: three_in_a_row_def)
qed

section \<open>The gate refines the specification\<close>

lemma quorum_exact:
  assumes "exact_evidence e"
  shows "saturating_mul (se_total_groups e) QUORUM_NUMERATOR
      \<le> saturating_mul (se_ready_groups e) QUORUM_DENOMINATOR \<longleftrightarrow>
    3 * unat (se_total_groups e) \<le> 4 * unat (se_ready_groups e)"
  using assms
  by (auto simp: word_le_nat_alt unat_saturating_mul activation_constants exact_evidence_def)

lemma observe_exact:
  assumes "exact_evidence e"
  shows "observe g e = (if qualifies e
    then let n = saturating_add (ag_qualifying_sweeps g) 1 in (3 \<le> n, g\<lparr>ag_qualifying_sweeps := n\<rparr>)
    else (False, g\<lparr>ag_qualifying_sweeps := 0\<rparr>))"
  unfolding observe_def Let_def quorum_exact[OF assms]
  by (simp add: qualifies_def word_le_nat_alt MIN_NETWORK_GROUPS_def REQUIRED_QUALIFYING_SWEEPS_def)

interpretation gate: safe_machine gate_step exact_evidence gate_counts
proof
  fix s e
  assume "gate_counts s" and exact: "exact_evidence e"
  then show "gate_counts (gate_step s e)"
    by (auto simp: gate_counts_def gate_step_def observe_exact[OF exact] Let_def unat_saturating_add)
qed

lemma gate_run: "foldl gate_step (g, evs0) evs = (foldl (\<lambda>g e. snd (observe g e)) g evs, evs0 @ evs)"
  by (induction evs arbitrary: g evs0) (simp_all add: gate_step_def)

lemma gate_after_counts:
  assumes "list_all exact_evidence evs"
  shows "unat (ag_qualifying_sweeps (gate_after evs)) = min 255 (qualifying_suffix evs)"
proof -
  have "gate_counts (default_gate, [])" by (simp add: gate_counts_def default_gate_def)
  from gate.run_inv[OF this assms] show ?thesis
    by (simp add: gate_run gate_counts_def gate_after_def)
qed

lemma observe_confirms_iff:
  assumes "list_all exact_evidence (evs @ [e])"
  shows "fst (observe (gate_after evs) e) \<longleftrightarrow> three_in_a_row (evs @ [e])"
proof -
  have "fst (observe (gate_after evs) e) \<longleftrightarrow> qualifies e \<and>
      3 \<le> unat (saturating_add (ag_qualifying_sweeps (gate_after evs)) 1)"
    using assms by (simp add: observe_exact Let_def word_le_nat_alt)
  with assms show ?thesis
    by (auto simp: unat_saturating_add gate_after_counts three_in_a_row_iff)
qed

text \<open>
  In whatever state the gate is, a sweep that reached fewer than twelve groups or in which more
  than a quarter of the groups is not ready never confirms and resets the count.
\<close>

lemma gate_resets:
  assumes "unat (se_ready_groups e) \<le> unat (se_total_groups e)"
    and "unat (se_total_groups e) < 12 \<or>
      unat (se_total_groups e) < 4 * (unat (se_total_groups e) - unat (se_ready_groups e))"
    and "unat (se_total_groups e) \<le> 2 ^ 62"
  shows "\<not> fst (observe g e) \<and> ag_qualifying_sweeps (snd (observe g e)) = 0"
proof -
  have "exact_evidence e" using assms(3) by (simp add: exact_evidence_def)
  moreover have "\<not> qualifies e" using assms by (auto simp: qualifies_def)
  ultimately show ?thesis by (simp add: observe_exact)
qed

text \<open>C11: Over any history of sweeps the gate's count is the number of qualifying sweeps that
  end the history, capped at 255, and the next sweep confirms the activation exactly when it
  and the two sweeps before it each reached at least twelve groups with at least three
  quarters of them ready: the gate refines the specification over histories.\<close>

theorem gate_refines_history:
  assumes "list_all exact_evidence (evs @ [e])"
  shows "unat (qualifying_sweeps (gate_after evs)) = min 255 (qualifying_suffix evs) \<and>
    (fst (observe (gate_after evs) e) \<longleftrightarrow> three_in_a_row (evs @ [e]))"
  using assms by (simp_all add: qualifying_sweeps_def gate_after_counts observe_confirms_iff)

theorem gate_refines_history_witness:
  "fst (observe (gate_after [\<lparr>se_total_groups = 12, se_ready_groups = 9\<rparr>, \<lparr>se_total_groups = 12, se_ready_groups = 9\<rparr>])
     \<lparr>se_total_groups = 64, se_ready_groups = 48\<rparr>)"
  using gate_refines_history[of "[\<lparr>se_total_groups = 12, se_ready_groups = 9\<rparr>, \<lparr>se_total_groups = 12, se_ready_groups = 9\<rparr>]"
      "\<lparr>se_total_groups = 64, se_ready_groups = 48\<rparr>"]
  by (simp add: exact_evidence_def three_in_a_row_iff qualifying_suffix_def qualifies_def)

end
