(* ===== verification/Activation_Sampling.thy ===== *)
theory Activation_Sampling
  imports Activation_Gate Peer_Servability
begin

text \<open>
  How \<open>src/crawl/activation.rs\<close> chooses the peers of one sweep: the admitted peers of the
  address book, one random peer per network group, at most 64 groups. The generator is a
  shuffler; the order in which a hash map yields its values is a parameter as well.
\<close>

section \<open>Network groups\<close>

datatype net_group = Ipv4Group "u8 list" | Ipv6Group "u16 list"

fun network_group :: "ip_addr \<Rightarrow> net_group" where
  "network_group (V4 ip) = (let octets = octets ip in Ipv4Group [octets ! 0, octets ! 1])"
| "network_group (V6 ip) = (let segments = segments ip in Ipv6Group [segments ! 0, segments ! 1])"

abbreviation group_of :: "peer_addr \<Rightarrow> net_group" where
  "group_of a \<equiv> network_group (sa_ip a)"

lemma network_group_eq_iff:
  "network_group a = network_group b \<longleftrightarrow>
     (case (a, b) of
        (V4 x, V4 y) \<Rightarrow> take 2 (octets x) = take 2 (octets y)
      | (V6 x, V6 y) \<Rightarrow> take 2 (segments x) = take 2 (segments y)
      | _ \<Rightarrow> False)"
proof -
  have "take 2 (octets x) = [octets x ! 0, octets x ! 1]" for x by (cases x) (simp add: numeral_2_eq_2)
  moreover have "take 2 (segments x) = [segments x ! 0, segments x ! 1]" for x
    by (cases x) (simp add: numeral_2_eq_2)
  ultimately show ?thesis by (simp split: ip_addr.split add: Let_def)
qed

section \<open>Sampling\<close>

text \<open>
  \<open>HashMap::entry(k).or_insert(v)\<close> on the entries in insertion order. \<open>into_values\<close>, in
  the map's own order, yields each entry's value once.
\<close>

definition or_insert :: "('k \<times> 'v) list \<Rightarrow> 'k \<Rightarrow> 'v \<Rightarrow> ('k \<times> 'v) list" where
  "or_insert m k v = (case map_of m k of Some _ \<Rightarrow> m | None \<Rightarrow> m @ [(k, v)])"

type_synonym value_order = "(net_group \<times> peer_addr) list \<Rightarrow> peer_addr list"

definition yields_values :: "value_order \<Rightarrow> bool" where
  "yields_values into_values \<longleftrightarrow> (\<forall>m. mset (into_values m) = mset (map snd m))"

definition sample_network_group_candidates ::
  "('r, peer_addr) shuffler \<Rightarrow> value_order \<Rightarrow> 'r \<Rightarrow> peer_addr list \<Rightarrow> peer_addr list \<times> 'r" where
  "sample_network_group_candidates sh into_values r candidates =
     (let (candidates, r) = sh r candidates;
          representative_by_group =
            foldl (\<lambda>m addr. or_insert m (network_group (sa_ip addr)) addr) [] candidates;
          sampled_peers = into_values representative_by_group;
          (sampled_peers, r) = sh r sampled_peers
      in (take MAX_NETWORK_GROUPS_PER_SWEEP sampled_peers, r))"

text \<open>A poisoned lock only adds a log line: the book behind it is used all the same.\<close>

definition sample_network_groups ::
  "('net, 'cache) zebra \<Rightarrow> ('book, 'meta, 'net, 'time) book_api \<Rightarrow> ('r, peer_addr) shuffler \<Rightarrow> value_order
    \<Rightarrow> 'r \<Rightarrow> 'book \<Rightarrow> 'time \<Rightarrow> 'net \<Rightarrow> version \<Rightarrow> peer_addr list \<times> 'r" where
  "sample_network_groups z api sh into_values r book now network minimum_version =
     (let candidates = map (ma_addr api)
            (filter (\<lambda>meta. is_ok (classify_peer z api book meta now network minimum_version))
              (ab_peers api book))
      in sample_network_group_candidates sh into_values r candidates)"

section \<open>One representative per group\<close>

definition represents :: "peer_addr list \<Rightarrow> (net_group \<times> peer_addr) list \<Rightarrow> bool" where
  "represents addrs m \<longleftrightarrow>
     distinct (map fst m) \<and> fst ` set m = group_of ` set addrs \<and>
     (\<forall>(g, a) \<in> set m. g = group_of a \<and> a \<in> set addrs)"

lemma represents_step:
  assumes "represents addrs m"
  shows "represents (addrs @ [a]) (or_insert m (group_of a) a)"
proof (cases "map_of m (group_of a)")
  case None
  then have "group_of a \<notin> fst ` set m" by (simp add: map_of_eq_None_iff)
  with assms None show ?thesis by (auto simp: represents_def or_insert_def)
next
  case (Some b)
  then have "group_of a \<in> fst ` set m" by (force dest: map_of_SomeD)
  with assms Some show ?thesis by (auto simp: represents_def or_insert_def)
qed

lemma represents_loop:
  "represents done m \<Longrightarrow> represents (done @ addrs) (foldl (\<lambda>m a. or_insert m (group_of a) a) m addrs)"
proof (induction addrs arbitrary: "done" m)
  case (Cons a addrs)
  from Cons.IH[OF represents_step[OF Cons.prems, of a]] show ?case by simp
qed simp

text \<open>
  A sample of some addresses: distinct groups, members of the list, and as many as there
  are groups, up to the bound.
\<close>

definition group_sample :: "peer_addr list \<Rightarrow> peer_addr list \<Rightarrow> bool" where
  "group_sample addrs out \<longleftrightarrow>
     distinct (map group_of out) \<and> set out \<subseteq> set addrs \<and>
     length out = min 64 (card (group_of ` set addrs))"

lemma represents_values:
  assumes rep: "represents addrs m" and "mset vs = mset (map snd m)"
  shows "distinct (map group_of vs) \<and> set vs \<subseteq> set addrs \<and> length vs = card (group_of ` set addrs)"
proof -
  have fst: "map group_of (map snd m) = map fst m"
    using rep by (auto simp: represents_def)
  have "mset (map group_of vs) = mset (map group_of (map snd m))"
    using assms(2) by (metis mset_map)
  then have "mset (map group_of vs) = mset (map fst m)" unfolding fst .
  then have d: "distinct (map group_of vs) \<longleftrightarrow> distinct (map fst m)" and l: "length vs = length (map fst m)"
    by (metis mset_eq_imp_distinct_iff, metis length_map mset_eq_length)
  have "length (map fst m) = card (fst ` set m)"
    using rep by (metis distinct_card list.set_map represents_def)
  moreover have "set vs = snd ` set m" using assms(2) by (metis list.set_map mset_eq_setD)
  ultimately show ?thesis using rep d l by (auto simp: represents_def)
qed

lemma candidates_sample:
  assumes "is_shuffle sh" "yields_values into_values"
  shows "group_sample candidates (fst (sample_network_group_candidates sh into_values r candidates))"
proof -
  let ?c = "fst (sh r candidates)" and ?r = "snd (sh r candidates)"
  let ?m = "foldl (\<lambda>m a. or_insert m (group_of a) a) [] ?c"
  let ?s = "fst (sh ?r (into_values ?m))"
  have "represents ?c ?m" using represents_loop[of "[]" "[]" ?c] by (simp add: represents_def)
  moreover have "mset ?s = mset (map snd ?m)"
    using assms by (simp add: shuffle_mset yields_values_def)
  ultimately have "distinct (map group_of ?s)" "set ?s \<subseteq> set ?c" "length ?s = card (group_of ` set ?c)"
    using represents_values by blast+
  moreover have "set ?c = set candidates" by (rule shuffle_set[OF assms(1)])
  ultimately show ?thesis
    by (auto simp: group_sample_def sample_network_group_candidates_def Let_def split_beta
        MAX_NETWORK_GROUPS_PER_SWEEP_def take_map[symmetric] dest: in_set_takeD)
qed

section \<open>Properties\<close>

text \<open>C26: Whatever the address book, the clock and the random choices, a sweep probes peers of
  the book that meet every serving condition at the given floor, no two of them in the same
  IPv4 \<open>/16\<close> or IPv6 \<open>/32\<close>, and as many as there are groups with an admitted peer, up to 64:
  no number of addresses in one group counts for more than one probe.\<close>

theorem sampled_groups_distinct:
  assumes "is_shuffle sh" "yields_values into_values"
  shows "let out = fst (sample_network_groups z api sh into_values r book now network v);
      admitted = filter (\<lambda>m. servable (peer_attributes_of z api book m now network v)) (ab_peers api book)
    in distinct (map (\<lambda>a. network_group (sa_ip a)) out) \<and>
       set out \<subseteq> ma_addr api ` set admitted \<and>
       length out = min 64 (card ((\<lambda>m. network_group (sa_ip (ma_addr api m))) ` set admitted))"
proof -
  have "filter (\<lambda>m. is_ok (classify_peer z api book m now network v)) ms =
      filter (\<lambda>m. servable (peer_attributes_of z api book m now network v)) ms" for ms
    by (rule filter_cong) (simp_all add: classify_peer_def result_simps classify_Inr_iff)
  then show ?thesis
    using candidates_sample[OF assms, of "map (ma_addr api)
        (filter (\<lambda>m. servable (peer_attributes_of z api book m now network v)) (ab_peers api book))" r]
    by (simp add: sample_network_groups_def group_sample_def image_image Let_def)
qed

theorem sampled_groups_distinct_witness:
  "length (fst (sample_network_groups pinned_zebra sample_book_api rotating_shuffle (map snd) 0
     sample_book 0 False 170160)) = 2"
proof -
  have servable: "filter (\<lambda>m. servable (peer_attributes_of pinned_zebra sample_book_api sample_book m 0 False 170160))
      (ab_peers sample_book_api sample_book) =
    [sample_peer 1 170190, sample_peer 2 170160, sample_book ! 3]"
    by (simp add: sample_book_defs servable_unfold routable_def)
  have "yields_values (map snd)" by (simp add: yields_values_def)
  from sampled_groups_distinct[OF is_shuffle_rotating this,
      of pinned_zebra sample_book_api 0 sample_book 0 False 170160]
  show ?thesis
    by (simp add: Let_def servable) (simp add: sample_book_defs)
qed

end
