(* ===== verification/Activation_Probe.thy ===== *)
theory Activation_Probe
  imports Activation_Sampling
begin

text \<open>
  The probes of \<open>src/crawl/activation.rs\<close>: how one handshake is classified and how the
  outcomes of a sweep become its evidence. The connection itself belongs to zebra-network:
  it is a parameter that says how long an attempt takes and what it returns. The order in
  which the tasks of a sweep complete, and which of them crash, are parameters too.
\<close>

section \<open>Outcomes\<close>

datatype probe_outcome =
    Ready
  | ConnectFailed
  | HandshakeClosed
  | HandshakeTimeout
  | HandshakeFailed
  | BelowConfirmationHeight
  | OutdatedPeerVersion
  | PeerNotFullNode
  | ProbeTaskFailed

definition ALL_OUTCOMES :: "probe_outcome list" where
  "ALL_OUTCOMES =
     [Ready, ConnectFailed, HandshakeClosed, HandshakeTimeout, HandshakeFailed,
      BelowConfirmationHeight, OutdatedPeerVersion, PeerNotFullNode, ProbeTaskFailed]"

fun outcome_label :: "probe_outcome \<Rightarrow> string" where
  "outcome_label Ready = ''ready''"
| "outcome_label ConnectFailed = ''connect_failed''"
| "outcome_label HandshakeClosed = ''handshake_closed''"
| "outcome_label HandshakeTimeout = ''handshake_timeout''"
| "outcome_label HandshakeFailed = ''handshake_failed''"
| "outcome_label BelowConfirmationHeight = ''below_confirmation_height''"
| "outcome_label OutdatedPeerVersion = ''outdated_version''"
| "outcome_label PeerNotFullNode = ''not_full_node''"
| "outcome_label ProbeTaskFailed = ''probe_task_failed''"

lemma set_ALL_OUTCOMES [simp]: "set ALL_OUTCOMES = UNIV"
proof -
  have "out \<in> set ALL_OUTCOMES" for out by (cases out) (simp_all add: ALL_OUTCOMES_def)
  then show ?thesis by blast
qed

lemma outcome_label_inject [simp]: "outcome_label x = outcome_label y \<longleftrightarrow> x = y"
  by (cases x; cases y) simp_all

section \<open>Errors of a handshake\<close>

text \<open>The variants of \<open>HandshakeError\<close> the code names, and the boxed error it looks into.\<close>

datatype handshake_error =
    Handshake_Timeout
  | Handshake_ConnectionClosed
  | Handshake_Io io_error
  | Handshake_ObsoleteVersion version
  | Handshake_UnexpectedMessage string
  | Handshake_RemoteNonceReuse
  | Handshake_LocalDuplicateNonce
  | Handshake_Serialization string
  | Handshake_MissingRequiredServices string

datatype boxed_error =
    Boxed_Elapsed
  | Boxed_Handshake handshake_error
  | Boxed_Io io_error
  | Boxed_Other string

definition downcast_handshake :: "boxed_error \<Rightarrow> handshake_error option" where
  "downcast_handshake error = (case error of Boxed_Handshake e \<Rightarrow> Some e | _ \<Rightarrow> None)"

definition is_io_error :: "boxed_error \<Rightarrow> bool" where
  "is_io_error error = (case error of Boxed_Io _ \<Rightarrow> True | _ \<Rightarrow> False)"

definition of_handshake_error :: "boxed_error \<Rightarrow> probe_outcome" where
  "of_handshake_error error =
     (if error = Boxed_Elapsed then HandshakeTimeout
      else case downcast_handshake error of
        Some e \<Rightarrow>
          (case e of
             Handshake_Timeout \<Rightarrow> HandshakeTimeout
           | Handshake_ConnectionClosed \<Rightarrow> HandshakeClosed
           | Handshake_Io _ \<Rightarrow> HandshakeClosed
           | Handshake_ObsoleteVersion _ \<Rightarrow> OutdatedPeerVersion
           | Handshake_UnexpectedMessage _ \<Rightarrow> HandshakeFailed
           | Handshake_RemoteNonceReuse \<Rightarrow> HandshakeFailed
           | Handshake_LocalDuplicateNonce \<Rightarrow> HandshakeFailed
           | Handshake_Serialization _ \<Rightarrow> HandshakeFailed
           | Handshake_MissingRequiredServices _ \<Rightarrow> HandshakeFailed)
      | None \<Rightarrow> if is_io_error error then ConnectFailed else HandshakeFailed)"

section \<open>A completed handshake\<close>

text \<open>
  \<open>PeerServices\<close> is a set of 64-bit flags; \<open>contains\<close> asks for all bits of its argument.
  The bit \<open>NODE_NETWORK\<close> is a constant of zebra-network and an argument here.
\<close>

record remote_peer =
  rp_start_height :: height
  rp_version :: version
  rp_services :: u64

definition services_contain :: "u64 \<Rightarrow> u64 \<Rightarrow> bool" where
  "services_contain services flags \<longleftrightarrow> and services flags = flags"

definition of_handshake ::
  "u64 \<Rightarrow> height \<Rightarrow> version \<Rightarrow> u64 \<Rightarrow> activation_target \<Rightarrow> probe_outcome" where
  "of_handshake node_network start_height version services target =
     (if start_height < at_confirmation_height target then BelowConfirmationHeight
      else if version < at_required_version target then OutdatedPeerVersion
      else if \<not> services_contain services node_network then PeerNotFullNode
      else Ready)"

section \<open>Probing one peer\<close>

text \<open>
  An attempt is \<open>None\<close> when it would never end, and otherwise its duration and result.
\<close>

type_synonym attempt = "(duration \<times> (boxed_error + remote_peer)) option"

text \<open>
  The world a sweep meets: how the network answers each attempt, which tasks crash with which
  join error, and the order in which the tasks complete.
\<close>

record 'net probe_world =
  pw_node_network :: u64
  pw_connect :: "'net \<Rightarrow> peer_addr \<Rightarrow> string \<Rightarrow> attempt"
  pw_crash :: "peer_addr \<Rightarrow> string option"
  pw_order :: "(string + probe_outcome) list \<Rightarrow> (string + probe_outcome) list"

definition observe_peer ::
  "('net, 'cache) zebra \<Rightarrow> 'net probe_world \<Rightarrow> 'net \<Rightarrow> peer_addr \<Rightarrow> string \<Rightarrow> activation_target
    \<Rightarrow> probe_outcome" where
  "observe_peer z w network addr user_agent target =
     (case timeout (OBSERVATION_TIMEOUT z) (pw_connect w network addr user_agent) of
        None \<Rightarrow> HandshakeTimeout
      | Some (Inl error) \<Rightarrow> of_handshake_error error
      | Some (Inr remote) \<Rightarrow>
          of_handshake (pw_node_network w) (rp_start_height remote) (rp_version remote)
            (rp_services remote) target)"

section \<open>One sweep\<close>

text \<open>
  \<open>JoinSet\<close>: the results come back in some completion order, each either the task's value
  or the join error of a task that panicked or was cancelled.
\<close>

definition completes_all :: "'net probe_world \<Rightarrow> bool" where
  "completes_all w \<longleftrightarrow> (\<forall>xs. mset (pw_order w xs) = mset xs)"

definition run_probe ::
  "('net, 'cache) zebra \<Rightarrow> 'net probe_world \<Rightarrow> 'net \<Rightarrow> string \<Rightarrow> activation_target \<Rightarrow> peer_addr
    \<Rightarrow> string + probe_outcome" where
  "run_probe z w network user_agent target addr =
     (case pw_crash w addr of
        Some error \<Rightarrow> Inl error
      | None \<Rightarrow> Inr (observe_peer z w network addr user_agent target))"

definition joined_outcome :: "string + probe_outcome \<Rightarrow> probe_outcome" where
  "joined_outcome joined = (case joined of Inl error \<Rightarrow> ProbeTaskFailed | Inr outcome \<Rightarrow> outcome)"

definition join_step ::
  "string \<Rightarrow> usize \<times> metric_op list \<Rightarrow> string + probe_outcome \<Rightarrow> usize \<times> metric_op list" where
  "join_step label s joined =
     (let (ready_groups, ops) = s;
          outcome = joined_outcome joined;
          ops = ops @ [CounterIncrement ACTIVATION_PROBES_TOTAL
                         [(LABEL_NETWORK, label), (LABEL_OUTCOME, outcome_label outcome)] 1]
      in (if outcome = Ready then ready_groups + 1 else ready_groups, ops))"

definition observe_sweep ::
  "('net, 'cache) zebra \<Rightarrow> 'net probe_world \<Rightarrow> peer_addr list \<Rightarrow> 'net \<Rightarrow> string \<Rightarrow> activation_target
    \<Rightarrow> string \<Rightarrow> sweep_evidence \<times> metric_op list" where
  "observe_sweep z w sampled_peers network user_agent target label =
     (let total_groups = of_nat (length sampled_peers);
          probes = map (run_probe z w network user_agent target) sampled_peers;
          (ready_groups, ops) = foldl (join_step label) (0, []) (pw_order w probes)
      in (\<lparr>se_total_groups = total_groups, se_ready_groups = ready_groups\<rparr>, ops))"

section \<open>What a sweep reports\<close>

text \<open>The outcome that each sampled peer contributes, and how many contribute a given one.\<close>

definition peer_outcome ::
  "('net, 'cache) zebra \<Rightarrow> 'net probe_world \<Rightarrow> 'net \<Rightarrow> string \<Rightarrow> activation_target \<Rightarrow> peer_addr
    \<Rightarrow> probe_outcome" where
  "peer_outcome z w network user_agent target addr =
     joined_outcome (run_probe z w network user_agent target addr)"

lemma join_loop:
  "foldl (join_step label) (n, ops) js =
     (n + of_nat (length (filter (\<lambda>j. joined_outcome j = Ready) js)),
      ops @ map (\<lambda>j. CounterIncrement ACTIVATION_PROBES_TOTAL
        [(LABEL_NETWORK, label), (LABEL_OUTCOME, outcome_label (joined_outcome j))] 1) js)"
  by (induction js arbitrary: n ops) (simp_all add: join_step_def)

lemma probe_counter:
  "counter_total ACTIVATION_PROBES_TOTAL [(LABEL_NETWORK, label), (LABEL_OUTCOME, outcome_label x)]
     (map (\<lambda>j. CounterIncrement ACTIVATION_PROBES_TOTAL
        [(LABEL_NETWORK, label), (LABEL_OUTCOME, outcome_label (joined_outcome j))] 1) js) =
   length (filter (\<lambda>j. joined_outcome j = x) js)"
  by (induction js) auto

lemma length_filter_mset: "mset xs = mset ys \<Longrightarrow> length (filter P xs) = length (filter P ys)"
  by (metis mset_filter size_mset)

lemma length_filter_joined:
  assumes "completes_all w"
  shows "length (filter (\<lambda>j. joined_outcome j = x) (pw_order w (map (run_probe z w network ua target) addrs))) =
    length (filter (\<lambda>a. peer_outcome z w network ua target a = x) addrs)"
proof -
  have "mset (pw_order w (map (run_probe z w network ua target) addrs)) =
      mset (map (run_probe z w network ua target) addrs)"
    using assms by (simp add: completes_all_def)
  from length_filter_mset[OF this] show ?thesis
    by (simp add: filter_map peer_outcome_def comp_def)
qed

lemma observe_sweep_evidence:
  assumes "completes_all w"
  shows "fst (observe_sweep z w addrs network ua target label) =
    \<lparr>se_total_groups = of_nat (length addrs),
     se_ready_groups = of_nat (length (filter (\<lambda>a. peer_outcome z w network ua target a = Ready) addrs))\<rparr>"
  by (simp add: observe_sweep_def join_loop Let_def length_filter_joined[OF assms])

lemma of_handshake_Ready_iff:
  "of_handshake nn h v s target = Ready \<longleftrightarrow>
     at_confirmation_height target \<le> h \<and> at_required_version target \<le> v \<and> services_contain s nn"
  by (auto simp: of_handshake_def not_less)

lemma of_handshake_error_not_ready: "of_handshake_error e \<noteq> Ready"
  by (auto simp: of_handshake_error_def split: option.splits handshake_error.splits)

text \<open>What a ready peer has shown.\<close>

definition confirms_activation ::
  "('net, 'cache) zebra \<Rightarrow> 'net probe_world \<Rightarrow> 'net \<Rightarrow> string \<Rightarrow> activation_target \<Rightarrow> peer_addr \<Rightarrow> bool" where
  "confirms_activation z w network user_agent target addr \<longleftrightarrow>
     (\<exists>elapsed remote.
        pw_connect w network addr user_agent = Some (elapsed, Inr remote) \<and>
        elapsed \<le> OBSERVATION_TIMEOUT z \<and>
        at_confirmation_height target \<le> rp_start_height remote \<and>
        at_required_version target \<le> rp_version remote \<and>
        services_contain (rp_services remote) (pw_node_network w))"

lemma observe_peer_Ready_iff:
  "observe_peer z w network addr ua target = Ready \<longleftrightarrow> confirms_activation z w network ua target addr"
  by (auto simp: observe_peer_def confirms_activation_def timeout_def of_handshake_Ready_iff
      of_handshake_error_not_ready split: option.splits sum.splits prod.splits if_splits)

lemma peer_outcome_Ready_iff:
  "peer_outcome z w network ua target addr = Ready \<longleftrightarrow>
     pw_crash w addr = None \<and> confirms_activation z w network ua target addr"
  by (auto simp: peer_outcome_def run_probe_def joined_outcome_def observe_peer_Ready_iff
      split: option.splits)

text \<open>A world for the witnesses: even last octets answer as activated full nodes, the others time out.\<close>

definition sample_world :: "bool probe_world" where
  "sample_world = \<lparr>
     pw_node_network = 1,
     pw_connect = (\<lambda>_ a _. case sa_ip a of
        V4 i \<Rightarrow> if octets i ! 3 = 3 then None
               else Some (10 ^ 9, Inr \<lparr>rp_start_height = 9000000, rp_version = 170190, rp_services = 1\<rparr>)
      | V6 _ \<Rightarrow> Some (10 ^ 9, Inl (Boxed_Io (IoError OtherKind ''refused'')))),
     pw_crash = (\<lambda>_. None),
     pw_order = rev\<rparr>"

lemma sample_world_completes: "completes_all sample_world"
  by (simp add: completes_all_def sample_world_def)

lemma services_contain_simps [simp]: "services_contain 1 1" "\<not> services_contain 0 1"
  by (simp_all add: services_contain_def)

section \<open>Properties\<close>

text \<open>C25: Whatever order the probes complete in and whichever of them crash, a sweep's evidence
  is the number of sampled peers and the number of them that completed a handshake within the
  observation timeout reporting a height at or above the confirmation height, a version at or
  above the required one and the full-node service; the ready groups never exceed the total,
  and each outcome's counter grows by exactly the peers with that outcome.\<close>

theorem sweep_evidence_exact:
  assumes "completes_all w" and "length addrs < 2 ^ 64"
  shows "let (evidence, ops) = observe_sweep z w addrs network ua target label in
    unat (se_total_groups evidence) = length addrs \<and>
    unat (se_ready_groups evidence) = length (filter (\<lambda>a. pw_crash w a = None \<and>
      confirms_activation z w network ua target a) addrs) \<and>
    se_ready_groups evidence \<le> se_total_groups evidence \<and>
    (\<forall>x. counter_total ACTIVATION_PROBES_TOTAL [(LABEL_NETWORK, label), (LABEL_OUTCOME, outcome_label x)] ops =
      length (filter (\<lambda>a. peer_outcome z w network ua target a = x) addrs))"
proof -
  let ?n = "length (filter (\<lambda>a. peer_outcome z w network ua target a = Ready) addrs)"
  have n: "?n \<le> length addrs" by (rule length_filter_le)
  have words: "unat (of_nat (length addrs) :: usize) = length addrs" "unat (of_nat ?n :: usize) = ?n"
    using assms(2) le_less_trans[OF n assms(2)] by (simp_all add: unat_of_nat_small)
  have "snd (observe_sweep z w addrs network ua target label) =
      map (\<lambda>j. CounterIncrement ACTIVATION_PROBES_TOTAL
        [(LABEL_NETWORK, label), (LABEL_OUTCOME, outcome_label (joined_outcome j))] 1)
      (pw_order w (map (run_probe z w network ua target) addrs))"
    by (simp add: observe_sweep_def join_loop Let_def)
  then have "counter_total ACTIVATION_PROBES_TOTAL [(LABEL_NETWORK, label), (LABEL_OUTCOME, outcome_label x)]
      (snd (observe_sweep z w addrs network ua target label)) =
      length (filter (\<lambda>a. peer_outcome z w network ua target a = x) addrs)" for x
    by (simp only: probe_counter length_filter_joined[OF assms(1)])
  moreover have "se_ready_groups (fst (observe_sweep z w addrs network ua target label)) \<le>
      se_total_groups (fst (observe_sweep z w addrs network ua target label))"
    using words n by (simp add: observe_sweep_evidence[OF assms(1)] word_le_nat_alt)
  ultimately show ?thesis
    using words by (simp add: split_beta Let_def observe_sweep_evidence[OF assms(1)])
      (simp add: peer_outcome_Ready_iff)
qed

theorem sweep_evidence_exact_witness:
  "unat (se_total_groups (fst (observe_sweep pinned_zebra sample_world (map fst sample_book) False
     ''/zeeder/'' (latest_target pinned_zebra False) ''mainnet''))) = 4"
proof -
  have "length (map fst sample_book) < 2 ^ 64" by (simp add: sample_book_def)
  from sweep_evidence_exact[OF sample_world_completes this,
      of pinned_zebra False "''/zeeder/''" "latest_target pinned_zebra False" "''mainnet''"]
  show ?thesis by (simp add: split_beta sample_book_def)
qed

text \<open>C36: A handshake that ends in an error is never ready, and its outcome is stable: an elapsed
  timer is a timeout whether it is zebra's own or the handshake's, a connection closed or broken
  during the handshake is closed, a peer zebra rejects as obsolete is outdated, an I/O error
  before it is a failed connection, and everything else is a failed handshake.\<close>

theorem handshake_error_outcomes:
  "of_handshake_error e \<noteq> Ready \<and>
   (of_handshake_error e = HandshakeTimeout \<longleftrightarrow> e \<in> {Boxed_Elapsed, Boxed_Handshake Handshake_Timeout}) \<and>
   (of_handshake_error e = HandshakeClosed \<longleftrightarrow>
      e = Boxed_Handshake Handshake_ConnectionClosed \<or> (\<exists>io. e = Boxed_Handshake (Handshake_Io io))) \<and>
   (of_handshake_error e = OutdatedPeerVersion \<longleftrightarrow> (\<exists>v. e = Boxed_Handshake (Handshake_ObsoleteVersion v))) \<and>
   (of_handshake_error e = ConnectFailed \<longleftrightarrow> (\<exists>io. e = Boxed_Io io)) \<and>
   of_handshake_error e \<in>
     {HandshakeTimeout, HandshakeClosed, OutdatedPeerVersion, ConnectFailed, HandshakeFailed}"
proof (cases e)
  case (Boxed_Handshake h)
  then show ?thesis by (cases h) (simp_all add: of_handshake_error_def downcast_handshake_def)
qed (simp_all add: of_handshake_error_def downcast_handshake_def is_io_error_def)

end
