(* ===== verification/Activation_Observer.thy ===== *)
theory Activation_Observer
  imports Activation_Probe
begin

text \<open>
  The observer task of \<open>src/crawl/activation.rs\<close> (\<open>spawn\<close>): what it publishes at start,
  and one pass of its loop as a step on the gate, the tip, the files and the generator. The
  interval tick only delays a pass. A pass that confirms persists the record first and raises
  the tip only when that succeeded; the task then ends.
\<close>

section \<open>The task\<close>

record ('fs, 'r) observer =
  ob_gate :: activation_gate
  ob_tip :: seeder_chain_tip
  ob_files :: 'fs
  ob_rng :: 'r
  ob_running :: bool

record ('book, 'time, 'net) sweep_input =
  si_book :: 'book
  si_now :: 'time
  si_world :: "'net probe_world"

definition start_observer ::
  "zcash_network \<Rightarrow> seeder_chain_tip \<Rightarrow> 'fs \<Rightarrow> 'r \<Rightarrow> metric_op list \<times> ('fs, 'r) observer" where
  "start_observer network tip files r =
     (let label = network_label network;
          ops = publish_observation_metrics label default_evidence 0;
          already_confirmed = is_activation_confirmed tip;
          ops = ops @ [GaugeSet ACTIVATION_CONFIRMED [(LABEL_NETWORK, label)] (of_bool already_confirmed)];
          ob = \<lparr>ob_gate = default_gate, ob_tip = tip, ob_files = files, ob_rng = r,
                ob_running = \<not> already_confirmed\<rparr>
      in if already_confirmed then (ops, ob)
         else (ops @ map (\<lambda>outcome. CounterIncrement ACTIVATION_PROBES_TOTAL
                 [(LABEL_NETWORK, label), (LABEL_OUTCOME, outcome_label outcome)] 0) ALL_OUTCOMES, ob))"

text \<open>The peers that one pass probes, and the next generator state.\<close>

definition sweep_sample ::
  "('net, 'cache) zebra \<Rightarrow> ('book, 'meta, 'net, 'time) book_api \<Rightarrow> ('r, peer_addr) shuffler \<Rightarrow> value_order
    \<Rightarrow> zcash_network \<Rightarrow> activation_target \<Rightarrow> 'r \<Rightarrow> ('book, 'time, 'net) sweep_input \<Rightarrow> peer_addr list \<times> 'r" where
  "sweep_sample z api sh into_values network target r i =
     sample_network_groups z api sh into_values r (si_book i) (si_now i) (to_zebra z network)
       (zb_min_remote_for_height z (to_zebra z network) (Some (at_pre_activation_height target)))"

definition observer_pass ::
  "('net, 'cache) zebra \<Rightarrow> ('book, 'meta, 'net, 'time) book_api \<Rightarrow> ('r, peer_addr) shuffler \<Rightarrow> value_order
    \<Rightarrow> 'fs file_system \<Rightarrow> zcash_network \<Rightarrow> string \<Rightarrow> activation_target \<Rightarrow> path option
    \<Rightarrow> ('fs, 'r) observer \<Rightarrow> ('book, 'time, 'net) sweep_input \<Rightarrow> metric_op list \<times> ('fs, 'r) observer" where
  "observer_pass z api sh into_values fs network user_agent target path ob i =
     (if \<not> ob_running ob then ([], ob)
      else
        let label = network_label network;
            (sampled_peers, r) = sweep_sample z api sh into_values network target (ob_rng ob) i;
            (evidence, probe_ops) =
              observe_sweep z (si_world i) sampled_peers (to_zebra z network) user_agent target label;
            (confirmed, gate) = observe (ob_gate ob) evidence;
            ops = probe_ops @ publish_observation_metrics label evidence (qualifying_sweeps gate);
            ob = ob\<lparr>ob_gate := gate, ob_rng := r\<rparr>
        in if \<not> confirmed then (ops, ob)
           else case persist_confirmation fs (ob_files ob) path target of
                  (Inl error, files) \<Rightarrow> (ops, ob\<lparr>ob_files := files\<rparr>)
                | (Inr _, files) \<Rightarrow>
                    (ops @
                      [GaugeSet MIN_PROTOCOL_VERSION [(LABEL_NETWORK, label)]
                         (unat (at_required_version target)),
                       GaugeSet ACTIVATION_CONFIRMED [(LABEL_NETWORK, label)] 1],
                     ob\<lparr>ob_files := files, ob_tip := confirm_activation (ob_tip ob),
                        ob_running := False\<rparr>))"

section \<open>A pass, case by case\<close>

definition pass_evidence ::
  "('net, 'cache) zebra \<Rightarrow> zcash_network \<Rightarrow> string \<Rightarrow> activation_target \<Rightarrow> peer_addr list \<times> 'net probe_world
    \<Rightarrow> sweep_evidence" where
  "pass_evidence z network user_agent target x =
     fst (observe_sweep z (snd x) (fst x) (to_zebra z network) user_agent target (network_label network))"

lemma observer_pass_stopped:
  "\<not> ob_running ob \<Longrightarrow> observer_pass z api sh iv fs network ua target path ob i = ([], ob)"
  by (simp add: observer_pass_def)

lemma observer_pass_running:
  fixes z api sh iv fs network ua target path ob i
  assumes "ob_running ob"
  defines "e \<equiv> pass_evidence z network ua target
      (fst (sweep_sample z api sh iv network target (ob_rng ob) i), si_world i)"
    and "r \<equiv> snd (sweep_sample z api sh iv network target (ob_rng ob) i)"
  shows "snd (observer_pass z api sh iv fs network ua target path ob i) =
    (let ob' = ob\<lparr>ob_gate := snd (observe (ob_gate ob) e), ob_rng := r\<rparr> in
     if \<not> fst (observe (ob_gate ob) e) then ob'
     else case persist_confirmation fs (ob_files ob) path target of
       (Inl error, files) \<Rightarrow> ob'\<lparr>ob_files := files\<rparr>
     | (Inr _, files) \<Rightarrow> ob'\<lparr>ob_files := files, ob_tip := confirm_activation (ob_tip ob), ob_running := False\<rparr>)"
  using assms(1)
  by (simp add: observer_pass_def e_def r_def pass_evidence_def Let_def split_beta split: sum.split)

section \<open>Runs with a log\<close>

text \<open>
  The log of a run pairs the peers each pass sampled with the world it met. The invariant ties
  the whole state to it: while the task runs the tip is below the activation and the gate is
  the one the logged evidence leads to; once it has ended the tip is confirmed, the files hold
  the record, and the log ends with three qualifying sweeps.
\<close>

type_synonym 'net sweep_log = "(peer_addr list \<times> 'net probe_world) list"

definition observer_laws ::
  "('r, peer_addr) shuffler \<Rightarrow> value_order \<Rightarrow> 'fs file_system \<Rightarrow> bool" where
  "observer_laws sh iv fs \<longleftrightarrow> is_shuffle sh \<and> yields_values iv \<and> file_system_laws fs"

definition logged_pass ::
  "('net, 'cache) zebra \<Rightarrow> ('book, 'meta, 'net, 'time) book_api \<Rightarrow> ('r, peer_addr) shuffler \<Rightarrow> value_order
    \<Rightarrow> 'fs file_system \<Rightarrow> zcash_network \<Rightarrow> string \<Rightarrow> activation_target \<Rightarrow> path option
    \<Rightarrow> ('fs, 'r) observer \<times> 'net sweep_log \<Rightarrow> ('book, 'time, 'net) sweep_input
    \<Rightarrow> ('fs, 'r) observer \<times> 'net sweep_log" where
  "logged_pass z api sh iv fs network ua target path s i =
     (snd (observer_pass z api sh iv fs network ua target path (fst s) i),
      if ob_running (fst s)
      then snd s @ [(fst (sweep_sample z api sh iv network target (ob_rng (fst s)) i), si_world i)]
      else snd s)"

definition sampled_well :: "peer_addr list \<times> 'net probe_world \<Rightarrow> bool" where
  "sampled_well x \<longleftrightarrow> distinct (map group_of (fst x)) \<and> length (fst x) \<le> 64 \<and> completes_all (snd x)"

definition observer_inv ::
  "('net, 'cache) zebra \<Rightarrow> 'fs file_system \<Rightarrow> zcash_network \<Rightarrow> string \<Rightarrow> activation_target \<Rightarrow> path option
    \<Rightarrow> ('fs, 'r) observer \<times> 'net sweep_log \<Rightarrow> bool" where
  "observer_inv z fs network ua target path s \<longleftrightarrow>
     (let (ob, log) = s; evs = map (pass_evidence z network ua target) log in
      list_all sampled_well log \<and>
      (if ob_running ob
       then ob_gate ob = gate_after evs \<and> \<not> is_activation_confirmed (ob_tip ob)
       else is_activation_confirmed (ob_tip ob) \<and> load_confirmation fs (ob_files ob) path target \<and>
         three_in_a_row evs))"

lemma sweep_sample_well:
  assumes "is_shuffle sh" "yields_values iv" "completes_all (si_world i)"
  shows "sampled_well (fst (sweep_sample z api sh iv network target r i), si_world i)"
  using candidates_sample[OF assms(1,2)] assms(3)
  by (simp add: sampled_well_def sweep_sample_def sample_network_groups_def group_sample_def Let_def)

lemma pass_evidence_exact:
  assumes "sampled_well x"
  shows "exact_evidence (pass_evidence z network ua target x)"
proof -
  have "length (fst x) \<le> 64" "completes_all (snd x)" using assms by (simp_all add: sampled_well_def)
  then show ?thesis
    by (simp add: pass_evidence_def observe_sweep_evidence exact_evidence_def unat_of_nat_small)
qed

lemma gate_after_snoc: "gate_after (evs @ [e]) = snd (observe (gate_after evs) e)"
  by (simp add: gate_after_def)

lemma observer_inv_step:
  assumes laws: "observer_laws sh iv fs" and world: "completes_all (si_world i)"
    and inv: "observer_inv z fs network ua target path s"
  shows "observer_inv z fs network ua target path
    (logged_pass z api sh iv fs network ua target path s i)"
proof (cases s)
  case (Pair ob log)
  show ?thesis
  proof (cases "ob_running ob")
    case False
    with inv show ?thesis by (simp add: Pair logged_pass_def observer_pass_stopped)
  next
    case True
    let ?x = "(fst (sweep_sample z api sh iv network target (ob_rng ob) i), si_world i)"
    let ?evs = "map (pass_evidence z network ua target) log"
    let ?e = "pass_evidence z network ua target ?x"
    have well: "sampled_well ?x" using laws world by (simp add: observer_laws_def sweep_sample_well)
    from inv True have log: "list_all sampled_well log"
      and gate: "ob_gate ob = gate_after ?evs" and tip: "\<not> is_activation_confirmed (ob_tip ob)"
      by (simp_all add: Pair observer_inv_def Let_def)
    have "list_all exact_evidence (?evs @ [?e])"
      using log well by (simp add: list_all_iff pass_evidence_exact)
    then have confirms: "fst (observe (gate_after ?evs) ?e) \<longleftrightarrow> three_in_a_row (?evs @ [?e])"
      by (rule observe_confirms_iff)
    have reload: "load_confirmation fs files path target"
      if "persist_confirmation fs (ob_files ob) path target = (Inr u, files)" for u files
      using laws that by (auto simp: observer_laws_def intro: store.reload)
    show ?thesis
      using log well tip confirms reload
      by (auto simp: Pair logged_pass_def observer_inv_def observer_pass_running[OF True] True gate
          gate_after_snoc Let_def split: sum.split prod.split)
  qed
qed

interpretation observer: monotone_machine
  "logged_pass z api sh iv fs network ua target path"
  "\<lambda>i. observer_laws sh iv fs \<and> completes_all (si_world i)"
  "observer_inv z fs network ua target path"
  "\<lambda>s. ct_watched_height (ob_tip (fst s))"
  for z :: "('net, 'cache) zebra" and api :: "('book, 'meta, 'net, 'time) book_api"
    and sh :: "('r, peer_addr) shuffler" and iv and fs :: "'fs file_system"
    and network ua target path
proof
  fix s :: "('fs, 'r) observer \<times> 'net sweep_log" and i :: "('book, 'time, 'net) sweep_input"
  assume inv: "observer_inv z fs network ua target path s"
    and good: "observer_laws sh iv fs \<and> completes_all (si_world i)"
  show "observer_inv z fs network ua target path (logged_pass z api sh iv fs network ua target path s i)"
    using observer_inv_step good inv by blast
  show "ct_watched_height (ob_tip (fst s)) \<le>
      ct_watched_height (ob_tip (fst (logged_pass z api sh iv fs network ua target path s i)))"
    by (cases "ob_running (fst s)")
      (auto simp: logged_pass_def observer_pass_stopped observer_pass_running Let_def confirm_raises
        split: sum.split prod.split)
qed

section \<open>Runs from the start of the task\<close>

definition observer_run ::
  "('net, 'cache) zebra \<Rightarrow> ('book, 'meta, 'net, 'time) book_api \<Rightarrow> ('r, peer_addr) shuffler \<Rightarrow> value_order
    \<Rightarrow> 'fs file_system \<Rightarrow> zcash_network \<Rightarrow> string \<Rightarrow> activation_target \<Rightarrow> path option
    \<Rightarrow> ('fs, 'r) observer \<Rightarrow> ('book, 'time, 'net) sweep_input list \<Rightarrow> ('fs, 'r) observer" where
  "observer_run z api sh iv fs network ua target path ob is =
     foldl (\<lambda>ob i. snd (observer_pass z api sh iv fs network ua target path ob i)) ob is"

definition observer_log ::
  "('net, 'cache) zebra \<Rightarrow> ('book, 'meta, 'net, 'time) book_api \<Rightarrow> ('r, peer_addr) shuffler \<Rightarrow> value_order
    \<Rightarrow> 'fs file_system \<Rightarrow> zcash_network \<Rightarrow> string \<Rightarrow> activation_target \<Rightarrow> path option
    \<Rightarrow> ('fs, 'r) observer \<Rightarrow> ('book, 'time, 'net) sweep_input list \<Rightarrow> 'net sweep_log" where
  "observer_log z api sh iv fs network ua target path ob is =
     snd (foldl (logged_pass z api sh iv fs network ua target path) (ob, []) is)"

lemma logged_run:
  "foldl (logged_pass z api sh iv fs network ua target path) (ob, []) is =
     (observer_run z api sh iv fs network ua target path ob is,
      observer_log z api sh iv fs network ua target path ob is)"
proof -
  have "fst (foldl (logged_pass z api sh iv fs network ua target path) s is) =
      observer_run z api sh iv fs network ua target path (fst s) is" for s
    by (induction "is" arbitrary: s) (simp_all add: observer_run_def logged_pass_def)
  from this[of "(ob, [])"] show ?thesis by (simp add: observer_log_def prod_eq_iff)
qed

lemma observer_log_snoc:
  "observer_log z api sh iv fs network ua target path ob (is @ [i]) =
     observer_log z api sh iv fs network ua target path ob is @
     (let ob' = observer_run z api sh iv fs network ua target path ob is in
      if ob_running ob' then [(fst (sweep_sample z api sh iv network target (ob_rng ob') i), si_world i)] else [])"
proof -
  have "observer_log z api sh iv fs network ua target path ob (is @ [i]) =
      snd (logged_pass z api sh iv fs network ua target path
        (foldl (logged_pass z api sh iv fs network ua target path) (ob, []) is) i)"
    by (simp add: observer_log_def)
  then show ?thesis unfolding logged_run by (simp add: logged_pass_def Let_def)
qed

lemma start_observer_fields [simp]:
  "ob_tip (snd (start_observer network tip files r)) = tip"
  "ob_files (snd (start_observer network tip files r)) = files"
  "ob_gate (snd (start_observer network tip files r)) = default_gate"
  "ob_running (snd (start_observer network tip files r)) \<longleftrightarrow> \<not> is_activation_confirmed tip"
  by (simp_all add: start_observer_def Let_def)

lemma observer_run_inv:
  fixes "is" :: "('book, 'time, 'net) sweep_input list" and network tip files r
  assumes "observer_laws sh iv fs" "list_all (\<lambda>i. completes_all (si_world i)) is"
    and "\<not> is_activation_confirmed tip"
  defines "ob0 \<equiv> snd (start_observer network tip files r)"
  shows "observer_inv z fs network ua target path
    (observer_run z api sh iv fs network ua target path ob0 is,
     observer_log z api sh iv fs network ua target path ob0 is)"
proof -
  have "observer_inv z fs network ua target path (ob0, [])"
    using assms(3) by (simp add: observer_inv_def ob0_def gate_after_def Let_def)
  moreover have "list_all (\<lambda>i. observer_laws sh iv fs \<and> completes_all (si_world i)) is"
    using assms(1,2) by (simp add: list_all_iff)
  ultimately show ?thesis unfolding logged_run[symmetric] by (rule observer.run_inv)
qed

text \<open>A pass that completes three convincing passes confirms as soon as the record is written.\<close>

lemma pass_confirms:
  assumes laws: "observer_laws sh iv fs" "completes_all (si_world i)"
    and inv: "observer_inv z fs network ua target path (ob, log)" and run: "ob_running ob"
    and row: "three_in_a_row (map (pass_evidence z network ua target)
      (snd (logged_pass z api sh iv fs network ua target path (ob, log) i)))"
    and written: "fst (persist_confirmation fs (ob_files ob) path target) = Inr ()"
  shows "ob_tip (snd (observer_pass z api sh iv fs network ua target path ob i)) = confirm_activation (ob_tip ob) \<and>
    \<not> ob_running (snd (observer_pass z api sh iv fs network ua target path ob i))"
proof -
  let ?x = "(fst (sweep_sample z api sh iv network target (ob_rng ob) i), si_world i)"
  let ?evs = "map (pass_evidence z network ua target) log"
  from inv run have "list_all sampled_well log" and gate: "ob_gate ob = gate_after ?evs"
    by (simp_all add: observer_inv_def Let_def)
  moreover have "sampled_well ?x" using laws by (simp add: observer_laws_def sweep_sample_well)
  ultimately have "list_all exact_evidence (?evs @ [pass_evidence z network ua target ?x])"
    by (simp add: list_all_iff pass_evidence_exact)
  from observe_confirms_iff[OF this] row run
  have "fst (observe (gate_after ?evs) (pass_evidence z network ua target ?x))"
    by (simp add: logged_pass_def)
  with written show ?thesis
    by (cases "persist_confirmation fs (ob_files ob) path target")
      (simp add: observer_pass_running[OF run] gate)
qed

section \<open>Properties\<close>

text \<open>
  A pass is convincing when it probed at least twelve peers, no two in one network group, and
  at least three quarters of them completed a timely handshake that shows the activation
  buried.
\<close>

definition convincing ::
  "('net, 'cache) zebra \<Rightarrow> 'net \<Rightarrow> string \<Rightarrow> activation_target \<Rightarrow> peer_addr list \<times> 'net probe_world \<Rightarrow> bool" where
  "convincing z network ua target x \<longleftrightarrow>
     12 \<le> length (fst x) \<and> distinct (map (\<lambda>a. network_group (sa_ip a)) (fst x)) \<and>
     3 * length (fst x) \<le>
       4 * length (filter (\<lambda>a. pw_crash (snd x) a = None \<and> confirms_activation z (snd x) network ua target a) (fst x))"

lemma qualifies_convincing:
  assumes "sampled_well x"
  shows "qualifies (pass_evidence z network ua target x) \<longleftrightarrow> convincing z (to_zebra z network) ua target x"
proof -
  let ?n = "\<lambda>P. length (filter P (fst x))"
  have well: "length (fst x) \<le> 64" "completes_all (snd x)" "distinct (map group_of (fst x))"
    using assms by (simp_all add: sampled_well_def)
  have "?n P < 2 ^ 64" for P
    by (rule le_less_trans[OF le_trans[OF length_filter_le well(1)]]) simp
  with well show ?thesis
    by (simp add: pass_evidence_def observe_sweep_evidence qualifies_def convincing_def unat_of_nat_small
        peer_outcome_Ready_iff)
qed

text \<open>C7: The floor is never raised without a durable record and never without evidence: over any
  run of the observer from an unconfirmed tip, if the tip is confirmed at the end then loading
  the confirmation record from the files accepts the target, and the last three passes were
  convincing ones: twelve or more peers of distinct network groups, three quarters of them
  showing the activation buried.\<close>

theorem confirmed_only_with_record_and_evidence:
  assumes "observer_laws sh iv fs" and "list_all (\<lambda>i. completes_all (si_world i)) is"
    and "\<not> is_activation_confirmed tip"
    and "ob0 = snd (start_observer network tip files r)"
    and "is_activation_confirmed (ob_tip (observer_run z api sh iv fs network ua target path ob0 is))"
  shows "load_confirmation fs (ob_files (observer_run z api sh iv fs network ua target path ob0 is)) path target \<and>
    (\<exists>before a b c. observer_log z api sh iv fs network ua target path ob0 is = before @ [a, b, c] \<and>
      convincing z (to_zebra z network) ua target a \<and> convincing z (to_zebra z network) ua target b \<and>
      convincing z (to_zebra z network) ua target c)"
proof -
  let ?ob = "observer_run z api sh iv fs network ua target path ob0 is"
  let ?log = "observer_log z api sh iv fs network ua target path ob0 is"
  have inv: "observer_inv z fs network ua target path (?ob, ?log)"
    unfolding assms(4) by (rule observer_run_inv[OF assms(1-3)])
  with assms(5) have "list_all sampled_well ?log"
    and load: "load_confirmation fs (ob_files ?ob) path target"
    and "three_in_a_row (map (pass_evidence z network ua target) ?log)"
    by (auto simp: observer_inv_def Let_def split: if_splits)
  then obtain before a b c where "?log = before @ [a, b, c]"
    and "qualifies (pass_evidence z network ua target a)" "qualifies (pass_evidence z network ua target b)"
      "qualifies (pass_evidence z network ua target c)"
    by (auto simp: three_in_a_row_def map_eq_append_conv)
  with \<open>list_all sampled_well ?log\<close> load show ?thesis
    by (auto simp: qualifies_convincing)
qed

text \<open>
  A run for the witnesses: twelve activated peers in twelve groups, met by three passes, with
  a generator that keeps the order.
\<close>

definition keep_order :: "(nat, 'a) shuffler" where
  "keep_order r xs = (xs, Suc r)"

definition wide_book :: "sample_meta list" where
  "wide_book = map (\<lambda>n. (mk_addr (V4 (Ipv4Addr 20 n 9 9)) 8233, Some 170160, True, 0))
     [20, 21, 22, 23, 24, 25, 26, 27, 28, 29, 30, 31]"

definition sample_pass :: "(sample_meta list, nat, bool) sweep_input" where
  "sample_pass = \<lparr>si_book = wide_book, si_now = 0, si_world = sample_world\<rparr>"

definition sample_target :: activation_target where
  "sample_target = latest_target pinned_zebra (to_zebra pinned_zebra Mainnet)"

definition sample_start :: "((path \<times> string) list, nat) observer" where
  "sample_start = snd (start_observer Mainnet (new_tip sample_target False) [] 0)"

lemma keep_order_laws: "observer_laws keep_order (map snd) sample_files"
  by (simp add: observer_laws_def is_shuffle_def keep_order_def yields_values_def sample_files_laws)

lemma sample_target_eval:
  "sample_target = \<lparr>at_activation_height = 3543405, at_confirmation_height = 3544405,
     at_pre_activation_height = 3543404, at_required_version = 170190\<rparr>"
  by (simp add: sample_target_def latest_target_def pinned_zebra_simps saturating_add_def Let_def)

lemma wide_peer:
  "m \<in> set wide_book \<Longrightarrow> \<exists>n. m = (mk_addr (V4 (Ipv4Addr 20 n 9 9)) 8233, Some 170160, True, 0)"
  by (auto simp: wide_book_def)

lemma wide_score: "ab_misbehavior_score sample_book_api wide_book a = 0"
proof (cases "map_of wide_book a")
  case (Some x)
  from wide_peer[OF map_of_SomeD[OF this]] Some show ?thesis by (auto simp: sample_book_api_def)
qed (simp add: sample_book_api_def)

lemma or_insert_distinct:
  "distinct (map group_of (xs @ ys)) \<Longrightarrow>
     foldl (\<lambda>m a. or_insert m (group_of a) a) (map (\<lambda>a. (group_of a, a)) xs) ys =
       map (\<lambda>a. (group_of a, a)) (xs @ ys)"
proof (induction ys arbitrary: xs)
  case (Cons y ys)
  have "or_insert (map (\<lambda>a. (group_of a, a)) xs) (group_of y) y = map (\<lambda>a. (group_of a, a)) (xs @ [y])"
    using Cons.prems by (auto simp: or_insert_def map_of_eq_None_iff split: option.split dest!: map_of_SomeD)
  with Cons.IH[of "xs @ [y]"] Cons.prems show ?case by simp
qed simp

lemma sample_sampled:
  "fst (sweep_sample pinned_zebra sample_book_api keep_order (map snd) Mainnet sample_target r sample_pass) =
     map fst wide_book"
proof -
  have "classify_peer pinned_zebra sample_book_api wide_book m 0 False 170160 = Inr ()"
    if "m \<in> set wide_book" for m
    using wide_peer[OF that]
    by (auto simp: classify_peer_def classify_def peer_attributes_of_def wide_score pinned_zebra_simps
        is_none_or_def sample_book_simps Let_def)
  then have "filter (\<lambda>m. is_ok (classify_peer pinned_zebra sample_book_api wide_book m 0 False 170160)) wide_book = wide_book"
    by (simp add: filter_id_conv)
  then have kept: "sweep_sample pinned_zebra sample_book_api keep_order (map snd) Mainnet sample_target r sample_pass =
      sample_network_group_candidates keep_order (map snd) r (map fst wide_book)"
    by (simp add: sweep_sample_def sample_pass_def sample_network_groups_def pinned_zebra_simps
        sample_target_eval sample_book_simps)
  have "distinct (map group_of (map fst wide_book))" "length (map fst wide_book) = 12"
    by (simp_all add: wide_book_def)
  with or_insert_distinct[of "[]" "map fst wide_book"] show ?thesis
    unfolding kept
    by (simp add: sample_network_group_candidates_def keep_order_def MAX_NETWORK_GROUPS_PER_SWEEP_def comp_def)
qed

lemma sample_evidence:
  "pass_evidence pinned_zebra Mainnet ua sample_target (map fst wide_book, sample_world) =
     \<lparr>se_total_groups = 12, se_ready_groups = 12\<rparr>"
proof -
  have "peer_outcome pinned_zebra sample_world False ua sample_target a = Ready"
    if "a \<in> set (map fst wide_book)" for a
    using that
    by (auto dest!: wide_peer simp: peer_outcome_Ready_iff confirms_activation_def sample_world_def
        sample_target_eval OBSERVATION_TIMEOUT_def duration_saturating_mul_def DURATION_MAX_def pinned_zebra_simps)
  then have "filter (\<lambda>a. peer_outcome pinned_zebra sample_world False ua sample_target a = Ready)
      (map fst wide_book) = map fst wide_book"
    by (simp add: filter_id_conv)
  then show ?thesis
    by (simp add: pass_evidence_def observe_sweep_evidence[OF sample_world_completes] pinned_zebra_simps)
      (simp add: wide_book_def)
qed

lemma sample_new_tip: "\<not> is_activation_confirmed (new_tip sample_target False)"
  by (simp add: sample_target_eval new_tip_def is_activation_confirmed_def)

lemma sample_pass_step:
  assumes "ob_running ob"
  shows "\<exists>r. snd (observer_pass pinned_zebra sample_book_api keep_order (map snd) sample_files Mainnet ua
      sample_target (Some p) ob sample_pass) =
    (let g = observe (ob_gate ob) \<lparr>se_total_groups = 12, se_ready_groups = 12\<rparr>;
         ob' = ob\<lparr>ob_gate := snd g, ob_rng := r\<rparr>
     in if \<not> fst g then ob'
        else case persist_confirmation sample_files (ob_files ob) (Some p) sample_target of
          (Inl error, files) \<Rightarrow> ob'\<lparr>ob_files := files\<rparr>
        | (Inr _, files) \<Rightarrow>
            ob'\<lparr>ob_files := files, ob_tip := confirm_activation (ob_tip ob), ob_running := False\<rparr>)"
  using observer_pass_running[OF assms, of pinned_zebra sample_book_api keep_order "map snd" sample_files
      Mainnet ua sample_target "Some p" sample_pass]
  by (simp add: sample_sampled sample_pass_def[THEN arg_cong, of si_world, simplified] sample_evidence Let_def)
    blast

lemma observe_full_sweep:
  "unat (ag_qualifying_sweeps g) < 255 \<Longrightarrow>
   observe g \<lparr>se_total_groups = 12, se_ready_groups = 12\<rparr> =
     (3 \<le> ag_qualifying_sweeps g + 1, \<lparr>ag_qualifying_sweeps = ag_qualifying_sweeps g + 1\<rparr>)"
  by (subst observe_exact)
    (simp_all add: exact_evidence_def qualifies_def saturating_add_def Let_def)

abbreviation sample_run :: "(sample_meta list, nat, bool) sweep_input list \<Rightarrow> ((path \<times> string) list, nat) observer" where
  "sample_run is \<equiv> observer_run pinned_zebra sample_book_api keep_order (map snd) sample_files Mainnet
     ''/zeeder/'' sample_target (Some [''c'']) sample_start is"

lemma sample_run_snoc:
  "sample_run (is @ [sample_pass]) = snd (observer_pass pinned_zebra sample_book_api keep_order (map snd)
     sample_files Mainnet ''/zeeder/'' sample_target (Some [''c'']) (sample_run is) sample_pass)"
  by (simp add: observer_run_def)

lemma sample_start_running: "ob_running sample_start" "ob_gate sample_start = default_gate"
  by (simp_all add: sample_start_def sample_new_tip)

lemma sample_run_one:
  "\<exists>r. sample_run [sample_pass] = sample_start\<lparr>ob_gate := \<lparr>ag_qualifying_sweeps = 1\<rparr>, ob_rng := r\<rparr>"
proof -
  have less: "\<not> (3 :: u8) \<le> 1" by (simp add: word_le_nat_alt)
  have "sample_run [] = sample_start" by (simp add: observer_run_def)
  with sample_run_snoc[of "[]"] sample_pass_step[OF sample_start_running(1), of "''/zeeder/''" "[''c'']"]
  show ?thesis by (auto simp: sample_start_running observe_full_sweep default_gate_def less)
qed

lemma sample_run_two:
  "\<exists>r. sample_run [sample_pass, sample_pass] =
     sample_start\<lparr>ob_gate := \<lparr>ag_qualifying_sweeps = 2\<rparr>, ob_rng := r\<rparr>"
proof -
  obtain r1 where 1: "sample_run [sample_pass] =
      sample_start\<lparr>ob_gate := \<lparr>ag_qualifying_sweeps = 1\<rparr>, ob_rng := r1\<rparr>"
    using sample_run_one by blast
  then have "ob_running (sample_run [sample_pass])" by (simp add: sample_start_running)
  from sample_pass_step[OF this, of "''/zeeder/''" "[''c'']"] sample_run_snoc[of "[sample_pass]"]
  show ?thesis by (auto simp: 1 observe_full_sweep)
qed

lemma sample_persist:
  "persist_confirmation sample_files files (Some [''c'']) t = (Inr (), ([''c''], confirmation_record t) # files)"
  by (simp add: persist_confirmation_def sample_files_def)

lemma sample_run_confirms:
  "is_activation_confirmed (ob_tip (sample_run [sample_pass, sample_pass, sample_pass]))"
proof -
  obtain r2 where 2: "sample_run [sample_pass, sample_pass] =
      sample_start\<lparr>ob_gate := \<lparr>ag_qualifying_sweeps = 2\<rparr>, ob_rng := r2\<rparr>"
    using sample_run_two by blast
  then have "ob_running (sample_run [sample_pass, sample_pass])" by (simp add: sample_start_running)
  from sample_pass_step[OF this, of "''/zeeder/''" "[''c'']"] sample_run_snoc[of "[sample_pass, sample_pass]"]
  show ?thesis by (auto simp: 2 observe_full_sweep sample_persist)
qed

theorem confirmed_only_with_record_and_evidence_witness:
  "load_confirmation sample_files (ob_files (sample_run [sample_pass, sample_pass, sample_pass]))
     (Some [''c'']) sample_target"
proof -
  have "list_all (\<lambda>i. completes_all (si_world i)) [sample_pass, sample_pass, sample_pass]"
    by (simp add: sample_pass_def sample_world_completes)
  from confirmed_only_with_record_and_evidence[OF keep_order_laws this sample_new_tip sample_start_def
      sample_run_confirms]
  show ?thesis by blast
qed

text \<open>The floor never falls: from any start, over any run of the observer, the height the tip
  reports, and with it the protocol floor zebra derives from that height, is at the end at
  least what it was at the beginning; and a crash at any point loses nothing, since a tip built
  anew from the files left behind is confirmed whenever the running one was.\<close>

theorem floor_monotone_and_durable:
  assumes "observer_laws sh iv fs" and "list_all (\<lambda>i. completes_all (si_world i)) is"
    and "chain_laws z (to_zebra z network)" and "target = latest_target z (to_zebra z network)"
    and "tip = new_tip target (load_confirmation fs files path target)"
    and "ob0 = snd (start_observer network tip files r)"
  shows "let ob = observer_run z api sh iv fs network ua target path ob0 is;
      restarted = new_tip target (load_confirmation fs (ob_files ob) path target)
    in protocol_floor z (to_zebra z network) tip \<le> protocol_floor z (to_zebra z network) (ob_tip ob) \<and>
       (is_activation_confirmed (ob_tip ob) \<longrightarrow> is_activation_confirmed restarted)"
proof -
  let ?ob = "observer_run z api sh iv fs network ua target path ob0 is"
  have conf: "is_activation_confirmed (new_tip target c) \<longleftrightarrow> c" for c
    unfolding assms(4) by (rule new_tip_confirmed_iff[OF assms(3)])
  have start: "ob_tip ob0 = tip" "ob_files ob0 = files" "ob_running ob0 \<longleftrightarrow> \<not> is_activation_confirmed tip"
    by (simp_all add: assms(6))
  have "ct_watched_height tip \<le> ct_watched_height (ob_tip ?ob) \<and>
      (is_activation_confirmed (ob_tip ?ob) \<longrightarrow> load_confirmation fs (ob_files ?ob) path target)"
  proof (cases "is_activation_confirmed tip")
    case True
    then have "\<not> ob_running ob0" by (simp add: start)
    then have "?ob = ob0"
      by (induction "is") (simp_all add: observer_run_def observer_pass_stopped)
    moreover have "load_confirmation fs files path target"
      using True by (simp add: assms(5) conf)
    ultimately show ?thesis by (simp add: start)
  next
    case False
    have good: "list_all (\<lambda>i. observer_laws sh iv fs \<and> completes_all (si_world i)) is"
      using assms(1,2) by (simp add: list_all_iff)
    have "observer_inv z fs network ua target path (ob0, [])"
      using False by (simp add: observer_inv_def assms(6) gate_after_def Let_def)
    from observer.run_level[OF this good] have "ct_watched_height tip \<le> ct_watched_height (ob_tip ?ob)"
      by (simp add: logged_run start)
    moreover have "is_activation_confirmed (ob_tip ?ob) \<Longrightarrow> load_confirmation fs (ob_files ?ob) path target"
      using observer_run_inv[OF assms(1,2) False, where network = network and files = files and r = r
          and z = z and ua = ua and target = target and path = path and api = api]
      by (auto simp: observer_inv_def assms(6) Let_def split: if_splits)
    ultimately show ?thesis by blast
  qed
  then show ?thesis
    by (simp add: Let_def conf floor_mono[OF assms(3)])
qed

theorem floor_monotone_and_durable_witness:
  "is_activation_confirmed (new_tip sample_target (load_confirmation sample_files
     (ob_files (sample_run [sample_pass, sample_pass, sample_pass])) (Some [''c'']) sample_target))"
proof -
  have worlds: "list_all (\<lambda>i. completes_all (si_world i)) [sample_pass, sample_pass, sample_pass]"
    by (simp add: sample_pass_def sample_world_completes)
  have tip: "new_tip sample_target False =
      new_tip sample_target (load_confirmation sample_files [] (Some [''c'']) sample_target)"
    by (simp add: load_confirmation_def sample_files_def)
  from floor_monotone_and_durable[OF keep_order_laws worlds pinned_chain_laws sample_target_def tip sample_start_def]
    sample_run_confirms
  show ?thesis unfolding Let_def by blast
qed

text \<open>C20: The observer does decide: when its log ends with three convincing passes, the last of
  them run while the task was still going and the record could be written, then the tip is
  confirmed and the task has ended.\<close>

theorem three_convincing_passes_confirm:
  assumes "observer_laws sh iv fs" and "list_all (\<lambda>i. completes_all (si_world i)) (is @ [i])"
    and "\<not> is_activation_confirmed tip"
    and "ob0 = snd (start_observer network tip files r)"
    and "ob = observer_run z api sh iv fs network ua target path ob0 is" and "ob_running ob"
    and "observer_log z api sh iv fs network ua target path ob0 (is @ [i]) = before @ [a, b, c]"
    and "convincing z (to_zebra z network) ua target a" "convincing z (to_zebra z network) ua target b"
      "convincing z (to_zebra z network) ua target c"
    and "fst (persist_confirmation fs (ob_files ob) path target) = Inr ()"
  shows "is_activation_confirmed (ob_tip (observer_run z api sh iv fs network ua target path ob0 (is @ [i]))) \<and>
    \<not> ob_running (observer_run z api sh iv fs network ua target path ob0 (is @ [i]))"
proof -
  let ?log = "observer_log z api sh iv fs network ua target path ob0"
  have "list_all (\<lambda>i. completes_all (si_world i)) is" using assms(2) by simp
  from observer_run_inv[OF assms(1) this assms(3)]
  have inv: "observer_inv z fs network ua target path (ob, ?log is)"
    by (simp add: assms(4,5))
  have "observer_inv z fs network ua target path
      (observer_run z api sh iv fs network ua target path ob0 (is @ [i]), ?log (is @ [i]))"
    using observer_run_inv[OF assms(1,2,3)] by (simp add: assms(4))
  then have "list_all sampled_well (?log (is @ [i]))" by (simp add: observer_inv_def Let_def)
  then have "sampled_well a" "sampled_well b" "sampled_well c" unfolding assms(7) by simp_all
  with assms(8-10) have "three_in_a_row (map (pass_evidence z network ua target) (?log (is @ [i])))"
    unfolding assms(7) by (simp add: three_in_a_row_last qualifies_convincing)
  moreover have "?log (is @ [i]) =
      snd (logged_pass z api sh iv fs network ua target path (ob, ?log is) i)"
    by (simp add: observer_log_snoc logged_pass_def assms(5) Let_def)
  ultimately have row: "three_in_a_row (map (pass_evidence z network ua target)
      (snd (logged_pass z api sh iv fs network ua target path (ob, ?log is) i)))"
    by (rule subst[rotated])
  have pass: "observer_run z api sh iv fs network ua target path ob0 (is @ [i]) =
      snd (observer_pass z api sh iv fs network ua target path ob i)"
    by (simp add: observer_run_def assms(5))
  have "completes_all (si_world i)" using assms(2) by simp
  from pass_confirms[OF assms(1) this inv assms(6) row assms(11)] show ?thesis
    unfolding pass by simp
qed

lemma sample_log_snoc:
  assumes "ob_running (sample_run is)"
  shows "observer_log pinned_zebra sample_book_api keep_order (map snd) sample_files Mainnet ''/zeeder/''
      sample_target (Some [''c'']) sample_start (is @ [sample_pass]) =
    observer_log pinned_zebra sample_book_api keep_order (map snd) sample_files Mainnet ''/zeeder/''
      sample_target (Some [''c'']) sample_start is @ [(map fst wide_book, sample_world)]"
  using assms by (simp add: observer_log_snoc sample_sampled) (simp add: sample_pass_def)

lemma sample_convincing:
  "convincing pinned_zebra (to_zebra pinned_zebra Mainnet) ua sample_target (map fst wide_book, sample_world)"
proof -
  have well: "sampled_well (map fst wide_book, sample_world)"
    by (simp add: sampled_well_def sample_world_completes) (simp add: wide_book_def)
  show ?thesis
    unfolding qualifies_convincing[OF well, symmetric] sample_evidence by (simp add: qualifies_def)
qed

theorem three_convincing_passes_confirm_witness:
  "\<not> ob_running (sample_run [sample_pass, sample_pass, sample_pass])"
proof -
  let ?x = "(map fst wide_book, sample_world)"
  have run: "ob_running (sample_run [])" "ob_running (sample_run [sample_pass])"
    "ob_running (sample_run [sample_pass, sample_pass])"
    using sample_run_one sample_run_two sample_start_running by (auto simp: observer_run_def)
  have "observer_log pinned_zebra sample_book_api keep_order (map snd) sample_files Mainnet ''/zeeder/''
      sample_target (Some [''c'']) sample_start ([sample_pass, sample_pass] @ [sample_pass]) = [] @ [?x, ?x, ?x]"
    using sample_log_snoc[OF run(1)] sample_log_snoc[OF run(2)] sample_log_snoc[OF run(3)]
    by (simp add: observer_log_def)
  moreover have "list_all (\<lambda>i. completes_all (si_world i)) ([sample_pass, sample_pass] @ [sample_pass])"
    by (simp add: sample_pass_def sample_world_completes)
  moreover have "fst (persist_confirmation sample_files (ob_files (sample_run [sample_pass, sample_pass]))
      (Some [''c'']) sample_target) = Inr ()"
    by (simp add: sample_persist)
  ultimately show ?thesis
    using three_convincing_passes_confirm[OF keep_order_laws _ sample_new_tip sample_start_def refl run(3) _
        sample_convincing sample_convincing sample_convincing]
    by (metis append_Cons append_Nil)
qed

end
