(* ===== verification/Build_Identity.thy ===== *)
theory Build_Identity
  imports Net_Address
begin

text \<open>
  \<open>src/build_info.rs\<close> and \<open>build.rs\<close>: the version strings and the script that sets their
  variables. Cargo's and vergen's variables are fixed when the program is built and are a
  parameter; a \<open>OnceLock\<close> caches a value that never changes, so reading it is the value. A
  string is its UTF-8 bytes.
\<close>

record build_env =
  be_package_version :: string
  be_package_name :: string
  be_vergen_git_sha :: "string option"

definition VERSION :: "build_env \<Rightarrow> string" where
  "VERSION env = be_package_version env"

definition PACKAGE_NAME :: "build_env \<Rightarrow> string" where
  "PACKAGE_NAME env = be_package_name env"

definition UNKNOWN_GIT_SHA :: string where
  "UNKNOWN_GIT_SHA = ''unknown''"

text \<open>
  \<open>str::get(..n)\<close>: the first \<open>n\<close> bytes, if there are that many and the cut falls between
  characters, that is not before a continuation byte.
\<close>

definition is_char_boundary :: "string \<Rightarrow> nat \<Rightarrow> bool" where
  "is_char_boundary s n \<longleftrightarrow> n = length s \<or>
     n < length s \<and> (let b = of_char (s ! n) :: nat in \<not> (0x80 \<le> b \<and> b < 0xC0))"

definition get_prefix :: "nat \<Rightarrow> string \<Rightarrow> string option" where
  "get_prefix n s = (if is_char_boundary s n then Some (take n s) else None)"

definition short_git_sha :: "build_env \<Rightarrow> string option" where
  "short_git_sha env =
     map_option (\<lambda>sha. case get_prefix 7 sha of None \<Rightarrow> sha | Some short \<Rightarrow> short) (be_vergen_git_sha env)"

definition cli_version :: "build_env \<Rightarrow> string" where
  "cli_version env =
     (case short_git_sha env of
        None \<Rightarrow> VERSION env
      | Some short_sha \<Rightarrow> VERSION env @ '' ('' @ short_sha @ '')'')"

definition git_sha_label :: "build_env \<Rightarrow> string" where
  "git_sha_label env = (case be_vergen_git_sha env of None \<Rightarrow> UNKNOWN_GIT_SHA | Some sha \<Rightarrow> sha)"

definition user_agent :: "build_env \<Rightarrow> string" where
  "user_agent env =
     (case short_git_sha env of
        None \<Rightarrow> PACKAGE_NAME env @ ''/'' @ VERSION env
      | Some short_sha \<Rightarrow> PACKAGE_NAME env @ ''/'' @ VERSION env @ '' ('' @ short_sha @ '')'')"

section \<open>The build script\<close>

text \<open>
  \<open>build.rs\<close> asks vergen for all build and all git instructions, one after the other, and emits
  them; whichever call fails first fails the build. Vergen is a parameter.
\<close>

record ('instructions, 'emitter, 'error) vergen =
  vg_all_build :: 'instructions
  vg_all_git :: 'instructions
  vg_default_emitter :: 'emitter
  vg_add_instructions :: "'emitter \<Rightarrow> 'instructions \<Rightarrow> 'error + 'emitter"
  vg_emit :: "'emitter \<Rightarrow> 'error + unit"

definition build_script :: "('instructions, 'emitter, 'error) vergen \<Rightarrow> 'error + unit" where
  "build_script vg =
     bind_result (vg_add_instructions vg (vg_default_emitter vg) (vg_all_build vg)) (\<lambda>emitter.
     bind_result (vg_add_instructions vg emitter (vg_all_git vg)) (\<lambda>emitter.
     vg_emit vg emitter))"

lemma build_script_ok_iff:
  "build_script vg = Inr () \<longleftrightarrow> (\<exists>e1 e2. vg_add_instructions vg (vg_default_emitter vg) (vg_all_build vg) = Inr e1 \<and>
     vg_add_instructions vg e1 (vg_all_git vg) = Inr e2 \<and> vg_emit vg e2 = Inr ())"
  by (simp add: build_script_def bind_result_Inr_iff)

section \<open>A build for the witnesses\<close>

definition sample_build :: build_env where
  "sample_build = \<lparr>be_package_version = ''1.8.0'', be_package_name = ''zeeder'',
     be_vergen_git_sha = Some ''0123456789abcdef''\<rparr>"

lemma sample_user_agent: "user_agent sample_build = ''zeeder/1.8.0 (0123456)''"
  by (simp add: user_agent_def short_git_sha_def get_prefix_def is_char_boundary_def sample_build_def
      PACKAGE_NAME_def VERSION_def Let_def)

text \<open>For an ASCII hash the short form is its first seven bytes.\<close>

lemma short_git_sha_ascii:
  assumes "be_vergen_git_sha env = Some sha" "list_all (\<lambda>c. of_char c < (128 :: nat)) sha"
  shows "short_git_sha env = Some (take 7 sha)"
proof (cases "7 < length sha")
  case True
  with assms(2) have "of_char (sha ! 7) < (128 :: nat)" by (simp add: list_all_length)
  with True show ?thesis
    by (simp add: short_git_sha_def assms(1) get_prefix_def is_char_boundary_def Let_def)
qed (simp add: short_git_sha_def assms(1) get_prefix_def)

lemma user_agent_cli_version: "user_agent env = PACKAGE_NAME env @ ''/'' @ cli_version env"
  by (simp add: user_agent_def cli_version_def split: option.split)

end
