(* ===== verification/Seeder_Process.thy ===== *)
theory Seeder_Process
  imports Query_Handler Health_Endpoint Activation_Observer Build_Identity
begin

text \<open>
  \<open>src/seeder.rs\<close>: how one process is put together from the components, and how their tasks
  interleave. Starting up is a function of what the system calls return; the running process
  is a step relation whose events are the passes of the background tasks, the queries, the
  health probes and a restart.
\<close>

section \<open>Sockets and signals\<close>

definition dns_bind_error :: "string \<Rightarrow> socket_addr \<Rightarrow> string" where
  "dns_bind_error socket_kind listen_addr =
     (let privileged_port_hint =
        (if sa_port listen_addr < 1024
         then '' This is a privileged port; run with permission to bind it or forward traffic to a high port.''
         else [])
      in ''failed to bind DNS '' @ socket_kind @ '' on '' @ show_socket_addr listen_addr @ ''.'' @
         privileged_port_hint)"

text \<open>The two \<open>bind\<close> calls are parameters; a failed one is wrapped with the text above.\<close>

datatype bind_error = DnsBindFailed string io_error

record ('u, 't) dns_sockets =
  ds_udp_socket :: 'u
  ds_tcp_listener :: 't

definition bind_dns_sockets ::
  "(socket_addr \<Rightarrow> io_error + 'u) \<Rightarrow> (socket_addr \<Rightarrow> io_error + 't) \<Rightarrow> socket_addr
    \<Rightarrow> bind_error + ('u, 't) dns_sockets" where
  "bind_dns_sockets bind_udp bind_tcp listen_addr =
     bind_result (map_err (DnsBindFailed (dns_bind_error ''UDP socket'' listen_addr)) (bind_udp listen_addr)) (\<lambda>udp.
     bind_result (map_err (DnsBindFailed (dns_bind_error ''TCP listener'' listen_addr)) (bind_tcp listen_addr)) (\<lambda>tcp.
     Inr \<lparr>ds_udp_socket = udp, ds_tcp_listener = tcp\<rparr>))"

text \<open>
  The Unix \<open>shutdown_signal\<close>: installing the handler may fail; then the biased select takes
  SIGTERM first. \<open>None\<close> is a signal that has not come.
\<close>

datatype signal_error = SigtermHandlerFailed io_error | CtrlCFailed io_error

definition shutdown_signal ::
  "io_error + unit \<Rightarrow> bool \<Rightarrow> (io_error + unit) option \<Rightarrow> (signal_error + string) option" where
  "shutdown_signal install sigterm ctrl_c =
     (case install of
        Inl e \<Rightarrow> Some (Inl (SigtermHandlerFailed e))
      | Inr _ \<Rightarrow>
          if sigterm then Some (Inr ''SIGTERM'')
          else map_option (\<lambda>signal_result.
                 bind_result (map_err CtrlCFailed signal_result) (\<lambda>_. Inr ''SIGINT'')) ctrl_c)"

text \<open>
  Elsewhere only Ctrl+C is waited for, which is the Unix behaviour when the handler is installed
  and no SIGTERM comes.
\<close>

definition shutdown_signal_elsewhere :: "(io_error + unit) option \<Rightarrow> (signal_error + string) option" where
  "shutdown_signal_elsewhere ctrl_c =
     map_option (\<lambda>signal_result. bind_result (map_err CtrlCFailed signal_result) (\<lambda>_. Inr ''SIGINT'')) ctrl_c"

lemma shutdown_signal_without_sigterm:
  "shutdown_signal (Inr ()) False ctrl_c = shutdown_signal_elsewhere ctrl_c"
  by (simp add: shutdown_signal_def shutdown_signal_elsewhere_def)

section \<open>One network's crawler\<close>

text \<open>
  What \<open>spawn_network_crawler\<close> starts for a network: the arguments handed to
  zebra-network, and the cache and observer tasks around the shared tip. The tip is a field of
  the observer, which is the only task that writes it; the cache reads it at each refresh.
\<close>

record ('net, 'cache, 'fs, 'r) crawler =
  cr_config :: "('net, 'cache) zebra_config"
  cr_user_agent :: string
  cr_target :: activation_target
  cr_confirmation_path :: "path option"
  cr_cache :: "'r cache_task"
  cr_observer :: "('fs, 'r) observer"

definition crawler_gauges :: "build_env \<Rightarrow> string \<Rightarrow> version \<Rightarrow> metric_op list" where
  "crawler_gauges env label min_protocol_version =
     [GaugeSet MIN_PROTOCOL_VERSION [(LABEL_NETWORK, label)] (unat min_protocol_version),
      GaugeSet BUILD_INFO
        [(LABEL_VERSION, VERSION env), (LABEL_GIT_SHA, git_sha_label env), (LABEL_NETWORK, label)] 1]"

definition spawn_network_crawler ::
  "('net, 'cache) zebra \<Rightarrow> ('n, 'l) hickory \<Rightarrow> 'fs file_system \<Rightarrow> build_env \<Rightarrow> 'fs \<Rightarrow> 'r
    \<Rightarrow> zcash_network \<Rightarrow> zone_config \<Rightarrow> string
    \<Rightarrow> metric_op list \<times> ('net, 'cache, 'fs, 'r) crawler \<times> (zone_error + ('n, 'l, zcash_network) seed_zone)" where
  "spawn_network_crawler z h fs env files r network zone agent =
     (let network_config = network_config z network;
          zcash_network = nc_network network_config;
          label = network_label network;
          target = latest_target z zcash_network;
          path = confirmation_path z (nc_cache_dir network_config) zcash_network;
          activation_confirmed = load_confirmation fs files path target;
          tip = new_tip target activation_confirmed;
          min_protocol_version = zb_min_remote_for_height z zcash_network (best_tip_height tip);
          gauges = crawler_gauges env label min_protocol_version;
          (observer_ops, observer) = start_observer network tip files r;
          crawler = \<lparr>cr_config = network_config, cr_user_agent = agent, cr_target = target,
                     cr_confirmation_path = path, cr_cache = spawn_cache r, cr_observer = observer\<rparr>;
          seed_zone = new_seed_zone h network (zc_domain zone) (zc_nameserver zone)
                        (zc_additional_nameservers zone) (zc_ttl zone) network
      in (gauges @ observer_ops, crawler, seed_zone))"

section \<open>Starting the process\<close>

datatype 'l run_error =
    BindError bind_error
  | ZoneError zone_error
  | LimiterError "'l config_error"
  | HealthError health_error
  | SignalError signal_error
  | DnsServerCrashed string

text \<open>
  The running process: the files, the crawlers by network, the DNS handler, and the zones the
  health endpoint watches with its threshold when it is enabled. A zone's feed is its network,
  whose cache holds what the feed borrows.
\<close>

record ('net, 'cache, 'n, 'l, 'fs, 'r, 'c) process =
  pr_files :: 'fs
  pr_crawlers :: "zcash_network \<rightharpoonup> ('net, 'cache, 'fs, 'r) crawler"
  pr_handler :: "('n, 'l, zcash_network, 'c) dns_request_handler"
  pr_health :: "((zcash_network \<times> zcash_network) list \<times> usize) option"

text \<open>
  One turn of the loop over the configured networks. \<open>zebra_network::init\<close> returns its handles and
  no \<open>Result\<close>, so only the zone can fail. The metric operations of a crawler's start are the
  first component of \<open>spawn_network_crawler\<close>; they go to the recorder and no later step of the
  start reads them, so the loop's state does not carry them on.
\<close>

definition spawn_step ::
  "('net, 'cache) zebra \<Rightarrow> ('n, 'l) hickory \<Rightarrow> 'fs file_system \<Rightarrow> build_env \<Rightarrow> 'fs \<Rightarrow> 'r
    \<Rightarrow> ('n, 'l, zcash_network) seed_zone list \<times> (zcash_network \<rightharpoonup> ('net, 'cache, 'fs, 'r) crawler)
    \<Rightarrow> zcash_network \<times> zone_config
    \<Rightarrow> 'l run_error + (('n, 'l, zcash_network) seed_zone list \<times> (zcash_network \<rightharpoonup> ('net, 'cache, 'fs, 'r) crawler))"
where
  "spawn_step z h fs env files r s = (\<lambda>(network, zone).
     let (seed_zones, crawlers) = s;
         (ops, crawler, seed_zone) =
           spawn_network_crawler z h fs env files r network zone (user_agent env)
     in bind_result (map_err ZoneError seed_zone) (\<lambda>seed_zone.
        Inr (seed_zones @ [seed_zone], crawlers(network \<mapsto> crawler))))"

definition start_limiter :: "seeder_config \<Rightarrow> 'l run_error + 'c rate_limiter option" where
  "start_limiter config =
     (case sc_rate_limit config of
        None \<Rightarrow> Inr None
      | Some rl \<Rightarrow> bind_result (map_err LimiterError (new_rate_limiter rl)) (\<lambda>l. Inr (Some l)))"

definition start_health ::
  "(socket_addr \<Rightarrow> io_error + 'h) \<Rightarrow> ('n, 'l, zcash_network) seed_zone list \<Rightarrow> seeder_config
    \<Rightarrow> 'l run_error + ((zcash_network \<times> zcash_network) list \<times> usize) option" where
  "start_health bind_hl seed_zones config =
     (case sc_health config of
        None \<Rightarrow> Inr None
      | Some hc \<Rightarrow> bind_result (map_err HealthError (bind_health bind_hl (hc_endpoint_addr hc)))
          (\<lambda>_. Inr (Some (map readiness seed_zones, hc_ready_threshold hc))))"

definition start_process ::
  "('net, 'cache) zebra \<Rightarrow> ('n, 'l) hickory \<Rightarrow> 'fs file_system \<Rightarrow> build_env
    \<Rightarrow> (socket_addr \<Rightarrow> io_error + 'u) \<Rightarrow> (socket_addr \<Rightarrow> io_error + 't) \<Rightarrow> (socket_addr \<Rightarrow> io_error + 'h)
    \<Rightarrow> 'fs \<Rightarrow> 'r \<Rightarrow> seeder_config \<Rightarrow> 'l run_error + ('net, 'cache, 'n, 'l, 'fs, 'r, 'c) process" where
  "start_process z h fs env bind_udp bind_tcp bind_hl files r config =
     bind_result (map_err BindError (bind_dns_sockets bind_udp bind_tcp (dc_listen_addr (sc_dns config)))) (\<lambda>_.
     bind_result (result_fold (spawn_step z h fs env files r) ([], \<lambda>_. None) (btree_iter (sc_zones config)))
       (\<lambda>(seed_zones, crawlers).
     bind_result (start_limiter config) (\<lambda>limiter.
     bind_result (start_health bind_hl seed_zones config) (\<lambda>health.
     Inr \<lparr>pr_files = files, pr_crawlers = crawlers, pr_handler = new_handler seed_zones limiter,
          pr_health = health\<rparr>))))"

text \<open>
  The biased select at the end of \<open>run\<close>: a signal wins over the end of the DNS server. Both
  may be pending, and then the process goes on.
\<close>

definition select_exit ::
  "(signal_error + string) option \<Rightarrow> (string + unit) option \<Rightarrow> ('l run_error + unit) option" where
  "select_exit signal dns_outcome =
     (case signal of
        Some signal \<Rightarrow> Some (bind_result (map_err SignalError signal) (\<lambda>_. Inr ()))
      | None \<Rightarrow> map_option (\<lambda>outcome. map_err DnsServerCrashed outcome) dns_outcome)"

section \<open>What starting up establishes\<close>

text \<open>The crawlers and zones after the loop over the configured networks.\<close>

definition crawler_of ::
  "('net, 'cache) zebra \<Rightarrow> 'fs file_system \<Rightarrow> build_env \<Rightarrow> 'fs \<Rightarrow> 'r \<Rightarrow> zcash_network
    \<Rightarrow> ('net, 'cache, 'fs, 'r) crawler" where
  "crawler_of z fs env files r network =
     (let config = network_config z network; target = latest_target z (nc_network config);
          path = confirmation_path z (nc_cache_dir config) (nc_network config)
      in \<lparr>cr_config = config, cr_user_agent = user_agent env, cr_target = target, cr_confirmation_path = path,
          cr_cache = spawn_cache r,
          cr_observer = snd (start_observer network
            (new_tip target (load_confirmation fs files path target)) files r)\<rparr>)"

lemma spawn_network_crawler_parts:
  "fst (snd (spawn_network_crawler z h fs env files r network zone (user_agent env))) =
     crawler_of z fs env files r network"
  "snd (snd (spawn_network_crawler z h fs env files r network zone agent)) =
     new_seed_zone h network (zc_domain zone) (zc_nameserver zone) (zc_additional_nameservers zone)
       (zc_ttl zone) network"
  by (simp_all add: spawn_network_crawler_def crawler_of_def Let_def split_beta)

definition zone_from ::
  "('n, 'l) hickory \<Rightarrow> zcash_network \<times> zone_config \<Rightarrow> ('n, 'l, zcash_network) seed_zone \<Rightarrow> bool" where
  "zone_from h nz sz \<longleftrightarrow> new_seed_zone h (fst nz) (zc_domain (snd nz)) (zc_nameserver (snd nz))
     (zc_additional_nameservers (snd nz)) (zc_ttl (snd nz)) (fst nz) = Inr sz"

lemma spawn_step_eq:
  "spawn_step z h fs env files r (zs, cs) nz =
     bind_result (map_err ZoneError (new_seed_zone h (fst nz) (zc_domain (snd nz)) (zc_nameserver (snd nz))
       (zc_additional_nameservers (snd nz)) (zc_ttl (snd nz)) (fst nz)))
     (\<lambda>sz. Inr (zs @ [sz], cs(fst nz \<mapsto> crawler_of z fs env files r (fst nz))))"
  by (simp add: spawn_step_def split_beta Let_def spawn_network_crawler_parts)

lemma spawn_loop_Inr:
  "result_fold (spawn_step z h fs env files r) (zs, cs) nzs = Inr (zs', cs') \<longleftrightarrow>
     (\<exists>szs. list_all2 (zone_from h) nzs szs \<and> zs' = zs @ szs \<and>
        cs' = cs ++ (\<lambda>n. if n \<in> fst ` set nzs then Some (crawler_of z fs env files r n) else None))"
proof (induction nzs arbitrary: zs cs)
  case Nil
  then show ?case by (auto simp: map_add_def)
next
  case (Cons nz nzs)
  have upd: "cs(fst nz \<mapsto> crawler_of z fs env files r (fst nz)) ++
      (\<lambda>n. if n \<in> fst ` set nzs then Some (crawler_of z fs env files r n) else None) =
    cs ++ (\<lambda>n. if n \<in> fst ` set (nz # nzs) then Some (crawler_of z fs env files r n) else None)"
    by (auto simp: map_add_def fun_eq_iff)
  show ?case
  proof (cases "new_seed_zone h (fst nz) (zc_domain (snd nz)) (zc_nameserver (snd nz))
      (zc_additional_nameservers (snd nz)) (zc_ttl (snd nz)) (fst nz)")
    case (Inl e)
    then show ?thesis by (simp add: spawn_step_eq map_err_def list_all2_Cons1 zone_from_def)
  next
    case (Inr sz)
    then have step: "result_fold (spawn_step z h fs env files r) (zs, cs) (nz # nzs) =
        result_fold (spawn_step z h fs env files r)
          (zs @ [sz], cs(fst nz \<mapsto> crawler_of z fs env files r (fst nz))) nzs"
      by (simp add: spawn_step_eq map_err_def)
    have "zone_from h nz y \<longleftrightarrow> y = sz" for y using Inr by (auto simp: zone_from_def)
    then show ?thesis
      unfolding step Cons.IH upd by (auto simp: list_all2_Cons1)
  qed
qed

lemma spawn_loop_Inl:
  "result_fold (spawn_step z h fs env files r) (zs, cs) nzs = Inl e \<Longrightarrow>
     \<exists>n zone e'. (n, zone) \<in> set nzs \<and> e = ZoneError e' \<and>
       new_seed_zone h n (zc_domain zone) (zc_nameserver zone) (zc_additional_nameservers zone) (zc_ttl zone) n = Inl e'"
proof (induction nzs arbitrary: zs cs)
  case (Cons nz nzs)
  show ?case
  proof (cases "new_seed_zone h (fst nz) (zc_domain (snd nz)) (zc_nameserver (snd nz))
      (zc_additional_nameservers (snd nz)) (zc_ttl (snd nz)) (fst nz)")
    case (Inl e')
    with Cons.prems show ?thesis
      by (intro exI[of _ "fst nz"] exI[of _ "snd nz"] exI[of _ e']) (simp add: spawn_step_eq map_err_def)
  next
    case (Inr sz)
    with Cons.prems have "result_fold (spawn_step z h fs env files r)
        (zs @ [sz], cs(fst nz \<mapsto> crawler_of z fs env files r (fst nz))) nzs = Inl e"
      by (simp add: spawn_step_eq map_err_def)
    from Cons.IH[OF this] show ?thesis by auto
  qed
qed simp

lemma btree_iter_keys: "fst ` set (btree_iter m) = dom m"
proof -
  have "(\<exists>v. (n, v) \<in> set (btree_iter m)) \<longleftrightarrow> n \<in> dom m" for n
    by (auto simp: mem_btree_iter)
  then show ?thesis by (auto simp: set_btree_iter) (metis fst_conv image_eqI mem_btree_iter set_btree_iter)
qed

text \<open>
  What holds of every process that started: its zones are those of the configuration, in the
  order of the networks, and each configured network, and no other, has a crawler.
\<close>

definition process_started ::
  "('net, 'cache) zebra \<Rightarrow> ('n, 'l) hickory \<Rightarrow> 'fs file_system \<Rightarrow> build_env \<Rightarrow> 'fs \<Rightarrow> 'r \<Rightarrow> seeder_config
    \<Rightarrow> ('net, 'cache, 'n, 'l, 'fs, 'r, 'c) process \<Rightarrow> bool" where
  "process_started z h fs env files r config p \<longleftrightarrow>
     pr_files p = files \<and>
     list_all2 (zone_from h) (btree_iter (sc_zones config)) (dh_zones (pr_handler p)) \<and>
     pr_crawlers p = (\<lambda>n. if n \<in> dom (sc_zones config) then Some (crawler_of z fs env files r n) else None)"

lemma start_process_started:
  assumes "start_process z h fs env bu bt bh files r config = Inr p"
  shows "process_started z h fs env files r config p"
  using assms
  by (auto simp: start_process_def bind_result_Inr_iff spawn_loop_Inr process_started_def new_handler_def
      btree_iter_keys)

section \<open>A validated configuration starts\<close>

lemma valid_zone_error:
  assumes "valid_zone h zone d"
    and "new_seed_zone h n (zc_domain zone) (zc_nameserver zone) (zc_additional_nameservers zone) (zc_ttl zone) feed = Inl e"
  shows "\<exists>text. e = InvalidMailbox text"
proof -
  define texts where "texts = zc_nameserver zone # zc_additional_nameservers zone"
  from assms(1) obtain domain ns where parsed: "parsed_name h (zc_domain zone) = Some domain"
    and names: "those (map (parsed_name h) texts) = Some ns" "valid_nameservers h (hk_lower h domain) ns"
    by (auto simp: valid_zone_def texts_def)
  have "ns \<noteq> []" using names(1) by (auto simp: texts_def split: option.splits)
  have "parse_absolute_name h field (zc_domain zone) = Inr domain" for field
    using parsed by (simp add: parse_absolute_name_Inr_iff)
  moreover have "result_fold (add_nameserver h (hk_lower h domain)) ([], {}) (List.enumerate 0 texts) =
      Inr (ns, hk_lower h ` set ns)"
    using names by (simp add: nameserver_loop_Inr)
  ultimately have "new_zone_records h domain ns (zc_ttl zone) = Inl e"
    using assms(2) unfolding new_seed_zone_def texts_def[symmetric]
    by (simp add: Let_def bind_result_Inl_iff)
  with \<open>ns \<noteq> []\<close> show ?thesis
    by (cases ns) (auto simp: new_zone_records_def first_def ok_or_def Let_def split: option.splits)
qed

lemma valid_config_zone:
  assumes "validate_config h config = Inr ()" "(n, zone) \<in> set (btree_iter (sc_zones config))"
  shows "\<exists>d. valid_zone h zone d"
proof -
  from assms(1) obtain ds where "list_all2 (\<lambda>(n, z) (n', d). n = n' \<and> valid_zone h z d) (btree_iter (sc_zones config)) ds"
    by (auto simp: validate_config_def bind_result_Inr_iff zone_domains_Inr_iff)
  from list_all2_set1[OF this assms(2)] show ?thesis by auto
qed

lemma start_limiter_valid:
  assumes "validate_config h config = Inr ()"
  shows "(start_limiter config :: 'l run_error + 'c rate_limiter option) \<noteq> Inl e"
proof (cases "sc_rate_limit config")
  case (Some rl)
  with assms have "rl_queries_per_second rl \<noteq> 0" "rl_burst_size rl \<noteq> 0"
    by (auto simp: validate_config_def bind_result_Inr_iff validate_rate_limit_def
        nonzero_queries_per_second_def nonzero_burst_size_def nonzero_config_value_def ok_or_def split: if_splits)
  then show ?thesis
    by (simp add: start_limiter_def Some new_rate_limiter_def map_err_def
        nonzero_queries_per_second_def nonzero_burst_size_def nonzero_config_value_def ok_or_def)
qed (simp add: start_limiter_def)

lemma start_health_error: "start_health bh zones config = Inl e \<Longrightarrow> \<exists>b. e = HealthError b"
  by (auto simp: start_health_def bind_result_Inl_iff map_err_def split: option.splits sum.splits)

lemma bind_sockets_error: "map_err BindError r = Inl e \<Longrightarrow> \<exists>b. e = BindError b"
  by (cases r) (auto simp: map_err_def)

lemma start_process_error:
  fixes e :: "'l run_error"
  assumes "(start_process z h fs env bu bt bh files r config ::
      'l run_error + ('net, 'cache, 'n, 'l, 'fs, 'r, 'c) process) = Inl e"
  shows "(\<exists>b. e = BindError b) \<or> (\<exists>b. e = HealthError b) \<or>
    result_fold (spawn_step z h fs env files r) ([], \<lambda>_. None) (btree_iter (sc_zones config)) = Inl e \<or>
    (start_limiter config :: 'l run_error + 'c rate_limiter option) = Inl e"
  using assms unfolding start_process_def bind_result_Inl_iff
  by (auto simp: split_beta bind_result_Inl_iff dest: bind_sockets_error start_health_error)

lemma started_zones_disjoint:
  assumes "validate_config h config = Inr ()"
    and "process_started z h fs env files r config p"
  shows "zones_disjoint h (dh_zones (pr_handler p))"
proof -
  let ?zones = "btree_iter (sc_zones config)" and ?served = "dh_zones (pr_handler p)"
  from assms(1) obtain ds where ds: "list_all2 (\<lambda>(n, z) (n', d). n = n' \<and> valid_zone h z d) ?zones ds"
    and disjoint: "disjoint_domains h ds"
    by (auto simp: validate_config_def bind_result_Inr_iff zone_domains_Inr_iff ensure_zones_are_disjoint_Inr_iff)
  have built: "list_all2 (zone_from h) ?zones ?served" using assms(2) by (simp add: process_started_def)
  have head: "sz_network sz = fst nz \<and> sz_domain sz = snd nd"
    if "zone_from h nz sz" "fst nz = fst nd" "valid_zone h (snd nz) (snd nd)" for nz sz nd
    using that by (auto simp: zone_from_def new_seed_zone_Inr_iff zone_of_texts_def valid_zone_def)
  have "(sz_network (?served ! i), sz_domain (?served ! i)) = ds ! i" if i: "i < length ds" for i
  proof -
    have len: "i < length ?zones" using i list_all2_lengthD[OF ds] by simp
    have "zone_from h (?zones ! i) (?served ! i)" by (rule list_all2_nthD[OF built len])
    moreover have nd: "fst (?zones ! i) = fst (ds ! i)" "valid_zone h (snd (?zones ! i)) (snd (ds ! i))"
      using list_all2_nthD[OF ds len] by (simp_all add: split_beta)
    ultimately show ?thesis using head[of "?zones ! i" "?served ! i" "ds ! i"] by (simp add: prod_eq_iff)
  qed
  moreover have "length ?served = length ds"
    using list_all2_lengthD[OF ds] list_all2_lengthD[OF built] by simp
  ultimately have "map (\<lambda>sz. (sz_network sz, sz_domain sz)) ?served = ds"
    by (simp add: list_eq_iff_nth_eq)
  with disjoint show ?thesis by (simp add: zones_disjoint_def is_ok_iff ensure_zones_are_disjoint_Inr_iff)
qed

lemma valid_start_error:
  fixes e :: "'l run_error"
  assumes valid: "validate_config h config = Inr ()"
    and failed: "(start_process z h fs env bu bt bh files r config ::
      'l run_error + ('net, 'cache, 'n, 'l, 'fs, 'r, 'c) process) = Inl e"
  shows "(\<exists>b. e = BindError b) \<or> (\<exists>b. e = HealthError b) \<or> (\<exists>d. e = ZoneError (InvalidMailbox d))"
proof -
  from start_process_error[OF failed] start_limiter_valid[OF valid]
  have "(\<exists>b. e = BindError b) \<or> (\<exists>b. e = HealthError b) \<or>
      result_fold (spawn_step z h fs env files r) ([], \<lambda>_. None) (btree_iter (sc_zones config)) = Inl e"
    by blast
  moreover have "\<exists>d. e = ZoneError (InvalidMailbox d)"
    if loop: "result_fold (spawn_step z h fs env files r) ([], \<lambda>_. None) (btree_iter (sc_zones config)) = Inl e"
  proof -
    from spawn_loop_Inl[OF loop] obtain n zone e' where zone: "(n, zone) \<in> set (btree_iter (sc_zones config))"
      and e: "e = ZoneError e'"
      and built: "new_seed_zone h n (zc_domain zone) (zc_nameserver zone) (zc_additional_nameservers zone)
        (zc_ttl zone) n = Inl e'"
      by blast
    obtain d where "valid_zone h zone d" using valid_config_zone[OF valid zone] by blast
    from valid_zone_error[OF this built] e show ?thesis by simp
  qed
  ultimately show ?thesis by blast
qed

text \<open>C32: A validated configuration starts: once the configuration check accepts it, starting the
  process can fail only because a socket cannot be bound or because a synthesized SOA mailbox
  \<open>hostmaster.<domain>\<close> is not a name; every other error of the zone and limiter constructors
  is excluded. When it starts, the served zones are those configured, pairwise disjoint.\<close>

theorem validated_config_starts:
  assumes "validate_config h config = Inr ()"
  shows "case (start_process z h fs env bu bt bh files r config ::
        'l run_error + ('net, 'cache, 'n, 'l, 'fs, 'r, 'c) process) of
      Inl e \<Rightarrow> (\<exists>b. e = BindError b) \<or> (\<exists>b. e = HealthError b) \<or> (\<exists>d. e = ZoneError (InvalidMailbox d))
    | Inr p \<Rightarrow> map sz_network (dh_zones (pr_handler p)) = map fst (btree_iter (sc_zones config)) \<and>
        zones_disjoint h (dh_zones (pr_handler p)) \<and> list_all well_built (dh_zones (pr_handler p))"
proof (cases "start_process z h fs env bu bt bh files r config ::
    'l run_error + ('net, 'cache, 'n, 'l, 'fs, 'r, 'c) process")
  case (Inl e)
  from valid_start_error[OF assms this] show ?thesis by (simp add: Inl)
next
  case (Inr p)
  have started: "process_started z h fs env files r config p" using Inr by (rule start_process_started)
  then have built: "list_all2 (zone_from h) (btree_iter (sc_zones config)) (dh_zones (pr_handler p))"
    by (simp add: process_started_def)
  have made: "zone_from h nz sz \<Longrightarrow> sz_network sz = fst nz \<and> well_built sz" for nz sz
    using new_seed_zone_well_built by (fastforce simp: zone_from_def new_seed_zone_Inr_iff zone_of_texts_def)
  have "map sz_network (dh_zones (pr_handler p)) = map fst (btree_iter (sc_zones config))"
    using built made by (auto simp: list_all2_conv_all_nth list_eq_iff_nth_eq)
  moreover have "list_all well_built (dh_zones (pr_handler p))"
    using made by (auto simp: list_all_iff dest!: list_all2_set2[OF built])
  ultimately show ?thesis using started_zones_disjoint[OF assms started] by (simp add: Inr)
qed

text \<open>A process for the witnesses: the sample configuration, started on empty files.\<close>

abbreviation sample_start_process ::
  "string list run_error + (bool, path option, string list, string list, (path \<times> string) list, nat, nat) process" where
  "sample_start_process \<equiv> start_process pinned_zebra sample_hickory sample_files sample_build
     (\<lambda>_. Inr ()) (\<lambda>_. Inr ()) (\<lambda>_. Inr ()) [] 0 sample_config"

abbreviation sample_zone_built :: "zcash_network \<Rightarrow> zone_error + (string list, string list, zcash_network) seed_zone" where
  "sample_zone_built n \<equiv> new_seed_zone sample_hickory n (zc_domain (sample_zone n))
     (zc_nameserver (sample_zone n)) (zc_additional_nameservers (sample_zone n)) (zc_ttl (sample_zone n)) n"

lemma sample_zones_build: "is_ok (sample_zone_built Mainnet)" "is_ok (sample_zone_built Testnet)"
  by code_simp+

lemma sample_process_starts: "\<exists>p. sample_start_process = Inr p"
proof -
  obtain m t where built: "sample_zone_built Mainnet = Inr m" "sample_zone_built Testnet = Inr t"
    using sample_zones_build by (auto simp: is_ok_iff)
  have zones: "btree_iter (sc_zones sample_config) = [(Mainnet, sample_zone Mainnet), (Testnet, sample_zone Testnet)]"
    by (simp add: sample_config_def btree_iter_def List.map_filter_def)
  have "list_all2 (zone_from sample_hickory) (btree_iter (sc_zones sample_config)) [m, t]"
    unfolding zones by (simp add: zone_from_def built)
  then obtain cs where loop: "(result_fold (spawn_step pinned_zebra sample_hickory sample_files sample_build [] 0)
      ([], \<lambda>_. None) (btree_iter (sc_zones sample_config)) ::
        string list run_error + (_ \<times> (zcash_network \<rightharpoonup> (bool, path option, (path \<times> string) list, nat) crawler))) =
      Inr ([m, t], cs)"
    by (auto simp: spawn_loop_Inr simp del: result_fold.simps)
  have "sc_rate_limit sample_config = Some rate_limit_config_default" "sc_health sample_config = Some health_config_default"
    by (simp_all add: sample_config_def seeder_config_default_def)
  moreover have "\<exists>l. (new_rate_limiter rate_limit_config_default ::
      string list config_error + nat rate_limiter) = Inr l"
    by (simp add: new_rate_limiter_def rate_limit_config_default_def nonzero_queries_per_second_def
        nonzero_burst_size_def nonzero_config_value_def ok_or_def)
  ultimately show ?thesis
    by (auto simp: start_process_def bind_dns_sockets_def map_err_def loop start_limiter_def start_health_def
        bind_health_def)
qed

theorem validated_config_starts_witness:
  "\<exists>p. sample_start_process = Inr p \<and> map sz_network (dh_zones (pr_handler p)) = [Mainnet, Testnet] \<and>
     zones_disjoint sample_hickory (dh_zones (pr_handler p))"
proof -
  obtain p where p: "sample_start_process = Inr p" using sample_process_starts by blast
  have "map fst (btree_iter (sc_zones sample_config)) = [Mainnet, Testnet]"
    by (simp add: sample_config_def btree_iter_def List.map_filter_def)
  with validated_config_starts[OF sample_config_valid, of pinned_zebra sample_files sample_build "\<lambda>_. Inr ()"
      "\<lambda>_. Inr ()" "\<lambda>_. Inr ()" "[]" "0 :: nat", where 'c = nat]
  show ?thesis by (simp add: p)
qed

end
