(* ===== verification/Process_Steps.thy ===== *)
theory Process_Steps
  imports Seeder_Process
begin

text \<open>
  The running process as a step relation: the passes of the cache and observer tasks of every
  network, the queries, the passes of the prune loop, the health probes, and a crash followed
  by a restart on the files left behind, interleaved in any order. The observers of the
  networks write to one file system; the DNS handler reads what the caches published.
\<close>

section \<open>The environment\<close>

record ('net, 'cache, 'n, 'l, 'fs, 'r, 'book, 'meta, 'time, 'c) environment =
  en_zebra :: "('net, 'cache) zebra"
  en_hickory :: "('n, 'l) hickory"
  en_files :: "'fs file_system"
  en_build :: build_env
  en_book :: "('book, 'meta, 'net, 'time) book_api"
  en_shuffler :: "('r, peer_addr) shuffler"
  en_values :: value_order
  en_governor :: "'c governor"

text \<open>
  What the program relies on: the generator permutes, the hash map yields its values, files
  keep what was written, zebra's tables are those of a chain, and its networks have different
  lower-case names.
\<close>

definition environment_laws ::
  "('net, 'cache, 'n, 'l, 'fs, 'r, 'book, 'meta, 'time, 'c) environment \<Rightarrow> bool" where
  "environment_laws E \<longleftrightarrow>
     observer_laws (en_shuffler E) (en_values E) (en_files E) \<and>
     chain_laws (en_zebra E) (to_zebra (en_zebra E) Mainnet) \<and>
     chain_laws (en_zebra E) (to_zebra (en_zebra E) Testnet) \<and>
     zb_lowercase_name (en_zebra E) (to_zebra (en_zebra E) Mainnet) \<noteq>
       zb_lowercase_name (en_zebra E) (to_zebra (en_zebra E) Testnet)"

section \<open>The turns of the tasks\<close>

text \<open>What the receiver handed to a zone holds: what that network's cache task last sent.\<close>

definition crawler_snapshot ::
  "('net, 'cache, 'n, 'l, 'fs, 'r, 'c) process \<Rightarrow> zcash_network \<Rightarrow> servable_peer_lists" where
  "crawler_snapshot p n =
     (case pr_crawlers p n of None \<Rightarrow> default_servable_peers | Some c \<Rightarrow> ck_published (cr_cache c))"

text \<open>
  One pass of a network's cache task. It reads the tip that the network's observer writes; the
  zone's receiver lives as long as the process.
\<close>

definition refresh_turn ::
  "('net, 'cache, 'n, 'l, 'fs, 'r, 'book, 'meta, 'time, 'c) environment \<Rightarrow> zcash_network
    \<Rightarrow> 'book \<Rightarrow> bool \<Rightarrow> 'time \<Rightarrow> ('net, 'cache, 'n, 'l, 'fs, 'r, 'c) process
    \<Rightarrow> ('net, 'cache, 'n, 'l, 'fs, 'r, 'c) process" where
  "refresh_turn E n book poisoned now p =
     (case pr_crawlers p n of
        None \<Rightarrow> p
      | Some c \<Rightarrow>
          let input = \<lparr>ri_book = book, ri_poisoned = poisoned, ri_now = now,
                ri_tip = ob_tip (cr_observer c), ri_receivers_alive = True\<rparr>;
              (ops, ck) = refresh_cache (en_zebra E) (en_book E) (en_shuffler E) n
                (at_required_version (cr_target c)) (cr_cache c) input
          in p\<lparr>pr_crawlers := (pr_crawlers p)(n \<mapsto> c\<lparr>cr_cache := ck\<rparr>)\<rparr>)"

text \<open>
  One pass of a network's observer, on the files shared by all of them; a task that has ended
  takes no more turns.
\<close>

definition observer_turn ::
  "('net, 'cache, 'n, 'l, 'fs, 'r, 'book, 'meta, 'time, 'c) environment \<Rightarrow> zcash_network
    \<Rightarrow> ('book, 'time, 'net) sweep_input \<Rightarrow> ('net, 'cache, 'n, 'l, 'fs, 'r, 'c) process
    \<Rightarrow> ('net, 'cache, 'n, 'l, 'fs, 'r, 'c) process" where
  "observer_turn E n i p =
     (case pr_crawlers p n of
        None \<Rightarrow> p
      | Some c \<Rightarrow>
          if \<not> ob_running (cr_observer c) then p
          else
          let (ops, ob) = observer_pass (en_zebra E) (en_book E) (en_shuffler E) (en_values E) (en_files E) n
                (cr_user_agent c) (cr_target c) (cr_confirmation_path c)
                ((cr_observer c)\<lparr>ob_files := pr_files p\<rparr>) i
          in p\<lparr>pr_files := ob_files ob, pr_crawlers := (pr_crawlers p)(n \<mapsto> c\<lparr>cr_observer := ob\<rparr>)\<rparr>)"

definition query_turn ::
  "('net, 'cache, 'n, 'l, 'fs, 'r, 'book, 'meta, 'time, 'c) environment
    \<Rightarrow> (('n, 'm) dns_response \<Rightarrow> string + 'i) \<Rightarrow> nat \<Rightarrow> ('l, 'm) dns_request
    \<Rightarrow> ('net, 'cache, 'n, 'l, 'fs, 'r, 'c) process
    \<Rightarrow> ('n, 'm, 'i, 'c) handled \<times> ('net, 'cache, 'n, 'l, 'fs, 'r, 'c) process" where
  "query_turn E send now request p =
     (let out = answer_request (en_hickory E) (en_governor E) (crawler_snapshot p) send now (pr_handler p) request
      in (out, p\<lparr>pr_handler := (pr_handler p)\<lparr>dh_rate_limiter := hd_rate_limiter out\<rparr>\<rparr>))"

definition prune_turn ::
  "('net, 'cache, 'n, 'l, 'fs, 'r, 'book, 'meta, 'time, 'c) environment \<Rightarrow> nat
    \<Rightarrow> ('net, 'cache, 'n, 'l, 'fs, 'r, 'c) process \<Rightarrow> ('net, 'cache, 'n, 'l, 'fs, 'r, 'c) process" where
  "prune_turn E now p = p\<lparr>pr_handler := (pr_handler p)\<lparr>
     dh_rate_limiter := map_option (prune_pass (en_governor E) now) (dh_rate_limiter (pr_handler p))\<rparr>\<rparr>"

section \<open>Steps and runs\<close>

text \<open>
  An event names what happened: a refresh its network, book and time, an observer pass its
  network, a query its request and all that came of it, a probe its response.
\<close>

datatype ('n, 'l, 'm, 'i, 'c, 'book, 'time) process_event =
    CacheRefreshed zcash_network 'book 'time
  | ObserverPassed zcash_network
  | QueryHandled "('l, 'm) dns_request" "('n, 'm, 'i, 'c) handled"
  | LimiterPruned
  | HealthProbed string
  | ProcessRestarted

inductive process_step ::
  "('net, 'cache, 'n, 'l, 'fs, 'r, 'book, 'meta, 'time, 'c) environment \<Rightarrow> seeder_config
    \<Rightarrow> ('net, 'cache, 'n, 'l, 'fs, 'r, 'c) process \<Rightarrow> ('n, 'l, 'm, 'i, 'c, 'book, 'time) process_event
    \<Rightarrow> ('net, 'cache, 'n, 'l, 'fs, 'r, 'c) process \<Rightarrow> bool"
  for E and config
where
  refresh_step: "process_step E config p (CacheRefreshed n book now) (refresh_turn E n book poisoned now p)"
| observer_step: "completes_all (si_world i) \<Longrightarrow>
    process_step E config p (ObserverPassed n) (observer_turn E n i p)"
| query_step: "query_turn E send now request p = (out, p') \<Longrightarrow>
    process_step E config p (QueryHandled request out) p'"
| prune_step: "process_step E config p LimiterPruned (prune_turn E now p)"
| health_step: "pr_health p = Some (zones, threshold) \<Longrightarrow>
    process_step E config p (HealthProbed (readiness_response (crawler_snapshot p) zones threshold)) p"
| restart_step: "start_process (en_zebra E) (en_hickory E) (en_files E) (en_build E)
      (\<lambda>_. Inr ()) (\<lambda>_. Inr ()) (\<lambda>_. Inr ()) (pr_files p) r config = Inr p' \<Longrightarrow>
    process_step E config p ProcessRestarted p'"

inductive_cases refresh_stepE: "process_step E config p (CacheRefreshed n book now) p'"
inductive_cases query_stepE: "process_step E config p (QueryHandled request out) p'"
inductive_cases restart_stepE: "process_step E config p ProcessRestarted p'"

inductive process_run ::
  "('net, 'cache, 'n, 'l, 'fs, 'r, 'book, 'meta, 'time, 'c) environment \<Rightarrow> seeder_config
    \<Rightarrow> ('net, 'cache, 'n, 'l, 'fs, 'r, 'c) process \<Rightarrow> ('n, 'l, 'm, 'i, 'c, 'book, 'time) process_event list
    \<Rightarrow> ('net, 'cache, 'n, 'l, 'fs, 'r, 'c) process \<Rightarrow> bool"
  for E and config
where
  run_nil: "process_run E config p [] p"
| run_snoc: "process_run E config p es q \<Longrightarrow> process_step E config q e q' \<Longrightarrow> process_run E config p (es @ [e]) q'"

text \<open>The processes that a start on some files with some generator leads to, and their runs.\<close>

definition started_process ::
  "('net, 'cache, 'n, 'l, 'fs, 'r, 'book, 'meta, 'time, 'c) environment \<Rightarrow> seeder_config
    \<Rightarrow> ('net, 'cache, 'n, 'l, 'fs, 'r, 'c) process \<Rightarrow> bool" where
  "started_process E config p \<longleftrightarrow> (\<exists>files r.
     start_process (en_zebra E) (en_hickory E) (en_files E) (en_build E)
       (\<lambda>_. Inr ()) (\<lambda>_. Inr ()) (\<lambda>_. Inr ()) files r config = Inr p)"

section \<open>The invariant\<close>

definition network_path ::
  "('net, 'cache, 'n, 'l, 'fs, 'r, 'book, 'meta, 'time, 'c) environment \<Rightarrow> zcash_network \<Rightarrow> path option" where
  "network_path E n = confirmation_path (en_zebra E) (nc_cache_dir (network_config (en_zebra E) n))
     (to_zebra (en_zebra E) n)"

definition network_target ::
  "('net, 'cache, 'n, 'l, 'fs, 'r, 'book, 'meta, 'time, 'c) environment \<Rightarrow> zcash_network \<Rightarrow> activation_target" where
  "network_target E n = latest_target (en_zebra E) (to_zebra (en_zebra E) n)"

definition crawler_ok ::
  "('net, 'cache, 'n, 'l, 'fs, 'r, 'book, 'meta, 'time, 'c) environment \<Rightarrow> zcash_network \<Rightarrow> 'fs
    \<Rightarrow> ('net, 'cache, 'fs, 'r) crawler \<Rightarrow> bool" where
  "crawler_ok E n files c \<longleftrightarrow>
     cr_target c = network_target E n \<and> cr_confirmation_path c = network_path E n \<and>
     cache_ok (cr_cache c) \<and> ck_running (cr_cache c) \<and> tip_of_target (network_target E n) (ob_tip (cr_observer c)) \<and>
     (is_activation_confirmed (ob_tip (cr_observer c)) \<longrightarrow>
        load_confirmation (en_files E) files (network_path E n) (network_target E n))"

definition process_inv ::
  "('net, 'cache, 'n, 'l, 'fs, 'r, 'book, 'meta, 'time, 'c) environment \<Rightarrow> seeder_config
    \<Rightarrow> ('net, 'cache, 'n, 'l, 'fs, 'r, 'c) process \<Rightarrow> bool" where
  "process_inv E config p \<longleftrightarrow>
     list_all2 (zone_from (en_hickory E)) (btree_iter (sc_zones config)) (dh_zones (pr_handler p)) \<and>
     dom (pr_crawlers p) = dom (sc_zones config) \<and>
     (\<forall>n c. pr_crawlers p n = Some c \<longrightarrow> crawler_ok E n (pr_files p) c)"

lemma nc_network_config [simp]: "nc_network (network_config z n) = to_zebra z n"
  by (simp add: network_config_def Let_def)

lemma network_paths_differ:
  assumes "environment_laws E" "n \<noteq> n'" "network_path E n = network_path E n'"
  shows "network_path E n = None"
proof (rule ccontr)
  have name: "\<exists>dir. path = dir @ [''network'', zb_lowercase_name (en_zebra E) (to_zebra (en_zebra E) m) @ ''.activation'']"
    if "network_path E m = Some path" for m path
    using that by (auto simp: network_path_def confirmation_path_def path_join_def)
  assume "network_path E n \<noteq> None"
  then obtain path where "network_path E n = Some path" "network_path E n' = Some path" using assms(3) by auto
  from this[THEN name] have "zb_lowercase_name (en_zebra E) (to_zebra (en_zebra E) n) =
      zb_lowercase_name (en_zebra E) (to_zebra (en_zebra E) n')"
    by auto
  with assms(1,2) show False by (cases n; cases n') (auto simp: environment_laws_def)
qed

lemma chain_lawsD: "environment_laws E \<Longrightarrow> chain_laws (en_zebra E) (to_zebra (en_zebra E) n)"
  by (cases n) (simp_all add: environment_laws_def)

text \<open>What a pass of an observer can do to its tip and to the files.\<close>

lemma observer_pass_effect:
  fixes z api sh iv fs network ua target path ob i
  defines "ob' \<equiv> snd (observer_pass z api sh iv fs network ua target path ob i)"
  shows "(ob_tip ob' = ob_tip ob \<and> ob_files ob' = ob_files ob) \<or>
    (\<exists>r. persist_confirmation fs (ob_files ob) path target = (r, ob_files ob') \<and>
       ob_tip ob' = (if is_ok r then confirm_activation (ob_tip ob) else ob_tip ob))"
proof (cases "ob_running ob")
  case True
  show ?thesis
    by (auto simp: ob'_def observer_pass_running[OF True] Let_def split: sum.split prod.split)
qed (simp add: ob'_def observer_pass_stopped)

text \<open>A write by the observer of one network leaves what loads for another as it was.\<close>

lemma persist_loads:
  assumes laws: "environment_laws E"
    and persist: "persist_confirmation (en_files E) files (network_path E n) (network_target E n) = (r, files')"
  shows "load_confirmation (en_files E) files' (network_path E m) (network_target E m) \<longleftrightarrow>
    (m = n \<and> is_ok r) \<or> load_confirmation (en_files E) files (network_path E m) (network_target E m)"
proof -
  have fs: "file_system_laws (en_files E)" using laws by (simp add: environment_laws_def observer_laws_def)
  show ?thesis
  proof (cases r)
    case (Inl e)
    with store.persist_fail[OF fs] persist show ?thesis by simp
  next
    case (Inr u)
    show ?thesis
    proof (cases "m = n")
      case True
      with Inr store.reload[OF fs] persist show ?thesis by simp
    next
      case False
      have "network_path E n \<noteq> None" using persist Inr by (auto simp: persist_confirmation_def split: option.splits)
      with network_paths_differ[OF laws, of n m] False have "network_path E m \<noteq> network_path E n" by auto
      with store.persist_other[OF fs persist] False show ?thesis by simp
    qed
  qed
qed

lemma zone_crawlers_invD:
  assumes "process_inv E config p" "pr_crawlers p n = Some c"
  shows "crawler_ok E n (pr_files p) c"
  using assms by (simp add: process_inv_def)

text \<open>
  Each turn that changes one crawler preserves the invariant when that crawler stays in order
  and whatever loaded before still loads.
\<close>

lemma crawler_update_inv:
  assumes inv: "process_inv E config p" and c: "pr_crawlers p n = Some c"
    and ok: "crawler_ok E n files' c'"
    and loads: "\<And>m. load_confirmation (en_files E) (pr_files p) (network_path E m) (network_target E m) \<Longrightarrow>
      load_confirmation (en_files E) files' (network_path E m) (network_target E m)"
  shows "process_inv E config (p\<lparr>pr_files := files', pr_crawlers := (pr_crawlers p)(n \<mapsto> c')\<rparr>)"
proof -
  have "crawler_ok E m files' d" if "pr_crawlers p m = Some d" for m d
    using zone_crawlers_invD[OF inv that] loads[of m] by (auto simp: crawler_ok_def)
  moreover have "n \<in> dom (sc_zones config)" using inv c by (auto simp: process_inv_def)
  ultimately show ?thesis using inv ok by (auto simp: process_inv_def insert_absorb)
qed

lemma refresh_turn_crawler:
  assumes "pr_crawlers p n = Some c"
  shows "refresh_turn E n book poisoned now p = p\<lparr>pr_crawlers := (pr_crawlers p)(n \<mapsto> c\<lparr>cr_cache :=
    snd (refresh_cache (en_zebra E) (en_book E) (en_shuffler E) n (at_required_version (cr_target c)) (cr_cache c)
      \<lparr>ri_book = book, ri_poisoned = poisoned, ri_now = now, ri_tip = ob_tip (cr_observer c),
       ri_receivers_alive = True\<rparr>)\<rparr>)\<rparr>"
  by (simp add: refresh_turn_def assms Let_def split_beta)

lemma refresh_keeps_running:
  "ri_receivers_alive i \<Longrightarrow> ck_running (snd (refresh_cache z api sh n target ck i)) = ck_running ck"
  by (simp add: refresh_cache_def Let_def split_beta)

lemma shuffle_law: "environment_laws E \<Longrightarrow> is_shuffle (en_shuffler E)"
  by (simp add: environment_laws_def observer_laws_def)

lemma refresh_turn_inv:
  assumes laws: "environment_laws E" and inv: "process_inv E config p"
  shows "process_inv E config (refresh_turn E n book poisoned now p)"
proof (cases "pr_crawlers p n")
  case None
  with inv show ?thesis by (simp add: refresh_turn_def)
next
  case (Some c)
  let ?c = "c\<lparr>cr_cache := snd (refresh_cache (en_zebra E) (en_book E) (en_shuffler E) n
    (at_required_version (cr_target c)) (cr_cache c) \<lparr>ri_book = book, ri_poisoned = poisoned, ri_now = now,
      ri_tip = ob_tip (cr_observer c), ri_receivers_alive = True\<rparr>)\<rparr>"
  have "crawler_ok E n (pr_files p) ?c"
    using zone_crawlers_invD[OF inv Some]
    by (simp add: crawler_ok_def refresh_keeps_running refresh_cache_ok[OF shuffle_law[OF laws]])
  from crawler_update_inv[OF inv Some this] show ?thesis
    by (simp add: refresh_turn_crawler[OF Some])
qed

lemma observer_turn_crawler:
  assumes "pr_crawlers p n = Some c" "ob_running (cr_observer c)"
  shows "observer_turn E n i p =
    (let ob' = snd (observer_pass (en_zebra E) (en_book E) (en_shuffler E) (en_values E) (en_files E) n
        (cr_user_agent c) (cr_target c) (cr_confirmation_path c) ((cr_observer c)\<lparr>ob_files := pr_files p\<rparr>) i)
     in p\<lparr>pr_files := ob_files ob', pr_crawlers := (pr_crawlers p)(n \<mapsto> c\<lparr>cr_observer := ob'\<rparr>)\<rparr>)"
  by (simp add: observer_turn_def assms split_beta Let_def)

lemma observer_turn_cases:
  obtains "observer_turn E n i p = p" | c where "pr_crawlers p n = Some c" "ob_running (cr_observer c)"
proof -
  have "observer_turn E n i p = p \<or> (\<exists>c. pr_crawlers p n = Some c \<and> ob_running (cr_observer c))"
    by (cases "pr_crawlers p n") (simp_all add: observer_turn_def)
  with that show thesis by blast
qed

lemma observer_turn_inv:
  assumes laws: "environment_laws E" and inv: "process_inv E config p"
  shows "process_inv E config (observer_turn E n i p)"
proof (rule observer_turn_cases[of E n i p])
  assume "observer_turn E n i p = p"
  with inv show ?thesis by simp
next
  fix c assume Some: "pr_crawlers p n = Some c" and running: "ob_running (cr_observer c)"
  define ob where "ob = (cr_observer c)\<lparr>ob_files := pr_files p\<rparr>"
  define ob' where "ob' = snd (observer_pass (en_zebra E) (en_book E) (en_shuffler E) (en_values E) (en_files E) n
    (cr_user_agent c) (cr_target c) (cr_confirmation_path c) ob i)"
  have turn: "observer_turn E n i p =
      p\<lparr>pr_files := ob_files ob', pr_crawlers := (pr_crawlers p)(n \<mapsto> c\<lparr>cr_observer := ob'\<rparr>)\<rparr>"
    by (simp add: observer_turn_crawler[OF Some running] ob_def ob'_def Let_def)
  note ok = zone_crawlers_invD[OF inv Some]
  have fields: "cr_target c = network_target E n" "cr_confirmation_path c = network_path E n"
    "ob_tip ob = ob_tip (cr_observer c)" "ob_files ob = pr_files p"
    using ok by (simp_all add: crawler_ok_def ob_def)
  consider (same) "ob_tip ob' = ob_tip ob" "ob_files ob' = pr_files p"
    | (written) r where "persist_confirmation (en_files E) (pr_files p) (network_path E n) (network_target E n) = (r, ob_files ob')"
        "ob_tip ob' = (if is_ok r then confirm_activation (ob_tip ob) else ob_tip ob)"
    using observer_pass_effect[of "en_zebra E" "en_book E" "en_shuffler E" "en_values E" "en_files E" n
        "cr_user_agent c" "cr_target c" "cr_confirmation_path c" ob i, folded ob'_def]
    unfolding fields by blast
  then show ?thesis
  proof cases
    case same
    then have "crawler_ok E n (ob_files ob') (c\<lparr>cr_observer := ob'\<rparr>)"
      using ok by (simp add: crawler_ok_def fields)
    from crawler_update_inv[OF inv Some this] same show ?thesis by (simp add: turn)
  next
    case written
    note loads = persist_loads[OF laws written(1)]
    have "crawler_ok E n (ob_files ob') (c\<lparr>cr_observer := ob'\<rparr>)"
      using ok by (auto simp: crawler_ok_def fields loads written(2))
    from crawler_update_inv[OF inv Some this] loads show ?thesis by (simp add: turn)
  qed
qed

text \<open>A process that starts has its crawlers in order, whatever the files hold.\<close>

lemma crawler_of_ok:
  assumes laws: "environment_laws E"
  shows "crawler_ok E n files (crawler_of (en_zebra E) (en_files E) env files r n)"
  using new_tip_confirmed_iff[OF chain_lawsD[OF laws, of n]]
  by (simp add: crawler_ok_def crawler_of_def Let_def network_target_def network_path_def cache_ok_def spawn_cache_def)

lemma start_process_inv:
  assumes laws: "environment_laws E"
    and start: "start_process (en_zebra E) (en_hickory E) (en_files E) (en_build E) bu bt bh files r config = Inr p"
  shows "process_inv E config p"
  using start_process_started[OF start] crawler_of_ok[OF laws]
  by (auto simp: process_started_def process_inv_def dom_def split: if_splits)

text \<open>Queries and passes of the prune loop touch only the limiter.\<close>

lemma limiter_turn_frame [simp]:
  "process_inv E config (p\<lparr>pr_handler := (pr_handler p)\<lparr>dh_rate_limiter := l\<rparr>\<rparr>) = process_inv E config p"
  by (simp add: process_inv_def)

lemma step_inv:
  assumes laws: "environment_laws E"
    and step: "process_step E config p e p'" and inv: "process_inv E config p"
  shows "process_inv E config p'"
  using step
proof cases
  case (refresh_step n book now poisoned)
  then show ?thesis using refresh_turn_inv[OF laws inv] by simp
next
  case (observer_step i n)
  then show ?thesis using observer_turn_inv[OF laws inv] by simp
next
  case (query_step send now request out)
  then show ?thesis using inv by (auto simp: query_turn_def Let_def)
next
  case (prune_step now)
  then show ?thesis using inv by (simp add: prune_turn_def)
next
  case (health_step zones threshold)
  then show ?thesis using inv by simp
next
  case (restart_step r)
  show ?thesis by (rule start_process_inv[OF laws restart_step(2)])
qed

lemma process_run_inv:
  assumes laws: "environment_laws E" and run: "process_run E config p es p'" and inv: "process_inv E config p"
  shows "process_inv E config p'"
  using run inv by induction (auto intro: step_inv[OF laws])

lemma started_inv:
  "environment_laws E \<Longrightarrow> started_process E config p \<Longrightarrow> process_inv E config p"
  by (auto simp: started_process_def intro: start_process_inv)

section \<open>The floor over a run\<close>

definition tip_at :: "('net, 'cache, 'n, 'l, 'fs, 'r, 'c) process \<Rightarrow> zcash_network \<Rightarrow> seeder_chain_tip option" where
  "tip_at p n = map_option (\<lambda>c. ob_tip (cr_observer c)) (pr_crawlers p n)"

definition tip_raised :: "seeder_chain_tip option \<Rightarrow> seeder_chain_tip option \<Rightarrow> bool" where
  "tip_raised t t' \<longleftrightarrow> (case (t, t') of
     (Some t, Some t') \<Rightarrow> ct_watched_height t \<le> ct_watched_height t' \<and>
       (is_activation_confirmed t \<longrightarrow> is_activation_confirmed t')
   | (None, None) \<Rightarrow> True
   | _ \<Rightarrow> False)"

lemma tip_raised_refl [simp]: "tip_raised t t"
  by (simp add: tip_raised_def split: option.split)

lemma tip_raised_trans: "tip_raised t u \<Longrightarrow> tip_raised u v \<Longrightarrow> tip_raised t v"
  by (auto simp: tip_raised_def split: option.splits)

lemma tip_raised_confirm [simp]: "tip_raised (Some t) (Some (confirm_activation t))"
  by (simp add: tip_raised_def confirm_raises)

lemma pre_activation_below:
  assumes "chain_laws z network"
  shows "at_pre_activation_height (latest_target z network) < at_activation_height (latest_target z network)"
  using new_tip_confirmed_iff[OF assms, of False]
  by (simp add: is_activation_confirmed_def new_tip_def not_le)

lemma observer_turn_tip: "tip_raised (tip_at p n) (tip_at (observer_turn E m i p) n)"
proof (rule observer_turn_cases[of E m i p])
  assume "observer_turn E m i p = p"
  then show ?thesis by simp
next
  fix c assume Some: "pr_crawlers p m = Some c" and running: "ob_running (cr_observer c)"
  define ob' where "ob' = snd (observer_pass (en_zebra E) (en_book E) (en_shuffler E) (en_values E) (en_files E) m
    (cr_user_agent c) (cr_target c) (cr_confirmation_path c) ((cr_observer c)\<lparr>ob_files := pr_files p\<rparr>) i)"
  have "ob_tip ob' \<in> {ob_tip (cr_observer c), confirm_activation (ob_tip (cr_observer c))}"
    using observer_pass_effect[of "en_zebra E" "en_book E" "en_shuffler E" "en_values E" "en_files E" m
        "cr_user_agent c" "cr_target c" "cr_confirmation_path c" "(cr_observer c)\<lparr>ob_files := pr_files p\<rparr>" i,
        folded ob'_def]
    by (auto split: if_splits)
  moreover have "tip_at (observer_turn E m i p) n = (if n = m then Some (ob_tip ob') else tip_at p n)"
    by (simp add: observer_turn_crawler[OF Some running] tip_at_def ob'_def Let_def)
  ultimately show ?thesis by (auto simp: tip_at_def Some)
qed

lemma refresh_turn_tip: "tip_at (refresh_turn E m book poisoned now p) n = tip_at p n"
  by (cases "pr_crawlers p m") (simp_all add: refresh_turn_def tip_at_def Let_def split_beta)

lemma restart_tip:
  assumes laws: "environment_laws E" and inv: "process_inv E config p"
    and start: "start_process (en_zebra E) (en_hickory E) (en_files E) (en_build E) bu bt bh (pr_files p) r config = Inr p'"
  shows "tip_raised (tip_at p n) (tip_at p' n)"
proof (cases "pr_crawlers p n")
  case None
  then have "n \<notin> dom (sc_zones config)" using inv by (auto simp: process_inv_def)
  with start_process_started[OF start] None show ?thesis by (simp add: process_started_def tip_at_def)
next
  case (Some c)
  then have n: "n \<in> dom (sc_zones config)" using inv by (auto simp: process_inv_def)
  let ?t = "network_target E n"
  let ?l = "load_confirmation (en_files E) (pr_files p) (network_path E n) ?t"
  have tip: "tip_at p n = Some (ob_tip (cr_observer c))" by (simp add: tip_at_def Some)
  have tip': "tip_at p' n = Some (new_tip ?t ?l)"
    using start_process_started[OF start] n
    by (simp add: process_started_def tip_at_def crawler_of_def Let_def network_target_def network_path_def)
  have ok: "tip_of_target ?t (ob_tip (cr_observer c))" "is_activation_confirmed (ob_tip (cr_observer c)) \<longrightarrow> ?l"
    using zone_crawlers_invD[OF inv Some] by (simp_all add: crawler_ok_def)
  moreover have "at_pre_activation_height ?t < at_activation_height ?t"
    using pre_activation_below[OF chain_lawsD[OF laws]] by (simp add: network_target_def)
  ultimately show ?thesis
    unfolding tip tip'
    by (auto simp: tip_raised_def tip_of_target_def new_tip_def is_activation_confirmed_def Let_def)
qed

lemma step_tip:
  assumes laws: "environment_laws E"
    and step: "process_step E config p e p'" and inv: "process_inv E config p"
  shows "tip_raised (tip_at p n) (tip_at p' n)"
  using step
proof cases
  case (refresh_step m book now poisoned)
  then show ?thesis by (simp add: refresh_turn_tip)
next
  case (observer_step i m)
  then show ?thesis by (simp add: observer_turn_tip)
next
  case (query_step send now request out)
  then show ?thesis by (auto simp: query_turn_def tip_at_def Let_def)
next
  case (prune_step now)
  then show ?thesis by (simp add: prune_turn_def tip_at_def)
next
  case (health_step zones threshold)
  then show ?thesis by simp
next
  case (restart_step r)
  show ?thesis by (rule restart_tip[OF laws inv restart_step(2)])
qed

lemma run_tip:
  assumes laws: "environment_laws E" and run: "process_run E config p es p'" and inv: "process_inv E config p"
  shows "tip_raised (tip_at p n) (tip_at p' n)"
  using run inv
proof induction
  case (run_snoc p es q e q')
  have "process_inv E config q" by (rule process_run_inv[OF laws run_snoc.hyps(1) run_snoc.prems])
  from step_tip[OF laws run_snoc.hyps(2) this] run_snoc.IH[OF run_snoc.prems] show ?case
    by (rule tip_raised_trans[rotated])
qed simp

lemma confirmed_tip_floor:
  assumes laws: "environment_laws E" and inv: "process_inv E config p"
    and t: "tip_at p n = Some t" and confirmed: "is_activation_confirmed t"
  shows "at_required_version (network_target E n) \<le> protocol_floor (en_zebra E) (to_zebra (en_zebra E) n) t"
proof -
  from t obtain c where "pr_crawlers p n = Some c" "t = ob_tip (cr_observer c)" by (auto simp: tip_at_def)
  with zone_crawlers_invD[OF inv, of n c]
  have "ct_activation_height t = at_activation_height (latest_target (en_zebra E) (to_zebra (en_zebra E) n))"
    by (simp add: crawler_ok_def tip_of_target_def network_target_def)
  from confirmed_floor[OF chain_lawsD[OF laws] this confirmed] show ?thesis by (simp add: network_target_def)
qed

text \<open>What a tip that was raised, or not, says about the floor and the record.\<close>

lemma raised_floor:
  assumes laws: "environment_laws E" and inv: "process_inv E config p'" and t': "tip_at p' n = Some t'"
    and raised: "ct_watched_height t \<le> ct_watched_height t'" "is_activation_confirmed t \<longrightarrow> is_activation_confirmed t'"
  shows "protocol_floor (en_zebra E) (to_zebra (en_zebra E) n) t \<le> protocol_floor (en_zebra E) (to_zebra (en_zebra E) n) t' \<and>
    (is_activation_confirmed t \<longrightarrow> is_activation_confirmed t') \<and>
    (is_activation_confirmed t' \<longrightarrow>
      (load_confirmation (en_files E) (pr_files p') (network_path E n) (network_target E n) \<and>
       at_required_version (network_target E n) \<le> protocol_floor (en_zebra E) (to_zebra (en_zebra E) n) t'))"
proof -
  from t' obtain c where c: "pr_crawlers p' n = Some c" "t' = ob_tip (cr_observer c)" by (auto simp: tip_at_def)
  from zone_crawlers_invD[OF inv c(1)]
  have "is_activation_confirmed t' \<longrightarrow> load_confirmation (en_files E) (pr_files p') (network_path E n) (network_target E n)"
    by (simp add: crawler_ok_def c(2))
  with raised floor_mono[OF chain_lawsD[OF laws] raised(1)] confirmed_tip_floor[OF laws inv t'] show ?thesis by simp
qed

section \<open>What the handler serves over a run\<close>

lemma inv_zone:
  assumes "process_inv E config p" "zone \<in> set (dh_zones (pr_handler p))"
  shows "well_built zone \<and> sz_servable_peers zone = sz_network zone \<and> sz_network zone \<in> dom (sc_zones config)"
proof -
  from assms(1) have "list_all2 (zone_from (en_hickory E)) (btree_iter (sc_zones config)) (dh_zones (pr_handler p))"
    by (simp add: process_inv_def)
  from list_all2_set2[OF this assms(2)] obtain nz where nz: "nz \<in> set (btree_iter (sc_zones config))"
    "zone_from (en_hickory E) nz zone"
    by blast
  then have "well_built zone" using new_seed_zone_well_built by (auto simp: zone_from_def)
  moreover from nz(2) have "sz_servable_peers zone = fst nz" "sz_network zone = fst nz"
    by (auto simp: zone_from_def new_seed_zone_Inr_iff zone_of_texts_def)
  moreover from nz(1) have "fst nz \<in> dom (sc_zones config)"
    by (metis domI mem_btree_iter prod.collapse)
  ultimately show ?thesis by simp
qed

lemma inv_snapshot: "process_inv E config p \<Longrightarrow> snapshot_ok (crawler_snapshot p n)"
  by (cases "pr_crawlers p n") (auto simp: crawler_snapshot_def process_inv_def crawler_ok_def cache_ok_def)

text \<open>Between two refreshes of a network what its zone reads does not change.\<close>

definition keeps_snapshot :: "zcash_network \<Rightarrow> ('n, 'l, 'm, 'i, 'c, 'book, 'time) process_event \<Rightarrow> bool" where
  "keeps_snapshot n e = (case e of
     CacheRefreshed m _ _ \<Rightarrow> m \<noteq> n
   | ProcessRestarted \<Rightarrow> False
   | _ \<Rightarrow> True)"

lemma step_keeps_snapshot:
  assumes "process_step E config p e p'" "keeps_snapshot n e"
  shows "crawler_snapshot p' n = crawler_snapshot p n"
  using assms(1)
proof cases
  case (refresh_step m book now poisoned)
  with assms(2) show ?thesis
    by (cases "pr_crawlers p m") (simp_all add: keeps_snapshot_def refresh_turn_def crawler_snapshot_def split_beta Let_def)
next
  case (observer_step i m)
  then show ?thesis
    by (cases "pr_crawlers p m") (auto simp: observer_turn_def crawler_snapshot_def split_beta Let_def)
next
  case (query_step send now request out)
  then show ?thesis by (auto simp: query_turn_def crawler_snapshot_def Let_def)
next
  case (restart_step r)
  with assms(2) show ?thesis by (simp add: keeps_snapshot_def)
qed (simp_all add: prune_turn_def crawler_snapshot_def)

lemma run_keeps_snapshot:
  assumes "process_run E config p es p'" "list_all (keeps_snapshot n) es"
  shows "crawler_snapshot p' n = crawler_snapshot p n"
  using assms by induction (simp_all add: step_keeps_snapshot)

lemma refresh_turn_serves:
  assumes laws: "environment_laws E" and inv: "process_inv E config p" and c: "pr_crawlers p n = Some c"
  shows "served_from (en_zebra E) (en_book E) book now (to_zebra (en_zebra E) n)
    (protocol_floor (en_zebra E) (to_zebra (en_zebra E) n) (ob_tip (cr_observer c)))
    (at_required_version (network_target E n)) (crawler_snapshot (refresh_turn E n book poisoned now p) n)"
proof -
  from zone_crawlers_invD[OF inv c] have "ck_running (cr_cache c)" "cr_target c = network_target E n"
    by (simp_all add: crawler_ok_def)
  with refresh_published[OF shuffle_law[OF laws], of "en_zebra E" "en_book E" n "at_required_version (cr_target c)"
      "cr_cache c" "\<lparr>ri_book = book, ri_poisoned = poisoned, ri_now = now, ri_tip = ob_tip (cr_observer c),
        ri_receivers_alive = True\<rparr>"]
  show ?thesis by (simp add: refresh_turn_crawler[OF c] crawler_snapshot_def Let_def)
qed

text \<open>
  A query answered in a zone: at most 25 address records, all from the snapshot that the zone's
  network last published.
\<close>

lemma response_from_snapshot:
  assumes inv: "process_inv E config q"
    and response: "response = query_response (en_hickory E) (crawler_snapshot q) (pr_handler q) request"
    and query: "rq_queries request = (name, ty) # more_queries" and ty: "ty \<in> {RecordA, RecordAAAA}"
    and matching: "matching_zone (en_hickory E) (dh_zones (pr_handler q)) name = Some zone"
  shows "length (rs_answers response) \<le> 25 \<and>
    (\<forall>r \<in> set (rs_answers response). \<exists>a.
       a \<in> set (sp_ipv4 (crawler_snapshot q (sz_network zone))) \<union> set (sp_ipv6 (crawler_snapshot q (sz_network zone))) \<and>
       r = peer_record (en_hickory E) name (sz_ttl zone) a)"
proof -
  let ?p = "crawler_snapshot q (sz_network zone)"
  let ?rr = "fst (response_records_for_answer (en_hickory E) zone name
    (resolve_answer (en_hickory E) zone name ty ?p))"
  from matching_zone_contains[OF matching] have "zone \<in> set (dh_zones (pr_handler q))" by simp
  note zone = inv_zone[OF inv this]
  have answers: "rs_answers response = rr_answer_records ?rr"
    using zone by (simp add: response response_in_zone[OF query matching] Let_def)
  have "length (rr_answer_records ?rr) \<le> 25"
    using answer_facts[OF conjunct1[OF zone] inv_snapshot[OF inv, of "sz_network zone"], of "en_hickory E" name ty] ty
    by (auto simp: Let_def)
  moreover have "\<exists>a. a \<in> set (sp_ipv4 ?p) \<union> set (sp_ipv6 ?p) \<and> r = peer_record (en_hickory E) name (sz_ttl zone) a"
    if "r \<in> set (rr_answer_records ?rr)" for r
    using peer_answer_records[OF that ty] by (auto split: if_splits)
  ultimately show ?thesis by (simp add: answers)
qed

lemma answers_from_snapshot:
  assumes inv: "process_inv E config q"
    and step: "process_step E config q (QueryHandled request out) q'" and sent: "hd_sent out = Some response"
    and query: "rq_queries request = (name, ty) # more_queries" and ty: "ty \<in> {RecordA, RecordAAAA}"
    and matching: "matching_zone (en_hickory E) (dh_zones (pr_handler q)) name = Some zone"
  shows "length (rs_answers response) \<le> 25 \<and>
    (\<forall>r \<in> set (rs_answers response). \<exists>a.
       a \<in> set (sp_ipv4 (crawler_snapshot q (sz_network zone))) \<union> set (sp_ipv6 (crawler_snapshot q (sz_network zone))) \<and>
       r = peer_record (en_hickory E) name (sz_ttl zone) a)"
proof -
  obtain send clock where "query_turn E send clock request q = (out, q')"
    using step by (rule query_stepE)
  then have "out = answer_request (en_hickory E) (en_governor E) (crawler_snapshot q) send clock (pr_handler q) request"
    by (simp add: query_turn_def Let_def)
  with sent have "response = query_response (en_hickory E) (crawler_snapshot q) (pr_handler q) request"
    by (auto dest: sent_is_query_response)
  from response_from_snapshot[OF inv this query ty matching] show ?thesis .
qed

text \<open>The records of a query after a refresh are addresses of servable peers of the refreshed book.\<close>

lemma answers_after_refresh:
  assumes laws: "environment_laws E" and inv: "process_inv E config p"
    and refresh: "process_step E config p (CacheRefreshed n book now) q"
    and quiet: "process_run E config q es q'" "list_all (keeps_snapshot n) es"
    and query: "process_step E config q' (QueryHandled request out) q''" "hd_sent out = Some response"
      "rq_queries request = (name, ty) # more_queries" "ty \<in> {RecordA, RecordAAAA}"
    and zone: "matching_zone (en_hickory E) (dh_zones (pr_handler q')) name = Some zone" "sz_network zone = n"
    and tip: "tip_at p n = Some t" and r: "r \<in> set (rs_answers response)"
  shows "\<exists>m \<in> set (ab_peers (en_book E) book).
    r = peer_record (en_hickory E) name (sz_ttl zone) (ma_addr (en_book E) m) \<and>
    servable (peer_attributes_of (en_zebra E) (en_book E) book m now (to_zebra (en_zebra E) n)
      (protocol_floor (en_zebra E) (to_zebra (en_zebra E) n) t))"
proof -
  have inv': "process_inv E config q'"
    by (rule process_run_inv[OF laws quiet(1) step_inv[OF laws refresh inv]])
  from tip obtain c where c: "pr_crawlers p n = Some c" "t = ob_tip (cr_observer c)" by (auto simp: tip_at_def)
  obtain poisoned where "q = refresh_turn E n book poisoned now p" using refresh by (rule refresh_stepE)
  with refresh_turn_serves[OF laws inv c(1), of book now poisoned] run_keeps_snapshot[OF quiet]
  have served: "served_from (en_zebra E) (en_book E) book now (to_zebra (en_zebra E) n)
      (protocol_floor (en_zebra E) (to_zebra (en_zebra E) n) t) (at_required_version (network_target E n))
      (crawler_snapshot q' n)"
    by (simp add: c(2))
  from answers_from_snapshot[OF inv' query zone(1)] r zone(2) obtain a
    where "a \<in> set (sp_ipv4 (crawler_snapshot q' n)) \<union> set (sp_ipv6 (crawler_snapshot q' n))"
      and "r = peer_record (en_hickory E) name (sz_ttl zone) a"
    by blast
  with served_from_lists[OF served, of a] show ?thesis by blast
qed

section \<open>Restarting\<close>

text \<open>Neither the zones nor the errors of a start depend on the files or on the generator.\<close>

lemma start_again:
  assumes "start_process z h fs env bu bt bh files r config =
    (Inr p :: 'l run_error + ('net, 'cache, 'n, 'l, 'fs, 'r, 'c) process)"
  shows "\<exists>p'. start_process z h fs env bu bt bh files' r' config =
    (Inr p' :: 'l run_error + ('net, 'cache, 'n, 'l, 'fs, 'r, 'c) process)"
proof -
  from assms obtain szs limiter health where bound: "\<exists>d. bind_dns_sockets bu bt (dc_listen_addr (sc_dns config)) = Inr d"
    and zones: "list_all2 (zone_from h) (btree_iter (sc_zones config)) szs"
    and limiter: "(start_limiter config :: 'l run_error + 'c rate_limiter option) = Inr limiter"
    and health: "(start_health bh szs config :: 'l run_error + _) = Inr health"
    by (auto simp: start_process_def bind_result_Inr_iff spawn_loop_Inr map_err_def split: sum.splits)
  obtain cs where "(result_fold (spawn_step z h fs env files' r') ([], \<lambda>_. None) (btree_iter (sc_zones config)) ::
      'l run_error + _) = Inr (szs, cs)"
    using zones by (auto simp: spawn_loop_Inr)
  with bound limiter health show ?thesis
    by (auto simp: start_process_def map_err_def)
qed

lemma restart_exists:
  assumes "started_process E config p0"
  shows "\<exists>p'. process_step E config p ProcessRestarted p'"
proof -
  from assms obtain files r where "start_process (en_zebra E) (en_hickory E) (en_files E) (en_build E)
      (\<lambda>_. Inr ()) (\<lambda>_. Inr ()) (\<lambda>_. Inr ()) files r config = Inr p0"
    by (auto simp: started_process_def)
  from start_again[OF this, of "pr_files p" r] show ?thesis by (auto intro: restart_step)
qed

lemma zone_lists_unique:
  "list_all2 (zone_from h) nzs zs \<Longrightarrow> list_all2 (zone_from h) nzs zs' \<Longrightarrow> zs' = zs"
  by (induction nzs arbitrary: zs zs') (auto simp: list_all2_Cons1 zone_from_def)

lemma inv_zones_unique:
  "process_inv E config p \<Longrightarrow> process_inv E config p' \<Longrightarrow> dh_zones (pr_handler p') = dh_zones (pr_handler p)"
  by (auto simp: process_inv_def intro: zone_lists_unique)

section \<open>Properties of the running process\<close>

text \<open>The protocol floor never falls, whatever happens: from any state that a process reaches
  after it started, over refreshes, observer passes, queries, probes and crashes of any number
  and in any order, restarts included, no network's tip falls, a confirmed activation stays
  confirmed, and the floor zebra derives from the tip never falls. Whenever a tip is confirmed,
  its record is on the shared files, where no other network's record can replace it, and the
  floor is at least the version the newest activation requires.\<close>

theorem floor_never_falls:
  assumes "environment_laws E" "started_process E config p0"
    and "process_run E config p0 es p" "process_run E config p es' p'"
    and "tip_at p n = Some t"
  shows "\<exists>t'. tip_at p' n = Some t' \<and>
    protocol_floor (en_zebra E) (to_zebra (en_zebra E) n) t \<le> protocol_floor (en_zebra E) (to_zebra (en_zebra E) n) t' \<and>
    (is_activation_confirmed t \<longrightarrow> is_activation_confirmed t') \<and>
    (is_activation_confirmed t' \<longrightarrow>
      (load_confirmation (en_files E) (pr_files p') (network_path E n) (network_target E n) \<and>
       at_required_version (network_target E n) \<le> protocol_floor (en_zebra E) (to_zebra (en_zebra E) n) t'))"
proof -
  have inv: "process_inv E config p" by (rule process_run_inv[OF assms(1,3) started_inv[OF assms(1,2)]])
  have inv': "process_inv E config p'" by (rule process_run_inv[OF assms(1,4) inv])
  from run_tip[OF assms(1,4) inv, of n] assms(5) obtain t' where t': "tip_at p' n = Some t'"
    and raised: "ct_watched_height t \<le> ct_watched_height t'" "is_activation_confirmed t \<longrightarrow> is_activation_confirmed t'"
    by (auto simp: tip_raised_def split: option.splits)
  from t' raised_floor[OF assms(1) inv' t' raised] show ?thesis by blast
qed

text \<open>C6: A process that started once can always be restarted: from every state it reaches, when the
  sockets can be bound again, a restart on the files left behind succeeds, serves the same
  zones, from empty snapshots, and starts every network at a tip at least as high as the one it
  had.\<close>

theorem restart_always_possible:
  assumes "environment_laws E" "started_process E config p0" "process_run E config p0 es p"
  shows "\<exists>p'. process_step E config p ProcessRestarted p' \<and>
    dh_zones (pr_handler p') = dh_zones (pr_handler p) \<and> dh_zones (pr_handler p') = dh_zones (pr_handler p0) \<and>
    (\<forall>n. tip_raised (tip_at p n) (tip_at p' n) \<and> crawler_snapshot p' n = default_servable_peers)"
proof -
  have inv0: "process_inv E config p0" by (rule started_inv[OF assms(1,2)])
  have inv: "process_inv E config p" by (rule process_run_inv[OF assms(1,3) inv0])
  obtain p' where step: "process_step E config p ProcessRestarted p'"
    using restart_exists[OF assms(2), of p] by blast
  then obtain r where start: "start_process (en_zebra E) (en_hickory E) (en_files E) (en_build E)
      (\<lambda>_. Inr ()) (\<lambda>_. Inr ()) (\<lambda>_. Inr ()) (pr_files p) r config = Inr p'"
    by (auto elim: restart_stepE)
  have inv': "process_inv E config p'" by (rule start_process_inv[OF assms(1) start])
  have snapshot: "crawler_snapshot p' n = default_servable_peers" for n
    using start_process_started[OF start]
    by (simp add: process_started_def crawler_snapshot_def crawler_of_def spawn_cache_def Let_def)
  have tips: "tip_raised (tip_at p n) (tip_at p' n)" for n
    by (rule restart_tip[OF assms(1) inv start])
  show ?thesis
    by (intro exI[of _ p'] conjI allI restart_step[OF start])
      (simp_all add: snapshot tips inv_zones_unique[OF inv inv'] inv_zones_unique[OF inv0 inv])
qed

text \<open>C4: What DNS clients are told, end to end: whatever a started process has been through, once a
  network's cache task has refreshed from an address book, every address record sent for a name
  of that network's zone, until its next refresh or a restart, is the address of a peer of that
  very book that met every serving condition, at the floor the tip stood at when the refresh
  ran; and there are at most 25 of them.\<close>

theorem answers_come_from_last_refresh:
  assumes "environment_laws E" "started_process E config p0" "process_run E config p0 es p"
    and "process_step E config p (CacheRefreshed n book now) q"
    and "process_run E config q es' q'" "list_all (keeps_snapshot n) es'"
    and "process_step E config q' (QueryHandled request out) q''" "hd_sent out = Some response"
    and "rq_queries request = (name, ty) # more_queries" "ty \<in> {RecordA, RecordAAAA}"
    and "matching_zone (en_hickory E) (dh_zones (pr_handler q')) name = Some zone" "sz_network zone = n"
    and "tip_at p n = Some t"
  shows "length (rs_answers response) \<le> 25 \<and>
    (\<forall>r \<in> set (rs_answers response). \<exists>m \<in> set (ab_peers (en_book E) book).
       r = peer_record (en_hickory E) name (sz_ttl zone) (ma_addr (en_book E) m) \<and>
       servable (peer_attributes_of (en_zebra E) (en_book E) book m now (to_zebra (en_zebra E) n)
         (protocol_floor (en_zebra E) (to_zebra (en_zebra E) n) t)))"
proof -
  have inv: "process_inv E config p" by (rule process_run_inv[OF assms(1,3) started_inv[OF assms(1,2)]])
  have "process_inv E config q'"
    by (rule process_run_inv[OF assms(1,5) step_inv[OF assms(1,4) inv]])
  from answers_from_snapshot[OF this assms(7-11)] answers_after_refresh[OF assms(1) inv assms(4-13)]
  show ?thesis by blast
qed

section \<open>A running process for the witnesses\<close>

definition open_governor :: "nat governor" where
  "open_governor = \<lparr>gv_check = (\<lambda>q t cell. (True, cell)), gv_recent = (\<lambda>q t cell. True)\<rparr>"

definition sample_environment ::
  "(bool, path option, string list, string list, (path \<times> string) list, nat, sample_meta list, sample_meta,
    nat, nat) environment" where
  "sample_environment = \<lparr>en_zebra = pinned_zebra, en_hickory = sample_hickory, en_files = sample_files,
     en_build = sample_build, en_book = sample_book_api, en_shuffler = keep_order, en_values = map snd,
     en_governor = open_governor\<rparr>"

lemma sample_environment_laws: "environment_laws sample_environment"
  using keep_order_laws pinned_chain_laws
  by (simp add: environment_laws_def sample_environment_def pinned_zebra_simps)

lemma sample_process_started: "\<exists>p. started_process sample_environment sample_config p"
  using sample_process_starts by (auto simp: started_process_def sample_environment_def)

theorem restart_always_possible_witness:
  "\<exists>p p'. started_process sample_environment sample_config p \<and>
     process_step sample_environment sample_config p
       (ProcessRestarted :: (string list, string list, nat, nat, nat, sample_meta list, nat) process_event) p'"
proof -
  obtain p where p: "started_process sample_environment sample_config p" using sample_process_started by blast
  have "process_run sample_environment sample_config p
      ([] :: (string list, string list, nat, nat, nat, sample_meta list, nat) process_event list) p"
    by (rule run_nil)
  from restart_always_possible[OF sample_environment_laws p this] p show ?thesis by blast
qed

theorem floor_never_falls_witness:
  "\<exists>p p' t'. started_process sample_environment sample_config p \<and>
     process_step sample_environment sample_config p
       (ProcessRestarted :: (string list, string list, nat, nat, nat, sample_meta list, nat) process_event) p' \<and>
     tip_at p' Mainnet = Some t'"
proof -
  obtain p where p: "started_process sample_environment sample_config p" using sample_process_started by blast
  let ?e = "ProcessRestarted :: (string list, string list, nat, nat, nat, sample_meta list, nat) process_event"
  obtain p' where step: "process_step sample_environment sample_config p ?e p'"
    using restart_exists[OF p] by blast
  have runs: "process_run sample_environment sample_config p [] p"
    "process_run sample_environment sample_config p [?e] p'"
    using run_snoc[OF run_nil step] by (simp_all add: run_nil)
  have "dom (pr_crawlers p) = dom (sc_zones sample_config)"
    using started_inv[OF sample_environment_laws p] by (simp add: process_inv_def)
  then have "Mainnet \<in> dom (pr_crawlers p)" by (simp add: sample_config_def)
  then obtain t where "tip_at p Mainnet = Some t" by (auto simp: tip_at_def)
  from floor_never_falls[OF sample_environment_laws p runs this] p step show ?thesis by blast
qed

text \<open>The Mainnet zone of the sample process, and the zone a query for its domain is routed to.\<close>

lemma sample_mainnet_zone:
  assumes "started_process sample_environment sample_config p"
  shows "\<exists>zone. sz_network zone = Mainnet \<and>
    matching_zone sample_hickory (dh_zones (pr_handler p)) (sz_domain zone) = Some zone"
proof -
  from assms obtain files r where "start_process pinned_zebra sample_hickory sample_files sample_build
      (\<lambda>_. Inr ()) (\<lambda>_. Inr ()) (\<lambda>_. Inr ()) files r sample_config = Inr p"
    by (auto simp: started_process_def sample_environment_def)
  from start_process_started[OF this]
  have started: "process_started pinned_zebra sample_hickory sample_files sample_build files r sample_config p" .
  have "(Mainnet, sample_zone Mainnet) \<in> set (btree_iter (sc_zones sample_config))"
    by (simp add: sample_config_def mem_btree_iter)
  from list_all2_set1[OF _ this] started obtain zone where zone: "zone \<in> set (dh_zones (pr_handler p))"
    and from_config: "zone_from sample_hickory (Mainnet, sample_zone Mainnet) zone"
    by (auto simp: process_started_def)
  have "contains sample_hickory zone (sz_domain zone)"
    by (simp add: contains_def sample_hickory_def label_suffix_def)
  with matching_zone_unique[OF sample_name_laws started_zones_disjoint[OF sample_config_valid started] zone]
  have "matching_zone sample_hickory (dh_zones (pr_handler p)) (sz_domain zone) = Some zone" .
  moreover have "sz_network zone = Mainnet"
    using from_config by (auto simp: zone_from_def new_seed_zone_Inr_iff zone_of_texts_def)
  ultimately show ?thesis by blast
qed

text \<open>A refresh and then a query for the domain of the Mainnet zone.\<close>

type_synonym sample_event = "(string list, string list, nat, nat, nat, sample_meta list, nat) process_event"

lemma sample_refresh_and_query:
  assumes "started_process sample_environment sample_config p"
  shows "\<exists>q q' out response zone. sz_network zone = Mainnet \<and>
    process_step sample_environment sample_config p (CacheRefreshed Mainnet sample_book 0 :: sample_event) q \<and>
    matching_zone sample_hickory (dh_zones (pr_handler q)) (sz_domain zone) = Some zone \<and>
    process_step sample_environment sample_config q
      (QueryHandled (sample_request (sz_domain zone) RecordA) out :: sample_event) q' \<and>
    hd_sent out = Some response"
proof -
  let ?E = "sample_environment" and ?c = "sample_config"
  from sample_mainnet_zone[OF assms] obtain zone where zone: "sz_network zone = Mainnet"
    and matching: "matching_zone sample_hickory (dh_zones (pr_handler p)) (sz_domain zone) = Some zone" by blast
  define q where "q = refresh_turn ?E Mainnet sample_book False 0 p"
  have refresh: "process_step ?E ?c p (CacheRefreshed Mainnet sample_book 0 :: sample_event) q"
    unfolding q_def by (rule refresh_step)
  obtain out q' where turn: "query_turn ?E sample_send 0 (sample_request (sz_domain zone) RecordA) q = (out, q')"
    by (cases "query_turn ?E sample_send 0 (sample_request (sz_domain zone) RecordA) q")
  then have query: "process_step ?E ?c q
      (QueryHandled (sample_request (sz_domain zone) RecordA) out :: sample_event) q'" by (rule query_step)
  have handler: "pr_handler q = pr_handler p"
    by (cases "pr_crawlers p Mainnet") (simp_all add: q_def refresh_turn_def split_beta Let_def)
  have "\<not> over_budget open_governor 0 l ip" for l ip
    by (simp add: over_budget_def check_def open_governor_def split: option.split)
  then obtain response where "hd_sent out = Some response"
    using turn by (auto simp: query_turn_def sample_environment_def answer_request_cases Let_def)
  with zone refresh query matching show ?thesis unfolding handler[symmetric] by blast
qed

lemma sample_mainnet_tip:
  assumes "started_process sample_environment sample_config p"
  shows "\<exists>t. tip_at p Mainnet = Some t"
proof -
  have "Mainnet \<in> dom (pr_crawlers p)"
    using started_inv[OF sample_environment_laws assms] by (simp add: process_inv_def sample_config_def)
  then show ?thesis by (auto simp: tip_at_def)
qed

theorem answers_come_from_last_refresh_witness:
  "\<exists>p q q' out response name. started_process sample_environment sample_config p \<and>
     process_step sample_environment sample_config p (CacheRefreshed Mainnet sample_book 0 :: sample_event) q \<and>
     process_step sample_environment sample_config q
       (QueryHandled (sample_request name RecordA) out :: sample_event) q' \<and>
     hd_sent out = Some response \<and> length (rs_answers response) \<le> 25"
proof -
  obtain p where p: "started_process sample_environment sample_config p" using sample_process_started by blast
  from sample_refresh_and_query[OF p] obtain q q' out response zone where zone: "sz_network zone = Mainnet"
    and refresh: "process_step sample_environment sample_config p (CacheRefreshed Mainnet sample_book 0 :: sample_event) q"
    and matching: "matching_zone sample_hickory (dh_zones (pr_handler q)) (sz_domain zone) = Some zone"
    and query: "process_step sample_environment sample_config q
      (QueryHandled (sample_request (sz_domain zone) RecordA) out :: sample_event) q'"
    and sent: "hd_sent out = Some response"
    by blast
  obtain t where "tip_at p Mainnet = Some t" using sample_mainnet_tip[OF p] by blast
  with answers_come_from_last_refresh[OF sample_environment_laws p run_nil refresh run_nil _ query sent,
      of "sz_domain zone" RecordA "[]" zone t] zone matching
  have "length (rs_answers response) \<le> 25"
    by (simp add: sample_request_def sample_environment_def)
  with p refresh query sent show ?thesis by blast
qed

end
