(* ===== verification/Task_Stages.thy ===== *)
theory Task_Stages
  imports Query_Handler Activation_Observer
begin

text \<open>
  The passes of the tasks of \<open>src/crawl\<close> and \<open>src/dns\<close>, cut where another task can run in
  between: a refresh reads the tip, then computes from the locked book, then sends; a pass of
  the observer samples, probes and judges, writes the record, raises the tip; a query is
  checked against the limit, resolved from the snapshot and answered. Each stage is a function
  of its own, and running the stages of a pass without interruption is the pass.
\<close>

section \<open>A refresh of the cache\<close>

text \<open>
  After the sleep: the counter goes up, and the floor of this refresh is fixed from the tip as
  it stands now.
\<close>

definition begin_refresh ::
  "('net, 'cache) zebra \<Rightarrow> zcash_network \<Rightarrow> seeder_chain_tip \<Rightarrow> 'r cache_task
    \<Rightarrow> (version \<times> bool) \<times> 'r cache_task" where
  "begin_refresh z network tip ck =
     (let refresh_count = ck_refresh_count ck + 1;
          should_log_status = (refresh_count mod CRAWLER_STATUS_LOG_REFRESHES = 0);
          minimum_version = zb_min_remote_for_height z (to_zebra z network) (best_tip_height tip)
      in ((minimum_version, should_log_status), ck\<lparr>ck_refresh_count := refresh_count\<rparr>))"

text \<open>With the book locked, poisoned or not.\<close>

definition compute_refresh ::
  "('net, 'cache) zebra \<Rightarrow> ('book, 'meta, 'net, 'time) book_api \<Rightarrow> ('r, peer_addr) shuffler
    \<Rightarrow> zcash_network \<Rightarrow> version \<Rightarrow> version \<Rightarrow> bool \<Rightarrow> 'book \<Rightarrow> bool \<Rightarrow> 'time \<Rightarrow> 'r cache_task
    \<Rightarrow> (metric_op list \<times> crawler_status option) \<times> servable_peer_lists \<times> 'r cache_task" where
  "compute_refresh z api sh network target_version minimum_version should_log_status book poisoned now ck =
     (let poisoning =
            (if poisoned then [CounterIncrement MUTEX_POISONING_TOTAL [(LABEL_NETWORK, network_label network)] 1]
             else []);
          (out, r) = servable_peers z api sh (ck_rng ck) book now (to_zebra z network) minimum_version
                       target_version (network_label network) should_log_status
      in ((poisoning @ so_metrics out, so_status out), so_peers out, ck\<lparr>ck_rng := r\<rparr>))"

definition send_refresh :: "bool \<Rightarrow> servable_peer_lists \<Rightarrow> 'r cache_task \<Rightarrow> 'r cache_task" where
  "send_refresh receivers_alive peers ck =
     (if receivers_alive then ck\<lparr>ck_published := peers\<rparr> else ck\<lparr>ck_running := False\<rparr>)"

lemma refresh_stages:
  assumes "ck_running ck"
  shows "refresh_cache z api sh network target_version ck i =
    (let ((minimum_version, should_log_status), ck') = begin_refresh z network (ri_tip i) ck;
         (reports, peers, ck'') = compute_refresh z api sh network target_version minimum_version should_log_status
           (ri_book i) (ri_poisoned i) (ri_now i) ck'
     in (reports, send_refresh (ri_receivers_alive i) peers ck''))"
  using assms
  by (simp add: refresh_cache_def begin_refresh_def compute_refresh_def send_refresh_def Let_def split_beta)

section \<open>A pass of the observer\<close>

text \<open>After the tick: the peers to probe, from the locked book.\<close>

definition sample_sweep ::
  "('net, 'cache) zebra \<Rightarrow> ('book, 'meta, 'net, 'time) book_api \<Rightarrow> ('r, peer_addr) shuffler \<Rightarrow> value_order
    \<Rightarrow> zcash_network \<Rightarrow> activation_target \<Rightarrow> 'book \<Rightarrow> 'time \<Rightarrow> ('fs, 'r) observer
    \<Rightarrow> peer_addr list \<times> ('fs, 'r) observer" where
  "sample_sweep z api sh into_values network target book now ob =
     (let (sampled_peers, r) = sample_network_groups z api sh into_values (ob_rng ob) book now (to_zebra z network)
            (zb_min_remote_for_height z (to_zebra z network) (Some (at_pre_activation_height target)))
      in (sampled_peers, ob\<lparr>ob_rng := r\<rparr>))"

text \<open>When all probes have ended: the gate decides on the evidence.\<close>

definition judge_pass ::
  "('net, 'cache) zebra \<Rightarrow> zcash_network \<Rightarrow> string \<Rightarrow> activation_target \<Rightarrow> 'net probe_world
    \<Rightarrow> peer_addr list \<Rightarrow> ('fs, 'r) observer \<Rightarrow> metric_op list \<times> bool \<times> ('fs, 'r) observer" where
  "judge_pass z network user_agent target world sampled_peers ob =
     (let label = network_label network;
          (evidence, probe_ops) = observe_sweep z world sampled_peers (to_zebra z network) user_agent target label;
          (confirmed, gate) = observe (ob_gate ob) evidence
      in (probe_ops @ publish_observation_metrics label evidence (qualifying_sweeps gate),
          confirmed, ob\<lparr>ob_gate := gate\<rparr>))"

text \<open>The write, on a blocking task; whether it succeeded.\<close>

definition write_record ::
  "'fs file_system \<Rightarrow> path option \<Rightarrow> activation_target \<Rightarrow> ('fs, 'r) observer \<Rightarrow> bool \<times> ('fs, 'r) observer" where
  "write_record fs path target ob =
     (case persist_confirmation fs (ob_files ob) path target of
        (Inl error, files) \<Rightarrow> (False, ob\<lparr>ob_files := files\<rparr>)
      | (Inr _, files) \<Rightarrow> (True, ob\<lparr>ob_files := files\<rparr>))"

definition raise_floor ::
  "zcash_network \<Rightarrow> activation_target \<Rightarrow> ('fs, 'r) observer \<Rightarrow> metric_op list \<times> ('fs, 'r) observer" where
  "raise_floor network target ob =
     (let label = network_label network
      in ([GaugeSet MIN_PROTOCOL_VERSION [(LABEL_NETWORK, label)] (unat (at_required_version target)),
           GaugeSet ACTIVATION_CONFIRMED [(LABEL_NETWORK, label)] 1],
          ob\<lparr>ob_tip := confirm_activation (ob_tip ob), ob_running := False\<rparr>))"

lemma observer_stages:
  assumes "ob_running ob"
  shows "observer_pass z api sh iv fs network user_agent target path ob i =
    (let (sampled_peers, ob1) = sample_sweep z api sh iv network target (si_book i) (si_now i) ob;
         (ops, confirmed, ob2) = judge_pass z network user_agent target (si_world i) sampled_peers ob1
     in if \<not> confirmed then (ops, ob2)
        else let (written, ob3) = write_record fs path target ob2
             in if \<not> written then (ops, ob3)
                else let (more_ops, ob4) = raise_floor network target ob3 in (ops @ more_ops, ob4))"
  using assms
  by (simp add: observer_pass_def sweep_sample_def sample_sweep_def judge_pass_def write_record_def
      raise_floor_def Let_def split_beta split: sum.split)

section \<open>A query\<close>

definition admit_query ::
  "'c governor \<Rightarrow> nat \<Rightarrow> ('n, 'l, 'feed, 'c) dns_request_handler \<Rightarrow> ('l, 'm) dns_request
    \<Rightarrow> bool \<times> 'c rate_limiter option" where
  "admit_query gv now self request =
     (case dh_rate_limiter self of
        None \<Rightarrow> (True, None)
      | Some limiter \<Rightarrow>
          let (within, limiter) = check gv now limiter (sa_ip (rq_src request)) in (within, Some limiter))"

text \<open>Routing, the snapshot borrowed, the records chosen and the response built.\<close>

definition resolve_query ::
  "('n, 'l) hickory \<Rightarrow> ('feed \<Rightarrow> servable_peer_lists) \<Rightarrow> ('n, 'l, 'feed, 'c) dns_request_handler
    \<Rightarrow> ('l, 'm) dns_request \<Rightarrow> ('n, 'm) dns_response \<times> metric_op list" where
  "resolve_query h borrow self request =
     (let md = (response_from_request (rq_metadata request))\<lparr>md_authoritative := True\<rparr>;
          (md, records, ops) = answer_query h (dh_zones self) borrow md (rq_queries request)
      in (\<lparr>rs_metadata = md, rs_answers = rr_answer_records records, rs_soas = rr_soa_records records\<rparr>, ops))"

definition finish_query ::
  "(('n, 'm) dns_response \<Rightarrow> string + 'i) \<Rightarrow> ('n, 'm) dns_response \<Rightarrow> ('m, 'i) response_info \<times> metric_op list" where
  "finish_query send response =
     (case send response of
        Inr info \<Rightarrow> (SentInfo info, [])
      | Inl error \<Rightarrow> (HeaderOnly (rs_metadata response), [CounterIncrement DNS_ERRORS_TOTAL [] 1]))"

lemma query_stages:
  "answer_request h gv borrow send now self request =
    (let (within, limiter) = admit_query gv now self request
     in if \<not> within then
          \<lparr>hd_info = HeaderOnly ((response_from_request (rq_metadata request))\<lparr>md_authoritative := True\<rparr>),
           hd_sent = None, hd_metrics = [CounterIncrement DNS_RATE_LIMITED_TOTAL [] 1], hd_rate_limiter = limiter\<rparr>
        else
          let (response, ops) = resolve_query h borrow self request;
              (info, more_ops) = finish_query send response
          in \<lparr>hd_info = info, hd_sent = Some response, hd_metrics = ops @ more_ops, hd_rate_limiter = limiter\<rparr>)"
  by (simp add: answer_request_def admit_query_def resolve_query_def finish_query_def Let_def split_beta
      split: option.split sum.split)

lemma admit_query_limiter:
  "snd (admit_query gv now self request) = limiter_after gv now (dh_rate_limiter self) (sa_ip (rq_src request))"
  by (simp add: admit_query_def limiter_after_def Let_def split_beta split: option.split)

lemma resolve_query_response: "fst (resolve_query h borrow self request) = query_response h borrow self request"
  by (simp add: resolve_query_def query_response_def response_from_request_def initial_metadata_def Let_def split_beta)

section \<open>What the stages keep\<close>

lemma begin_refresh_fields [simp]:
  "ck_published (snd (begin_refresh z network tip ck)) = ck_published ck"
  "ck_running (snd (begin_refresh z network tip ck)) = ck_running ck"
  "fst (fst (begin_refresh z network tip ck)) = protocol_floor z (to_zebra z network) tip"
  by (simp_all add: begin_refresh_def protocol_floor_def Let_def)

lemma compute_refresh_fields [simp]:
  "ck_published (snd (snd (compute_refresh z api sh network target v log book poisoned now ck))) = ck_published ck"
  "ck_running (snd (snd (compute_refresh z api sh network target v log book poisoned now ck))) = ck_running ck"
  by (simp_all add: compute_refresh_def Let_def split_beta)

lemma compute_refresh_served:
  assumes "is_shuffle sh"
  shows "served_from z api book now (to_zebra z network) v target
    (fst (snd (compute_refresh z api sh network target v log book poisoned now ck)))"
  using servable_peers_served_from[OF assms] by (simp add: compute_refresh_def Let_def split_beta)

lemma send_refresh_fields [simp]:
  "ck_published (send_refresh True peers ck) = peers" "ck_running (send_refresh True peers ck) = ck_running ck"
  by (simp_all add: send_refresh_def)

lemma sample_sweep_fields [simp]:
  "ob_tip (snd (sample_sweep z api sh iv network target book now ob)) = ob_tip ob"
  "ob_files (snd (sample_sweep z api sh iv network target book now ob)) = ob_files ob"
  "ob_running (snd (sample_sweep z api sh iv network target book now ob)) = ob_running ob"
  by (simp_all add: sample_sweep_def Let_def split_beta)

lemma judge_pass_fields [simp]:
  "ob_tip (snd (snd (judge_pass z network ua target world sampled ob))) = ob_tip ob"
  "ob_files (snd (snd (judge_pass z network ua target world sampled ob))) = ob_files ob"
  "ob_running (snd (snd (judge_pass z network ua target world sampled ob))) = ob_running ob"
  by (simp_all add: judge_pass_def Let_def split_beta)

lemma write_record_fields [simp]:
  "ob_tip (snd (write_record fs path target ob)) = ob_tip ob"
  "ob_running (snd (write_record fs path target ob)) = ob_running ob"
  by (simp_all add: write_record_def split: prod.split sum.split)

lemma write_record_persists:
  "\<exists>r. persist_confirmation fs (ob_files ob) path target = (r, ob_files (snd (write_record fs path target ob))) \<and>
    fst (write_record fs path target ob) = is_ok r"
  by (cases "persist_confirmation fs (ob_files ob) path target"; cases "fst (persist_confirmation fs (ob_files ob) path target)")
    (simp_all add: write_record_def)

lemma raise_floor_fields [simp]:
  "ob_tip (snd (raise_floor network target ob)) = confirm_activation (ob_tip ob)"
  "ob_files (snd (raise_floor network target ob)) = ob_files ob"
  "ob_running (snd (raise_floor network target ob)) = False"
  by (simp_all add: raise_floor_def Let_def)

end
