(* ===== verification/Task_Interleaving.thy ===== *)
theory Task_Interleaving
  imports Process_Steps Task_Stages
begin

text \<open>
  The running process at the grain at which its tasks really interleave: a step is one stage of
  one task, and between two stages of a pass any other task of any network may run, a query may
  arrive, be resolved or be answered, the operator's command may write a record, and the process
  may crash and be started again. Many queries are in flight at once.
\<close>

section \<open>Runs of labelled steps\<close>

inductive step_run :: "('s \<Rightarrow> 'e \<Rightarrow> 's \<Rightarrow> bool) \<Rightarrow> 's \<Rightarrow> 'e list \<Rightarrow> 's \<Rightarrow> bool" for step where
  run_done: "step_run step s [] s"
| run_step: "step s e s' \<Longrightarrow> step_run step s' es s'' \<Longrightarrow> step_run step s (e # es) s''"

inductive_simps run_Nil_iff [simp]: "step_run step s [] s'"
inductive_simps run_Cons_iff: "step_run step s (e # es) s'"

lemma run_append_iff:
  "step_run step s (xs @ ys) s' \<longleftrightarrow> (\<exists>u. step_run step s xs u \<and> step_run step u ys s')"
  by (induction xs arbitrary: s) (auto simp: run_Cons_iff)

lemma run_one: "step s e s' \<Longrightarrow> step_run step s [e] s'"
  by (rule run_step[OF _ run_done])

lemma run_then: "step_run step s xs u \<Longrightarrow> step_run step u ys s' \<Longrightarrow> step_run step s (xs @ ys) s'"
  by (auto simp: run_append_iff)

text \<open>
  What every step preserves every run preserves, with any preorder that the steps go up along.
\<close>

locale labelled_machine =
  fixes step :: "'s \<Rightarrow> 'e \<Rightarrow> 's \<Rightarrow> bool"
    and lawful :: bool
    and inv :: "'s \<Rightarrow> bool"
    and rises :: "'s \<Rightarrow> 's \<Rightarrow> bool"
  assumes step_inv: "lawful \<Longrightarrow> step s e s' \<Longrightarrow> inv s \<Longrightarrow> inv s'"
    and step_rises: "lawful \<Longrightarrow> step s e s' \<Longrightarrow> inv s \<Longrightarrow> rises s s'"
    and rises_refl: "rises s s"
    and rises_trans: "rises s s' \<Longrightarrow> rises s' s'' \<Longrightarrow> rises s s''"
begin

lemma run_inv: "step_run step s es s' \<Longrightarrow> lawful \<Longrightarrow> inv s \<Longrightarrow> inv s'"
  by (induction rule: step_run.induct) (auto intro: step_inv)

text \<open>A property of a state and of the events so far, which every step carries on.\<close>

lemma run_collects:
  assumes "\<And>s e s' evs. lawful \<Longrightarrow> step s e s' \<Longrightarrow> inv s \<Longrightarrow> P evs s \<Longrightarrow> P (insert e evs) s'"
    and "step_run step s es s'" "lawful" "inv s" "P evs s"
  shows "P (evs \<union> set es) s'"
  using assms(2,4,5)
proof (induction arbitrary: evs rule: step_run.induct)
  case (run_step s e s' es s'')
  from run_step.IH[OF step_inv[OF assms(3) run_step.hyps(1) run_step.prems(1)]
      assms(1)[OF assms(3) run_step.hyps(1) run_step.prems]]
  show ?case by simp
qed simp

lemma run_rises: "step_run step s es s' \<Longrightarrow> lawful \<Longrightarrow> inv s \<Longrightarrow> rises s s'"
  by (induction rule: step_run.induct) (auto intro: rises_refl rises_trans step_rises step_inv)

end

section \<open>The state between two stages\<close>

text \<open>Where each task stands, with the local variables it holds there.\<close>

datatype refresh_stage = CacheSleeping | CacheBegun version bool | CacheComputed servable_peer_lists

datatype pass_stage = ObserverWaiting | PeersSampled "peer_addr list" | GateConfirmed | RecordDurable

datatype ('n, 'm) query_stage = QueryAdmitted | ResponseBuilt "('n, 'm) dns_response"

record ('net, 'cache, 'n, 'l, 'fs, 'r, 'c, 'm) staged_process =
  st_process :: "('net, 'cache, 'n, 'l, 'fs, 'r, 'c) process"
  st_refresh :: "zcash_network \<Rightarrow> refresh_stage"
  st_pass :: "zcash_network \<Rightarrow> pass_stage"
  st_queries :: "nat \<rightharpoonup> ('l, 'm) dns_request \<times> ('n, 'm) query_stage"

text \<open>A process none of whose tasks is in the middle of a pass, as after every start.\<close>

definition resting ::
  "('net, 'cache, 'n, 'l, 'fs, 'r, 'c) process \<Rightarrow> ('net, 'cache, 'n, 'l, 'fs, 'r, 'c, 'm) staged_process" where
  "resting p = \<lparr>st_process = p, st_refresh = (\<lambda>_. CacheSleeping), st_pass = (\<lambda>_. ObserverWaiting),
     st_queries = (\<lambda>_. None)\<rparr>"

text \<open>A crawler's cache or observer with a new state; the observer works on the shared files.\<close>

definition set_cache ::
  "zcash_network \<Rightarrow> ('net, 'cache, 'fs, 'r) crawler \<Rightarrow> 'r cache_task
    \<Rightarrow> ('net, 'cache, 'n, 'l, 'fs, 'r, 'c) process \<Rightarrow> ('net, 'cache, 'n, 'l, 'fs, 'r, 'c) process" where
  "set_cache n c ck p = p\<lparr>pr_crawlers := (pr_crawlers p)(n \<mapsto> c\<lparr>cr_cache := ck\<rparr>)\<rparr>"

definition set_observer ::
  "zcash_network \<Rightarrow> ('net, 'cache, 'fs, 'r) crawler \<Rightarrow> ('fs, 'r) observer
    \<Rightarrow> ('net, 'cache, 'n, 'l, 'fs, 'r, 'c) process \<Rightarrow> ('net, 'cache, 'n, 'l, 'fs, 'r, 'c) process" where
  "set_observer n c ob p =
     p\<lparr>pr_files := ob_files ob, pr_crawlers := (pr_crawlers p)(n \<mapsto> c\<lparr>cr_observer := ob\<rparr>)\<rparr>"

definition observer_on ::
  "('net, 'cache, 'n, 'l, 'fs, 'r, 'c) process \<Rightarrow> ('net, 'cache, 'fs, 'r) crawler \<Rightarrow> ('fs, 'r) observer" where
  "observer_on p c = (cr_observer c)\<lparr>ob_files := pr_files p\<rparr>"

definition set_limiter ::
  "'c rate_limiter option \<Rightarrow> ('net, 'cache, 'n, 'l, 'fs, 'r, 'c) process
    \<Rightarrow> ('net, 'cache, 'n, 'l, 'fs, 'r, 'c) process" where
  "set_limiter l p = p\<lparr>pr_handler := (pr_handler p)\<lparr>dh_rate_limiter := l\<rparr>\<rparr>"

section \<open>The steps\<close>

text \<open>
  A computed refresh is labelled with its floor and the book and time it was computed from; a
  query has a number while it is in flight.
\<close>

datatype ('n, 'l, 'm, 'book, 'time) task_event =
    RefreshBegan zcash_network
  | RefreshComputed zcash_network version 'book 'time
  | RefreshSent zcash_network
  | SweepSampled zcash_network
  | SweepJudged zcash_network
  | RecordWritten zcash_network bool
  | FloorRaised zcash_network
  | QueryChecked nat "('l, 'm) dns_request" bool
  | QueryResolved nat
  | QueryAnswered nat "('l, 'm) dns_request" "('n, 'm) dns_response"
  | CellsPruned
  | ReadinessAsked string
  | OperatorAttested zcash_network
  | SeederRestarted

inductive task_step ::
  "('net, 'cache, 'n, 'l, 'fs, 'r, 'book, 'meta, 'time, 'c) environment \<Rightarrow> seeder_config
    \<Rightarrow> ('net, 'cache, 'n, 'l, 'fs, 'r, 'c, 'm) staged_process \<Rightarrow> ('n, 'l, 'm, 'book, 'time) task_event
    \<Rightarrow> ('net, 'cache, 'n, 'l, 'fs, 'r, 'c, 'm) staged_process \<Rightarrow> bool"
  for E and config
where
  refresh_begins: "st_refresh s n = CacheSleeping \<Longrightarrow> pr_crawlers (st_process s) n = Some c \<Longrightarrow>
    ck_running (cr_cache c) \<Longrightarrow>
    begin_refresh (en_zebra E) n (ob_tip (cr_observer c)) (cr_cache c) = ((v, log), ck) \<Longrightarrow>
    task_step E config s (RefreshBegan n)
      (s\<lparr>st_process := set_cache n c ck (st_process s), st_refresh := (st_refresh s)(n := CacheBegun v log)\<rparr>)"
| refresh_computes: "st_refresh s n = CacheBegun v log \<Longrightarrow> pr_crawlers (st_process s) n = Some c \<Longrightarrow>
    compute_refresh (en_zebra E) (en_book E) (en_shuffler E) n (at_required_version (cr_target c)) v log
      book poisoned now (cr_cache c) = (reports, peers, ck) \<Longrightarrow>
    task_step E config s (RefreshComputed n v book now)
      (s\<lparr>st_process := set_cache n c ck (st_process s), st_refresh := (st_refresh s)(n := CacheComputed peers)\<rparr>)"
| refresh_sends: "st_refresh s n = CacheComputed peers \<Longrightarrow> pr_crawlers (st_process s) n = Some c \<Longrightarrow>
    task_step E config s (RefreshSent n)
      (s\<lparr>st_process := set_cache n c (send_refresh True peers (cr_cache c)) (st_process s),
         st_refresh := (st_refresh s)(n := CacheSleeping)\<rparr>)"
| sweep_samples: "st_pass s n = ObserverWaiting \<Longrightarrow> pr_crawlers (st_process s) n = Some c \<Longrightarrow>
    ob_running (cr_observer c) \<Longrightarrow>
    sample_sweep (en_zebra E) (en_book E) (en_shuffler E) (en_values E) n (cr_target c) book now
      (observer_on (st_process s) c) = (sampled_peers, ob) \<Longrightarrow>
    task_step E config s (SweepSampled n)
      (s\<lparr>st_process := set_observer n c ob (st_process s), st_pass := (st_pass s)(n := PeersSampled sampled_peers)\<rparr>)"
| sweep_judged: "st_pass s n = PeersSampled sampled_peers \<Longrightarrow> pr_crawlers (st_process s) n = Some c \<Longrightarrow>
    completes_all world \<Longrightarrow>
    judge_pass (en_zebra E) n (cr_user_agent c) (cr_target c) world sampled_peers
      (observer_on (st_process s) c) = (ops, confirmed, ob) \<Longrightarrow>
    task_step E config s (SweepJudged n)
      (s\<lparr>st_process := set_observer n c ob (st_process s),
         st_pass := (st_pass s)(n := if confirmed then GateConfirmed else ObserverWaiting)\<rparr>)"
| record_written: "st_pass s n = GateConfirmed \<Longrightarrow> pr_crawlers (st_process s) n = Some c \<Longrightarrow>
    write_record (en_files E) (cr_confirmation_path c) (cr_target c) (observer_on (st_process s) c) = (written, ob) \<Longrightarrow>
    task_step E config s (RecordWritten n written)
      (s\<lparr>st_process := set_observer n c ob (st_process s),
         st_pass := (st_pass s)(n := if written then RecordDurable else ObserverWaiting)\<rparr>)"
| floor_raised: "st_pass s n = RecordDurable \<Longrightarrow> pr_crawlers (st_process s) n = Some c \<Longrightarrow>
    raise_floor n (cr_target c) (observer_on (st_process s) c) = (ops, ob) \<Longrightarrow>
    task_step E config s (FloorRaised n)
      (s\<lparr>st_process := set_observer n c ob (st_process s), st_pass := (st_pass s)(n := ObserverWaiting)\<rparr>)"
| query_admitted: "st_queries s k = None \<Longrightarrow>
    admit_query (en_governor E) now (pr_handler (st_process s)) request = (True, l) \<Longrightarrow>
    task_step E config s (QueryChecked k request True)
      (s\<lparr>st_process := set_limiter l (st_process s), st_queries := (st_queries s)(k \<mapsto> (request, QueryAdmitted))\<rparr>)"
| query_dropped: "st_queries s k = None \<Longrightarrow>
    admit_query (en_governor E) now (pr_handler (st_process s)) request = (False, l) \<Longrightarrow>
    task_step E config s (QueryChecked k request False) (s\<lparr>st_process := set_limiter l (st_process s)\<rparr>)"
| query_resolved: "st_queries s k = Some (request, QueryAdmitted) \<Longrightarrow>
    resolve_query (en_hickory E) (crawler_snapshot (st_process s)) (pr_handler (st_process s)) request = (response, ops) \<Longrightarrow>
    task_step E config s (QueryResolved k)
      (s\<lparr>st_queries := (st_queries s)(k \<mapsto> (request, ResponseBuilt response))\<rparr>)"
| query_answered: "st_queries s k = Some (request, ResponseBuilt response) \<Longrightarrow>
    task_step E config s (QueryAnswered k request response) (s\<lparr>st_queries := (st_queries s)(k := None)\<rparr>)"
| cells_pruned: "task_step E config s CellsPruned (s\<lparr>st_process := prune_turn E now (st_process s)\<rparr>)"
| readiness_asked: "pr_health (st_process s) = Some (zones, threshold) \<Longrightarrow>
    task_step E config s (ReadinessAsked (readiness_response (crawler_snapshot (st_process s)) zones threshold)) s"
| operator_attests: "attest_confirmation (en_zebra E) (en_files E) (pr_files (st_process s)) cache_dir
      (to_zebra (en_zebra E) n) activation_height confirmation_height minimum_protocol_version = (r, files) \<Longrightarrow>
    task_step E config s (OperatorAttested n) (s\<lparr>st_process := (st_process s)\<lparr>pr_files := files\<rparr>\<rparr>)"
| seeder_restarts: "start_process (en_zebra E) (en_hickory E) (en_files E) (en_build E)
      (\<lambda>_. Inr ()) (\<lambda>_. Inr ()) (\<lambda>_. Inr ()) (pr_files (st_process s)) r config = Inr p \<Longrightarrow>
    task_step E config s SeederRestarted (resting p)"

inductive_cases refresh_beginsE: "task_step E config s (RefreshBegan n) s'"
inductive_cases refresh_sendsE: "task_step E config s (RefreshSent n) s'"
inductive_cases query_checkedE: "task_step E config s (QueryChecked k request within) s'"
inductive_cases query_answeredE: "task_step E config s (QueryAnswered k request response) s'"

abbreviation task_run ::
  "('net, 'cache, 'n, 'l, 'fs, 'r, 'book, 'meta, 'time, 'c) environment \<Rightarrow> seeder_config
    \<Rightarrow> ('net, 'cache, 'n, 'l, 'fs, 'r, 'c, 'm) staged_process \<Rightarrow> ('n, 'l, 'm, 'book, 'time) task_event list
    \<Rightarrow> ('net, 'cache, 'n, 'l, 'fs, 'r, 'c, 'm) staged_process \<Rightarrow> bool" where
  "task_run E config \<equiv> step_run (task_step E config)"

section \<open>The invariant\<close>

text \<open>
  Between stages the process is as it is between passes; a snapshot that waits to be sent is in
  order, and when the tip waits to be raised its record is on the files already.
\<close>

definition staged_inv ::
  "('net, 'cache, 'n, 'l, 'fs, 'r, 'book, 'meta, 'time, 'c) environment \<Rightarrow> seeder_config
    \<Rightarrow> ('net, 'cache, 'n, 'l, 'fs, 'r, 'c, 'm) staged_process \<Rightarrow> bool" where
  "staged_inv E config s \<longleftrightarrow> process_inv E config (st_process s) \<and>
     (\<forall>n peers. st_refresh s n = CacheComputed peers \<longrightarrow> snapshot_ok peers) \<and>
     (\<forall>n. st_pass s n = RecordDurable \<longrightarrow>
        load_confirmation (en_files E) (pr_files (st_process s)) (network_path E n) (network_target E n))"

definition tips_rise ::
  "('net, 'cache, 'n, 'l, 'fs, 'r, 'c, 'm) staged_process
    \<Rightarrow> ('net, 'cache, 'n, 'l, 'fs, 'r, 'c, 'm) staged_process \<Rightarrow> bool" where
  "tips_rise s s' \<longleftrightarrow> (\<forall>n. tip_raised (tip_at (st_process s) n) (tip_at (st_process s') n))"

text \<open>What loads from the files of one process still loads from those of another.\<close>

definition loads_rise ::
  "('net, 'cache, 'n, 'l, 'fs, 'r, 'book, 'meta, 'time, 'c) environment \<Rightarrow> 'fs \<Rightarrow> 'fs \<Rightarrow> bool" where
  "loads_rise E files files' \<longleftrightarrow> (\<forall>m.
     load_confirmation (en_files E) files (network_path E m) (network_target E m) \<longrightarrow>
     load_confirmation (en_files E) files' (network_path E m) (network_target E m))"

lemma loads_rise_refl [simp]: "loads_rise E files files"
  by (simp add: loads_rise_def)

lemma persist_loads_rise:
  assumes "environment_laws E"
    and "persist_confirmation (en_files E) files (network_path E n) (network_target E n) = (r, files')"
  shows "loads_rise E files files'"
  using persist_loads[OF assms] by (simp add: loads_rise_def)

lemma set_cache_simps [simp]:
  "pr_files (set_cache n c ck p) = pr_files p" "pr_handler (set_cache n c ck p) = pr_handler p"
  "pr_health (set_cache n c ck p) = pr_health p"
  "pr_crawlers (set_cache n c ck p) = (pr_crawlers p)(n \<mapsto> c\<lparr>cr_cache := ck\<rparr>)"
  by (simp_all add: set_cache_def)

lemma set_observer_simps [simp]:
  "pr_files (set_observer n c ob p) = ob_files ob" "pr_handler (set_observer n c ob p) = pr_handler p"
  "pr_health (set_observer n c ob p) = pr_health p"
  "pr_crawlers (set_observer n c ob p) = (pr_crawlers p)(n \<mapsto> c\<lparr>cr_observer := ob\<rparr>)"
  by (simp_all add: set_observer_def)

lemma observer_on_simps [simp]:
  "ob_files (observer_on p c) = pr_files p" "ob_tip (observer_on p c) = ob_tip (cr_observer c)"
  "ob_running (observer_on p c) = ob_running (cr_observer c)"
  by (simp_all add: observer_on_def)

lemma set_limiter_simps [simp]:
  "pr_files (set_limiter l p) = pr_files p" "pr_crawlers (set_limiter l p) = pr_crawlers p"
  "dh_zones (pr_handler (set_limiter l p)) = dh_zones (pr_handler p)"
  "process_inv E config (set_limiter l p) = process_inv E config p"
  "tip_at (set_limiter l p) n = tip_at p n" "crawler_snapshot (set_limiter l p) n = crawler_snapshot p n"
  by (simp_all add: set_limiter_def tip_at_def crawler_snapshot_def)

lemma set_cache_inv:
  assumes inv: "process_inv E config p" and c: "pr_crawlers p n = Some c"
    and "snapshot_ok (ck_published ck)" "ck_running ck = ck_running (cr_cache c)"
  shows "process_inv E config (set_cache n c ck p)"
proof -
  have "crawler_ok E n (pr_files p) (c\<lparr>cr_cache := ck\<rparr>)"
    using zone_crawlers_invD[OF inv c] assms(3,4) by (simp add: crawler_ok_def cache_ok_def)
  from crawler_update_inv[OF inv c this] show ?thesis by (simp add: set_cache_def)
qed

lemma set_observer_inv:
  assumes inv: "process_inv E config p" and c: "pr_crawlers p n = Some c"
    and rise: "loads_rise E (pr_files p) (ob_files ob)"
    and tip: "ob_tip ob = ob_tip (cr_observer c) \<or> ob_tip ob = confirm_activation (ob_tip (cr_observer c)) \<and>
      load_confirmation (en_files E) (ob_files ob) (network_path E n) (network_target E n)"
  shows "process_inv E config (set_observer n c ob p)"
proof -
  have "crawler_ok E n (ob_files ob) (c\<lparr>cr_observer := ob\<rparr>)"
    using zone_crawlers_invD[OF inv c] tip rise by (auto simp: crawler_ok_def loads_rise_def)
  from crawler_update_inv[OF inv c this] rise show ?thesis by (simp add: set_observer_def loads_rise_def)
qed

lemma set_cache_tip [simp]:
  "pr_crawlers p n = Some c \<Longrightarrow> tip_at (set_cache n c ck p) m = tip_at p m"
  by (simp add: tip_at_def)

lemma set_observer_tip:
  assumes "pr_crawlers p n = Some c"
    and "ob_tip ob \<in> {ob_tip (cr_observer c), confirm_activation (ob_tip (cr_observer c))}"
  shows "tip_raised (tip_at p m) (tip_at (set_observer n c ob p) m)"
  using assms by (auto simp: tip_at_def)

lemma prune_turn_simps [simp]:
  "pr_files (prune_turn E now p) = pr_files p" "pr_crawlers (prune_turn E now p) = pr_crawlers p"
  "process_inv E config (prune_turn E now p) = process_inv E config p" "tip_at (prune_turn E now p) n = tip_at p n"
  "crawler_snapshot (prune_turn E now p) n = crawler_snapshot p n"
  by (simp_all add: prune_turn_def tip_at_def crawler_snapshot_def)

text \<open>
  The operator's command writes the record of one network at the path of whatever cache
  directory it was given; nothing that loads is lost.
\<close>

lemma attest_loads_rise:
  assumes laws: "environment_laws E"
    and attest: "attest_confirmation (en_zebra E) (en_files E) files cache_dir (to_zebra (en_zebra E) n) a h v = (r, files')"
  shows "loads_rise E files files'"
proof -
  let ?path = "confirmation_path (en_zebra E) cache_dir (to_zebra (en_zebra E) n)"
  have fs: "file_system_laws (en_files E)" using laws by (simp add: environment_laws_def observer_laws_def)
  consider "files' = files"
    | w where "persist_confirmation (en_files E) files ?path (network_target E n) = (w, files')" "?path \<noteq> None"
    using attest by (auto simp: attest_confirmation_def network_target_def Let_def split: if_splits option.splits
        prod.splits sum.splits)
  then show ?thesis
  proof cases
    case 2
    have "load_confirmation (en_files E) files' (network_path E m) (network_target E m)"
      if loaded: "load_confirmation (en_files E) files (network_path E m) (network_target E m)" for m
    proof (cases "network_path E m = ?path")
      case True
      have "zb_lowercase_name (en_zebra E) (to_zebra (en_zebra E) m) =
          zb_lowercase_name (en_zebra E) (to_zebra (en_zebra E) n)"
        using True 2(2) by (auto simp: network_path_def confirmation_path_def path_join_def)
      then have "m = n" using laws by (cases m; cases n) (auto simp: environment_laws_def)
      with store.persist_keeps_confirmed[OF fs loaded] 2(1) True show ?thesis by simp
    next
      case False
      with store.persist_other[OF fs 2(1)] loaded show ?thesis by simp
    qed
    then show ?thesis by (simp add: loads_rise_def)
  qed simp
qed

lemma files_inv:
  assumes "process_inv E config p" "loads_rise E (pr_files p) files"
  shows "process_inv E config (p\<lparr>pr_files := files\<rparr>)"
  using assms by (auto simp: process_inv_def crawler_ok_def loads_rise_def)

section \<open>Every stage preserves it\<close>

lemma staged_set_cache_inv:
  assumes "staged_inv E config s" "pr_crawlers (st_process s) n = Some c"
    and "snapshot_ok (ck_published ck)" "ck_running ck = ck_running (cr_cache c)"
    and "\<And>peers. stage = CacheComputed peers \<Longrightarrow> snapshot_ok peers"
  shows "staged_inv E config
    (s\<lparr>st_process := set_cache n c ck (st_process s), st_refresh := (st_refresh s)(n := stage)\<rparr>)"
  using assms by (simp add: staged_inv_def set_cache_inv)

lemma staged_set_observer_inv:
  assumes "staged_inv E config s" "pr_crawlers (st_process s) n = Some c"
    and "loads_rise E (pr_files (st_process s)) (ob_files ob)"
    and "ob_tip ob = ob_tip (cr_observer c) \<or> ob_tip ob = confirm_activation (ob_tip (cr_observer c)) \<and>
      load_confirmation (en_files E) (ob_files ob) (network_path E n) (network_target E n)"
    and "stage = RecordDurable \<Longrightarrow>
      load_confirmation (en_files E) (ob_files ob) (network_path E n) (network_target E n)"
  shows "staged_inv E config
    (s\<lparr>st_process := set_observer n c ob (st_process s), st_pass := (st_pass s)(n := stage)\<rparr>)"
  using assms by (auto simp: staged_inv_def set_observer_inv loads_rise_def)

lemma staged_crawler:
  assumes "staged_inv E config s" "pr_crawlers (st_process s) n = Some c"
  shows "crawler_ok E n (pr_files (st_process s)) c"
  using assms zone_crawlers_invD by (auto simp: staged_inv_def)

lemma published_ok:
  assumes "staged_inv E config s" "pr_crawlers (st_process s) n = Some c"
  shows "snapshot_ok (ck_published (cr_cache c))" "ck_running (cr_cache c)"
  using staged_crawler[OF assms] by (simp_all add: crawler_ok_def cache_ok_def)

lemma task_step_inv:
  assumes laws: "environment_laws E" and step: "task_step E config s e s'" and inv: "staged_inv E config s"
  shows "staged_inv E config s'"
  using step
proof cases
  case (refresh_begins n c v log ck)
  have "ck = snd (begin_refresh (en_zebra E) n (ob_tip (cr_observer c)) (cr_cache c))"
    by (simp add: refresh_begins(6))
  with published_ok[OF inv refresh_begins(4)] show ?thesis
    unfolding refresh_begins(2) by (intro staged_set_cache_inv[OF inv refresh_begins(4)]) simp_all
next
  case (refresh_computes n v log c book poisoned now reports peers ck)
  note computed = refresh_computes(5)
  have "snapshot_ok peers"
    using served_from_ok[OF compute_refresh_served[OF shuffle_law[OF laws], of "en_zebra E" "en_book E" book now n v
        "at_required_version (cr_target c)" log poisoned "cr_cache c"]]
    by (simp add: computed)
  moreover have "ck_published ck = ck_published (cr_cache c)" "ck_running ck = ck_running (cr_cache c)"
    using compute_refresh_fields[of "en_zebra E" "en_book E" "en_shuffler E" n "at_required_version (cr_target c)"
        v log book poisoned now "cr_cache c"]
    by (simp_all add: computed)
  ultimately show ?thesis
    unfolding refresh_computes(2)
    using published_ok[OF inv refresh_computes(4)]
    by (intro staged_set_cache_inv[OF inv refresh_computes(4)]) simp_all
next
  case (refresh_sends n peers c)
  have "snapshot_ok peers" using inv refresh_sends(3) by (auto simp: staged_inv_def)
  then show ?thesis
    unfolding refresh_sends(2) by (intro staged_set_cache_inv[OF inv refresh_sends(4)]) simp_all
next
  case (sweep_samples n c book now sampled_peers ob)
  have "ob_files ob = pr_files (st_process s)" "ob_tip ob = ob_tip (cr_observer c)"
    using sample_sweep_fields[of "en_zebra E" "en_book E" "en_shuffler E" "en_values E" n "cr_target c" book now
        "observer_on (st_process s) c"]
    by (simp_all add: sweep_samples(6))
  then show ?thesis
    unfolding sweep_samples(2) by (intro staged_set_observer_inv[OF inv sweep_samples(4)]) simp_all
next
  case (sweep_judged n sampled_peers c world ops confirmed ob)
  have "ob_files ob = pr_files (st_process s)" "ob_tip ob = ob_tip (cr_observer c)"
    using judge_pass_fields[of "en_zebra E" n "cr_user_agent c" "cr_target c" world sampled_peers
        "observer_on (st_process s) c"]
    by (simp_all add: sweep_judged(6))
  then show ?thesis
    unfolding sweep_judged(2) by (intro staged_set_observer_inv[OF inv sweep_judged(4)]) (simp_all split: if_splits)
next
  case (record_written n c written ob)
  note c = staged_crawler[OF inv record_written(4)]
  obtain r where "persist_confirmation (en_files E) (pr_files (st_process s)) (network_path E n) (network_target E n) =
      (r, ob_files ob)" and written: "written = is_ok r"
    using write_record_persists[of "en_files E" "observer_on (st_process s) c" "network_path E n" "network_target E n"]
      record_written(5) c
    by (auto simp: crawler_ok_def)
  note persisted = persist_loads[OF laws this(1)] persist_loads_rise[OF laws this(1)]
  have "ob_tip ob = ob_tip (cr_observer c)"
    using write_record_fields[of "en_files E" "cr_confirmation_path c" "cr_target c" "observer_on (st_process s) c"]
    by (simp add: record_written(5))
  then show ?thesis
    unfolding record_written(2)
    by (intro staged_set_observer_inv[OF inv record_written(4) persisted(2)])
      (simp_all add: persisted(1) written split: if_splits)
next
  case (floor_raised n c ops ob)
  have loaded: "load_confirmation (en_files E) (pr_files (st_process s)) (network_path E n) (network_target E n)"
    using inv floor_raised(3) by (simp add: staged_inv_def)
  have "ob_files ob = pr_files (st_process s)" "ob_tip ob = confirm_activation (ob_tip (cr_observer c))"
    using raise_floor_fields[of n "cr_target c" "observer_on (st_process s) c"] by (simp_all add: floor_raised(5))
  then show ?thesis
    unfolding floor_raised(2)
    by (intro staged_set_observer_inv[OF inv floor_raised(4)]) (simp_all add: loaded)
next
  case (operator_attests cache_dir n a h v r files)
  from attest_loads_rise[OF laws operator_attests(3)] inv show ?thesis
    unfolding operator_attests(2) by (simp add: staged_inv_def files_inv) (simp add: loads_rise_def)
next
  case (seeder_restarts r p)
  then show ?thesis using start_process_inv[OF laws seeder_restarts(3)] by (simp add: staged_inv_def resting_def)
qed (use inv in \<open>simp_all add: staged_inv_def\<close>)

lemma task_step_rises:
  assumes laws: "environment_laws E" and step: "task_step E config s e s'" and inv: "staged_inv E config s"
  shows "tips_rise s s'"
  using step
proof cases
  case (sweep_samples n c book now sampled_peers ob)
  have "ob_tip ob = ob_tip (cr_observer c)"
    using sample_sweep_fields[of "en_zebra E" "en_book E" "en_shuffler E" "en_values E" n "cr_target c" book now
        "observer_on (st_process s) c"]
    by (simp add: sweep_samples(6))
  then show ?thesis using set_observer_tip[OF sweep_samples(4)] by (simp add: tips_rise_def sweep_samples(2))
next
  case (sweep_judged n sampled_peers c world ops confirmed ob)
  have "ob_tip ob = ob_tip (cr_observer c)"
    using judge_pass_fields[of "en_zebra E" n "cr_user_agent c" "cr_target c" world sampled_peers
        "observer_on (st_process s) c"]
    by (simp add: sweep_judged(6))
  then show ?thesis using set_observer_tip[OF sweep_judged(4)] by (simp add: tips_rise_def sweep_judged(2))
next
  case (record_written n c written ob)
  have "ob_tip ob = ob_tip (cr_observer c)"
    using write_record_fields[of "en_files E" "cr_confirmation_path c" "cr_target c" "observer_on (st_process s) c"]
    by (simp add: record_written(5))
  then show ?thesis using set_observer_tip[OF record_written(4)] by (simp add: tips_rise_def record_written(2))
next
  case (floor_raised n c ops ob)
  have "ob_tip ob = confirm_activation (ob_tip (cr_observer c))"
    using raise_floor_fields[of n "cr_target c" "observer_on (st_process s) c"] by (simp add: floor_raised(5))
  then show ?thesis using set_observer_tip[OF floor_raised(4)] by (simp add: tips_rise_def floor_raised(2))
next
  case (seeder_restarts r p)
  have "process_inv E config (st_process s)" using inv by (simp add: staged_inv_def)
  from restart_tip[OF laws this seeder_restarts(3)] show ?thesis
    by (simp add: tips_rise_def seeder_restarts(2) resting_def)
next
  case (operator_attests cache_dir n a h v r files)
  then show ?thesis by (simp add: tips_rise_def tip_at_def)
qed (simp_all add: tips_rise_def)

interpretation tasks: labelled_machine "task_step E config" "environment_laws E" "staged_inv E config" tips_rise
  for E :: "('net, 'cache, 'n, 'l, 'fs, 'r, 'book, 'meta, 'time, 'c) environment" and config
proof
  fix s s' s'' :: "('net, 'cache, 'n, 'l, 'fs, 'r, 'c, 'm) staged_process" and e
  show "tips_rise s s" by (simp add: tips_rise_def)
  show "tips_rise s s''" if "tips_rise s s'" "tips_rise s' s''"
    using that by (auto simp: tips_rise_def intro: tip_raised_trans)
  assume "environment_laws E" "task_step E config s e s'" "staged_inv E config s"
  then show "staged_inv E config s'" "tips_rise s s'" by (rule task_step_inv task_step_rises)+
qed

lemma started_staged_inv:
  assumes "environment_laws E" "started_process E config p"
  shows "staged_inv E config (resting p)"
  using started_inv[OF assms] by (simp add: staged_inv_def resting_def)

section \<open>What reaches the clients after a confirmation\<close>

definition tip_confirmed :: "zcash_network \<Rightarrow> ('net, 'cache, 'n, 'l, 'fs, 'r, 'c, 'm) staged_process \<Rightarrow> bool" where
  "tip_confirmed n s \<longleftrightarrow> (\<exists>t. tip_at (st_process s) n = Some t \<and> is_activation_confirmed t)"

lemma tips_rise_confirmed: "tips_rise s s' \<Longrightarrow> tip_confirmed n s \<Longrightarrow> tip_confirmed n s'"
  by (force simp: tips_rise_def tip_confirmed_def tip_raised_def split: option.splits)

text \<open>
  A snapshot is current when it is empty, as after a start, or was computed at a floor at or
  above the newest activation's version in one of the events considered.
\<close>

definition current_snapshot ::
  "('net, 'cache, 'n, 'l, 'fs, 'r, 'book, 'meta, 'time, 'c) environment \<Rightarrow> zcash_network
    \<Rightarrow> ('n, 'l, 'm, 'book, 'time) task_event set \<Rightarrow> servable_peer_lists \<Rightarrow> bool" where
  "current_snapshot E n evs peers \<longleftrightarrow> peers = default_servable_peers \<or>
     (\<exists>v book now. RefreshComputed n v book now \<in> evs \<and> at_required_version (network_target E n) \<le> v \<and>
        served_from (en_zebra E) (en_book E) book now (to_zebra (en_zebra E) n) v
          (at_required_version (network_target E n)) peers)"

definition current_stage ::
  "('net, 'cache, 'n, 'l, 'fs, 'r, 'book, 'meta, 'time, 'c) environment \<Rightarrow> zcash_network
    \<Rightarrow> ('n, 'l, 'm, 'book, 'time) task_event set \<Rightarrow> refresh_stage \<Rightarrow> bool" where
  "current_stage E n evs stage = (case stage of
     CacheSleeping \<Rightarrow> True
   | CacheBegun v _ \<Rightarrow> at_required_version (network_target E n) \<le> v
   | CacheComputed peers \<Rightarrow> current_snapshot E n evs peers)"

lemma current_snapshot_mono: "current_snapshot E n evs peers \<Longrightarrow> evs \<subseteq> evs' \<Longrightarrow> current_snapshot E n evs' peers"
  by (auto simp: current_snapshot_def)

lemma current_stage_mono: "current_stage E n evs stage \<Longrightarrow> evs \<subseteq> evs' \<Longrightarrow> current_stage E n evs' stage"
  by (auto simp: current_stage_def split: refresh_stage.splits intro: current_snapshot_mono)

text \<open>The cache task of a network never leaves the current ones once the tip is confirmed.\<close>

lemma step_current_stage:
  assumes laws: "environment_laws E" and step: "task_step E config s e s'" and inv: "staged_inv E config s"
    and confirmed: "tip_confirmed n s" and stage: "current_stage E n evs (st_refresh s n)"
  shows "current_stage E n (insert e evs) (st_refresh s' n)"
  using step
proof cases
  case (refresh_begins m c v log ck)
  have "at_required_version (network_target E n) \<le> v" if "m = n"
  proof -
    have "v = protocol_floor (en_zebra E) (to_zebra (en_zebra E) n) (ob_tip (cr_observer c))"
      using refresh_begins(6) that by (auto simp: begin_refresh_def protocol_floor_def Let_def)
    moreover have tip: "tip_at (st_process s) n = Some (ob_tip (cr_observer c))"
      using refresh_begins(4) that by (simp add: tip_at_def)
    moreover have "is_activation_confirmed (ob_tip (cr_observer c))"
      using confirmed tip by (simp add: tip_confirmed_def)
    moreover have "process_inv E config (st_process s)" using inv by (simp add: staged_inv_def)
    ultimately show ?thesis using confirmed_tip_floor[OF laws] by simp
  qed
  with stage show ?thesis
    by (auto simp: refresh_begins(2) current_stage_def intro: current_stage_mono[unfolded current_stage_def])
next
  case (refresh_computes m v log c book poisoned now reports peers ck)
  have "current_snapshot E n (insert e evs) peers" if "m = n"
  proof -
    have "cr_target c = network_target E n"
      using staged_crawler[OF inv refresh_computes(4)] that by (simp add: crawler_ok_def)
    then have "served_from (en_zebra E) (en_book E) book now (to_zebra (en_zebra E) n) v
        (at_required_version (network_target E n)) peers"
      using compute_refresh_served[OF shuffle_law[OF laws], of "en_zebra E" "en_book E" book now n v
          "at_required_version (cr_target c)" log poisoned "cr_cache c"] refresh_computes(5) that
      by simp
    moreover have "at_required_version (network_target E n) \<le> v"
      using stage refresh_computes(3) that by (simp add: current_stage_def)
    ultimately show ?thesis using that by (auto simp: current_snapshot_def refresh_computes(1))
  qed
  with current_stage_mono[OF stage, of "insert e evs"] show ?thesis
    by (auto simp: refresh_computes(2) current_stage_def)
next
  case (refresh_sends m peers c)
  with current_stage_mono[OF stage, of "insert e evs"] show ?thesis by (auto simp: current_stage_def)
next
  case (seeder_restarts r p)
  then show ?thesis by (simp add: current_stage_def resting_def)
qed (use current_stage_mono[OF stage, of "insert e evs"] in auto)

text \<open>What the zone's receiver holds changes when a computed snapshot is sent, and at a restart.\<close>

lemma step_snapshot:
  assumes "task_step E config s e s'"
  shows "crawler_snapshot (st_process s') n = crawler_snapshot (st_process s) n \<and>
      (st_refresh s' n = CacheSleeping \<longrightarrow> st_refresh s n = CacheSleeping) \<and> e \<noteq> RefreshSent n \<or>
    crawler_snapshot (st_process s') n = default_servable_peers \<and> e \<noteq> RefreshSent n \<or>
    st_refresh s n = CacheComputed (crawler_snapshot (st_process s') n)"
  using assms
proof cases
  case (refresh_begins m c v log ck)
  have "ck_published ck = ck_published (cr_cache c)"
    using begin_refresh_fields(1)[of "en_zebra E" m "ob_tip (cr_observer c)" "cr_cache c"] refresh_begins(6) by simp
  with refresh_begins show ?thesis by (simp add: crawler_snapshot_def)
next
  case (refresh_computes m v log c book poisoned now reports peers ck)
  have "ck_published ck = ck_published (cr_cache c)"
    using compute_refresh_fields(1)[of "en_zebra E" "en_book E" "en_shuffler E" m "at_required_version (cr_target c)"
        v log book poisoned now "cr_cache c"] refresh_computes(5) by simp
  with refresh_computes show ?thesis by (simp add: crawler_snapshot_def)
next
  case (seeder_restarts r p)
  from start_process_started[OF seeder_restarts(3)]
  have "crawler_snapshot p n = default_servable_peers"
    by (simp add: process_started_def crawler_snapshot_def crawler_of_def spawn_cache_def Let_def)
  with seeder_restarts show ?thesis by (simp add: resting_def)
qed (simp_all add: crawler_snapshot_def)

text \<open>
  After a refresh began the cache works towards a current snapshot or holds one already; after
  that refresh was sent it holds one.
\<close>

definition nears_current ::
  "('net, 'cache, 'n, 'l, 'fs, 'r, 'book, 'meta, 'time, 'c) environment \<Rightarrow> zcash_network
    \<Rightarrow> ('n, 'l, 'm, 'book, 'time) task_event set \<Rightarrow> ('net, 'cache, 'n, 'l, 'fs, 'r, 'c, 'm) staged_process \<Rightarrow> bool" where
  "nears_current E n evs s \<longleftrightarrow> tip_confirmed n s \<and> current_stage E n evs (st_refresh s n) \<and>
     (st_refresh s n = CacheSleeping \<longrightarrow> current_snapshot E n evs (crawler_snapshot (st_process s) n))"

definition serves_current ::
  "('net, 'cache, 'n, 'l, 'fs, 'r, 'book, 'meta, 'time, 'c) environment \<Rightarrow> zcash_network
    \<Rightarrow> ('n, 'l, 'm, 'book, 'time) task_event set \<Rightarrow> ('net, 'cache, 'n, 'l, 'fs, 'r, 'c, 'm) staged_process \<Rightarrow> bool" where
  "serves_current E n evs s \<longleftrightarrow> tip_confirmed n s \<and> current_stage E n evs (st_refresh s n) \<and>
     current_snapshot E n evs (crawler_snapshot (st_process s) n)"

lemma step_confirmed:
  assumes "environment_laws E" "task_step E config s e s'" "staged_inv E config s" "tip_confirmed n s"
  shows "tip_confirmed n s'"
  using tips_rise_confirmed[OF task_step_rises[OF assms(1-3)] assms(4)] .

lemma begun_nears_current:
  assumes laws: "environment_laws E" and step: "task_step E config s (RefreshBegan n) s'"
    and inv: "staged_inv E config s" and confirmed: "tip_confirmed n s"
  shows "nears_current E n {} s'"
proof -
  have "st_refresh s n = CacheSleeping" and begun: "st_refresh s' n \<noteq> CacheSleeping" "\<And>peers. st_refresh s' n \<noteq> CacheComputed peers"
    using step by (auto elim: refresh_beginsE)
  then have "current_stage E n {} (st_refresh s n)" by (simp add: current_stage_def)
  from step_current_stage[OF laws step inv confirmed this] begun
  have "current_stage E n {} (st_refresh s' n)" by (cases "st_refresh s' n") (auto simp: current_stage_def)
  with begun step_confirmed[OF laws step inv confirmed] show ?thesis by (simp add: nears_current_def)
qed

lemma step_nears_current:
  assumes laws: "environment_laws E" and step: "task_step E config s e s'" and inv: "staged_inv E config s"
    and near: "nears_current E n evs s"
  shows "nears_current E n (insert e evs) s'"
proof -
  from near have stage: "current_stage E n evs (st_refresh s n)" and confirmed: "tip_confirmed n s"
    by (simp_all add: nears_current_def)
  have "current_snapshot E n evs (crawler_snapshot (st_process s') n)" if "st_refresh s' n = CacheSleeping"
    using step_snapshot[OF step, of n] that near stage
    by (auto simp: nears_current_def current_stage_def current_snapshot_def)
  then have "st_refresh s' n = CacheSleeping \<longrightarrow> current_snapshot E n (insert e evs) (crawler_snapshot (st_process s') n)"
    by (auto intro: current_snapshot_mono)
  with step_current_stage[OF laws step inv confirmed stage] step_confirmed[OF laws step inv confirmed]
  show ?thesis by (simp add: nears_current_def)
qed

lemma step_serves_current:
  assumes laws: "environment_laws E" and step: "task_step E config s e s'" and inv: "staged_inv E config s"
    and serves: "serves_current E n evs s \<or> nears_current E n evs s \<and> e = RefreshSent n"
  shows "serves_current E n (insert e evs) s'"
proof -
  from serves have stage: "current_stage E n evs (st_refresh s n)" and confirmed: "tip_confirmed n s"
    by (auto simp: nears_current_def serves_current_def)
  have "current_snapshot E n evs (crawler_snapshot (st_process s') n)"
    using step_snapshot[OF step, of n] serves stage
    by (auto simp: serves_current_def current_stage_def current_snapshot_def)
  then have "current_snapshot E n (insert e evs) (crawler_snapshot (st_process s') n)"
    by (auto intro: current_snapshot_mono)
  with step_current_stage[OF laws step inv confirmed stage] step_confirmed[OF laws step inv confirmed]
  show ?thesis by (simp add: serves_current_def)
qed

text \<open>A query resolved from a current snapshot keeps its records however late it is answered.\<close>

definition current_response ::
  "('net, 'cache, 'n, 'l, 'fs, 'r, 'book, 'meta, 'time, 'c) environment \<Rightarrow> zcash_network
    \<Rightarrow> ('n, 'l, 'm, 'book, 'time) task_event set \<Rightarrow> ('n, 'l, zcash_network) seed_zone list
    \<Rightarrow> ('l, 'm) dns_request \<Rightarrow> ('n, 'm) dns_response \<Rightarrow> bool" where
  "current_response E n evs zones request response \<longleftrightarrow>
     (\<forall>name ty more zone. rq_queries request = (name, ty) # more \<longrightarrow> ty \<in> {RecordA, RecordAAAA} \<longrightarrow>
        matching_zone (en_hickory E) zones name = Some zone \<longrightarrow> sz_network zone = n \<longrightarrow>
        length (rs_answers response) \<le> 25 \<and>
        (\<forall>r \<in> set (rs_answers response). \<exists>v book now. RefreshComputed n v book now \<in> evs \<and>
           at_required_version (network_target E n) \<le> v \<and>
           (\<exists>m \<in> set (ab_peers (en_book E) book).
              r = peer_record (en_hickory E) name (sz_ttl zone) (ma_addr (en_book E) m) \<and>
              servable (peer_attributes_of (en_zebra E) (en_book E) book m now (to_zebra (en_zebra E) n) v))))"

definition query_current ::
  "('net, 'cache, 'n, 'l, 'fs, 'r, 'book, 'meta, 'time, 'c) environment \<Rightarrow> zcash_network \<Rightarrow> nat
    \<Rightarrow> ('n, 'l, 'm, 'book, 'time) task_event set \<Rightarrow> ('net, 'cache, 'n, 'l, 'fs, 'r, 'c, 'm) staged_process \<Rightarrow> bool" where
  "query_current E n k evs s \<longleftrightarrow> serves_current E n evs s \<and>
     (\<forall>request response. st_queries s k = Some (request, ResponseBuilt response) \<longrightarrow>
        current_response E n evs (dh_zones (pr_handler (st_process s))) request response)"

lemma current_response_mono:
  "current_response E n evs zones request response \<Longrightarrow> evs \<subseteq> evs' \<Longrightarrow> current_response E n evs' zones request response"
  unfolding current_response_def by blast

lemma resolved_current:
  assumes inv: "process_inv E config p" and current: "current_snapshot E n evs (crawler_snapshot p n)"
    and response: "response = query_response (en_hickory E) (crawler_snapshot p) (pr_handler p) request"
  shows "current_response E n evs (dh_zones (pr_handler p)) request response"
  unfolding current_response_def
proof (intro allI impI conjI ballI)
  fix name ty more zone
  assume query: "rq_queries request = (name, ty) # more" "ty \<in> {RecordA, RecordAAAA}"
    and zone: "matching_zone (en_hickory E) (dh_zones (pr_handler p)) name = Some zone" "sz_network zone = n"
  note from_snapshot = response_from_snapshot[OF inv response query zone(1)]
  then show "length (rs_answers response) \<le> 25" by blast
  fix r assume "r \<in> set (rs_answers response)"
  with from_snapshot zone(2) obtain a
    where a: "a \<in> set (sp_ipv4 (crawler_snapshot p n)) \<union> set (sp_ipv6 (crawler_snapshot p n))"
      "r = peer_record (en_hickory E) name (sz_ttl zone) a"
    by blast
  then have "crawler_snapshot p n \<noteq> default_servable_peers" by (auto simp: default_servable_peers_def)
  with current obtain v book now where computed: "RefreshComputed n v book now \<in> evs"
      "at_required_version (network_target E n) \<le> v"
    and served: "served_from (en_zebra E) (en_book E) book now (to_zebra (en_zebra E) n) v
      (at_required_version (network_target E n)) (crawler_snapshot p n)"
    by (auto simp: current_snapshot_def)
  from served_from_lists[OF served, of a] a
  have "\<exists>m \<in> set (ab_peers (en_book E) book). r = peer_record (en_hickory E) name (sz_ttl zone) (ma_addr (en_book E) m) \<and>
      servable (peer_attributes_of (en_zebra E) (en_book E) book m now (to_zebra (en_zebra E) n) v)"
    by blast
  with computed show "\<exists>v book now. RefreshComputed n v book now \<in> evs \<and>
      at_required_version (network_target E n) \<le> v \<and>
      (\<exists>m \<in> set (ab_peers (en_book E) book). r = peer_record (en_hickory E) name (sz_ttl zone) (ma_addr (en_book E) m) \<and>
        servable (peer_attributes_of (en_zebra E) (en_book E) book m now (to_zebra (en_zebra E) n) v))"
    by blast
qed

lemma step_zones:
  assumes "environment_laws E" "task_step E config s e s'" "staged_inv E config s"
  shows "dh_zones (pr_handler (st_process s')) = dh_zones (pr_handler (st_process s))"
  using task_step_inv[OF assms] assms(3) inv_zones_unique by (auto simp: staged_inv_def)

lemma step_queries:
  assumes "task_step E config s e s'" "st_queries s' k = Some (request, ResponseBuilt response)"
  shows "st_queries s k = Some (request, ResponseBuilt response) \<or>
    response = query_response (en_hickory E) (crawler_snapshot (st_process s)) (pr_handler (st_process s)) request"
  using assms(1)
proof cases
  case (query_resolved k' request' response' ops)
  with assms(2) resolve_query_response[of "en_hickory E" "crawler_snapshot (st_process s)" "pr_handler (st_process s)" request']
  show ?thesis by (auto split: if_splits)
qed (use assms(2) in \<open>auto simp: resting_def split: if_splits\<close>)

lemma step_query_current:
  assumes laws: "environment_laws E" and step: "task_step E config s e s'" and inv: "staged_inv E config s"
    and query: "query_current E n k evs s"
  shows "query_current E n k (insert e evs) s'"
proof -
  have serves: "serves_current E n evs s" using query by (simp add: query_current_def)
  have "current_response E n evs (dh_zones (pr_handler (st_process s'))) request response"
    if built: "st_queries s' k = Some (request, ResponseBuilt response)" for request response
    using step_queries[OF step built]
  proof
    assume "st_queries s k = Some (request, ResponseBuilt response)"
    with query show ?thesis by (simp add: query_current_def step_zones[OF laws step inv])
  next
    assume response: "response =
      query_response (en_hickory E) (crawler_snapshot (st_process s)) (pr_handler (st_process s)) request"
    have "process_inv E config (st_process s)" using inv by (simp add: staged_inv_def)
    from resolved_current[OF this _ response] serves show ?thesis
      by (simp add: step_zones[OF laws step inv] serves_current_def)
  qed
  with step_serves_current[OF laws step inv disjI1[OF serves]] show ?thesis
    by (auto simp: query_current_def intro: current_response_mono)
qed

end
