(* ===== verification/Command_Line.thy ===== *)
theory Command_Line
  imports Process_Steps
begin

text \<open>
  \<open>src/commands.rs\<close> and \<open>src/main.rs\<close>: the commands of the program and its entry point. What
  clap, dotenvy, tracing and toml return is a parameter, as are the sockets and the standard
  output; the commands themselves, their order of steps and their error branches are here.
\<close>

section \<open>Commands\<close>

datatype seeder_command =
    Start
  | PrintConfig
  | AttestActivation zcash_network path u32 u32 u32

record seeder_app =
  ap_config :: "path option"
  ap_command :: seeder_command

section \<open>The log filter\<close>

definition DEFAULT_LOG_FILTER :: string where "DEFAULT_LOG_FILTER = ''info''"
definition RUST_LOG_ENV :: string where "RUST_LOG_ENV = ''RUST_LOG''"

text \<open>What \<open>std::env::var\<close> returns; a filter's syntax is tracing's, its parser a parameter.\<close>

datatype env_var = EnvValue string | NotPresent | NotUnicode

datatype log_filter_error = FilterUnparsable string string string | FilterNotUnicode string

definition log_filter_from_env ::
  "(string \<Rightarrow> string + 'filter) \<Rightarrow> (string \<Rightarrow> 'filter) \<Rightarrow> (string \<Rightarrow> env_var) \<Rightarrow> log_filter_error + 'filter" where
  "log_filter_from_env try_new_filter new_filter env_var =
     (case env_var RUST_LOG_ENV of
        EnvValue filter_text \<Rightarrow> map_err (FilterUnparsable RUST_LOG_ENV filter_text) (try_new_filter filter_text)
      | NotPresent \<Rightarrow> Inr (new_filter DEFAULT_LOG_FILTER)
      | NotUnicode \<Rightarrow> Inl (FilterNotUnicode (RUST_LOG_ENV @ '' must be valid UTF-8'')))"

section \<open>Running a command\<close>

text \<open>The world a command runs in, and the errors that end it with a failure.\<close>

record ('filter, 'u, 't, 'h) terminal =
  tm_env_var :: "string \<Rightarrow> env_var"
  tm_try_filter :: "string \<Rightarrow> string + 'filter"
  tm_filter :: "string \<Rightarrow> 'filter"
  tm_resolve :: "config_source list \<Rightarrow> string + seeder_config"
  tm_install_metrics :: "socket_addr \<Rightarrow> string + unit"
  tm_render :: "seeder_config \<Rightarrow> string + string"
  tm_write_stdout :: "string \<Rightarrow> io_error + unit"
  tm_bind_udp :: "socket_addr \<Rightarrow> io_error + 'u"
  tm_bind_tcp :: "socket_addr \<Rightarrow> io_error + 't"
  tm_bind_health :: "socket_addr \<Rightarrow> io_error + 'h"
  tm_signal :: "(signal_error + string) option"
  tm_dns_outcome :: "(string + unit) option"

datatype 'l command_error =
    LogFilterError log_filter_error
  | LoadConfigError "'l config_error"
  | MetricsError metrics_error
  | SeederError "'l run_error"
  | RenderError string
  | StdoutError io_error
  | AttestationError io_error

text \<open>
  A command ends with its result, or, while neither a signal has come nor the DNS server has
  stopped, it is a running process. Its files are those it leaves behind when it ends; while a
  process runs they are a field of the process.
\<close>

datatype ('e, 'p) progress = Finished "'e + unit" | Running 'p

text \<open>\<open>seeder::run\<close>: start, then wait for the first of the two ends.\<close>

definition run_seeder ::
  "('net, 'cache) zebra \<Rightarrow> ('n, 'l) hickory \<Rightarrow> 'fs file_system \<Rightarrow> build_env \<Rightarrow> ('filter, 'u, 't, 'h) terminal
    \<Rightarrow> 'fs \<Rightarrow> 'r \<Rightarrow> seeder_config
    \<Rightarrow> ('l run_error, ('net, 'cache, 'n, 'l, 'fs, 'r, 'c) process) progress" where
  "run_seeder z h fs env tm files r config =
     (case start_process z h fs env (tm_bind_udp tm) (tm_bind_tcp tm) (tm_bind_health tm) files r config of
        Inl e \<Rightarrow> Finished (Inl e)
      | Inr p \<Rightarrow> (case select_exit (tm_signal tm) (tm_dns_outcome tm) of
            Some result \<Rightarrow> Finished result
          | None \<Rightarrow> Running p))"

definition start_command ::
  "('net, 'cache) zebra \<Rightarrow> ('n, 'l) hickory \<Rightarrow> 'fs file_system \<Rightarrow> build_env \<Rightarrow> ('filter, 'u, 't, 'h) terminal
    \<Rightarrow> 'fs \<Rightarrow> 'r \<Rightarrow> path option
    \<Rightarrow> ('l command_error, ('net, 'cache, 'n, 'l, 'fs, 'r, 'c) process) progress" where
  "start_command z h fs env tm files r config_path =
     (case bind_result (map_err LoadConfigError (load_with_env h (tm_resolve tm) config_path)) (\<lambda>config.
           bind_result (case sc_metrics config of
               None \<Rightarrow> Inr ()
             | Some mc \<Rightarrow> map_err MetricsError (metrics_init (tm_install_metrics tm) (mc_endpoint_addr mc))) (\<lambda>_.
           Inr config)) of
        Inl e \<Rightarrow> Finished (Inl e)
      | Inr config \<Rightarrow> (case run_seeder z h fs env tm files r config of
            Finished result \<Rightarrow> Finished (map_err SeederError result)
          | Running p \<Rightarrow> Running p))"

definition print_config_command ::
  "('n, 'l) hickory \<Rightarrow> ('filter, 'u, 't, 'h) terminal \<Rightarrow> path option \<Rightarrow> 'l command_error + unit" where
  "print_config_command h tm config_path =
     bind_result (map_err LoadConfigError (load_with_env h (tm_resolve tm) config_path)) (\<lambda>config.
     bind_result (map_err RenderError (tm_render tm config)) (\<lambda>rendered.
     map_err StdoutError (tm_write_stdout tm rendered)))"

definition attest_command ::
  "('net, 'cache) zebra \<Rightarrow> 'fs file_system \<Rightarrow> 'fs \<Rightarrow> zcash_network \<Rightarrow> path \<Rightarrow> u32 \<Rightarrow> u32 \<Rightarrow> u32
    \<Rightarrow> ('l command_error + path) \<times> 'fs" where
  "attest_command z fs files network cache_dir activation_height confirmation_height minimum_protocol_version =
     (let zcash_network = to_zebra z network;
          cache_dir = zb_custom_path z cache_dir;
          (path, files) = attest_confirmation z fs files cache_dir zcash_network
            activation_height confirmation_height minimum_protocol_version
      in (map_err AttestationError path, files))"

definition run_app ::
  "('net, 'cache) zebra \<Rightarrow> ('n, 'l) hickory \<Rightarrow> 'fs file_system \<Rightarrow> build_env \<Rightarrow> ('filter, 'u, 't, 'h) terminal
    \<Rightarrow> 'fs \<Rightarrow> 'r \<Rightarrow> seeder_app
    \<Rightarrow> ('l command_error, ('net, 'cache, 'n, 'l, 'fs, 'r, 'c) process) progress \<times> 'fs" where
  "run_app z h fs env tm files r app =
     (case log_filter_from_env (tm_try_filter tm) (tm_filter tm) (tm_env_var tm) of
        Inl e \<Rightarrow> (Finished (Inl (LogFilterError e)), files)
      | Inr _ \<Rightarrow>
          (case ap_command app of
             Start \<Rightarrow> (start_command z h fs env tm files r (ap_config app), files)
           | PrintConfig \<Rightarrow> (Finished (print_config_command h tm (ap_config app)), files)
           | AttestActivation network cache_dir activation_height confirmation_height minimum_protocol_version \<Rightarrow>
               let (path, files) = attest_command z fs files network cache_dir
                     activation_height confirmation_height minimum_protocol_version
               in (Finished (bind_result path (\<lambda>_. Inr ())), files)))"

section \<open>The entry point\<close>

definition DOTENV_PATH :: path where "DOTENV_PATH = [''.env'']"

text \<open>
  dotenvy reads the file into the environment, says that there is none, or fails otherwise;
  only the last ends the program. The command then sees the environment left behind.
\<close>

datatype dotenv_error = DotenvNotFound | DotenvFailed string

datatype 'l main_error = ReportInstallError string | DotenvError path dotenv_error | CommandError "'l command_error"

definition load_dotenv_from_path :: "(path \<Rightarrow> dotenv_error + unit) \<Rightarrow> path \<Rightarrow> 'l main_error + unit" where
  "load_dotenv_from_path from_path path =
     (case from_path path of
        Inr _ \<Rightarrow> Inr ()
      | Inl DotenvNotFound \<Rightarrow> Inr ()
      | Inl error \<Rightarrow> Inl (DotenvError path error))"

definition zeeder_main ::
  "string + unit \<Rightarrow> (path \<Rightarrow> dotenv_error + unit)
    \<Rightarrow> ('l command_error, 'p) progress \<times> 'fs \<Rightarrow> 'fs \<Rightarrow> ('l main_error, 'p) progress \<times> 'fs" where
  "zeeder_main install from_path app_outcome files =
     (case bind_result (map_err ReportInstallError install) (\<lambda>_. load_dotenv_from_path from_path DOTENV_PATH) of
        Inl e \<Rightarrow> (Finished (Inl e), files)
      | Inr _ \<Rightarrow> (case app_outcome of
            (Finished result, files') \<Rightarrow> (Finished (map_err CommandError result), files')
          | (Running p, files') \<Rightarrow> (Running p, files')))"

section \<open>Properties\<close>

lemma start_process_tip:
  assumes "start_process z h fs env bu bt bh files r config = Inr p" "n \<in> dom (sc_zones config)"
  shows "tip_at p n = Some (new_tip (latest_target z (to_zebra z n)) (load_confirmation fs files
    (confirmation_path z (nc_cache_dir (zb_default_config z)) (to_zebra z n)) (latest_target z (to_zebra z n))))"
  using start_process_started[OF assms(1)] assms(2)
  by (simp add: process_started_def tip_at_def crawler_of_def Let_def network_config_def)

text \<open>C30: An operator's attestation takes effect: when the attestation command ends well for a
  network, the three numbers given were those of the compiled target, and the next process
  that starts on the files it left, with that network configured and zebra's default cache
  directory the one given, starts that network confirmed, with a protocol floor at the version
  the newest activation requires or above.\<close>

theorem attested_network_starts_confirmed:
  assumes "file_system_laws fs" "chain_laws z (to_zebra z n)"
    and "ap_command app = AttestActivation n dir a c v"
    and "run_app z h fs env tm files r app = (Finished (Inr ()), files')"
    and "zb_cache_dir z (zb_custom_path z dir) = zb_cache_dir z (nc_cache_dir (zb_default_config z))"
    and "start_process z h fs env' bu bt bh files' r' config = Inr p" "n \<in> dom (sc_zones config)"
  shows "(a, c, v) = (at_activation_height (latest_target z (to_zebra z n)),
      at_confirmation_height (latest_target z (to_zebra z n)), at_required_version (latest_target z (to_zebra z n))) \<and>
    (\<exists>t. tip_at p n = Some t \<and> is_activation_confirmed t \<and> v \<le> protocol_floor z (to_zebra z n) t)"
proof -
  let ?t = "latest_target z (to_zebra z n)"
  let ?path = "confirmation_path z (nc_cache_dir (zb_default_config z)) (to_zebra z n)"
  have path: "confirmation_path z (zb_custom_path z dir) (to_zebra z n) = ?path"
    using assms(5) by (simp add: confirmation_path_def)
  from assms(3,4) obtain q where attested: "attest_confirmation z fs files (zb_custom_path z dir) (to_zebra z n) a c v =
      (Inr q, files')"
    by (auto simp: run_app_def attest_command_def Let_def split_beta map_err_def bind_result_Inr_iff prod_eq_iff
        split: sum.splits)
  have numbers: "(a, c, v) = (at_activation_height ?t, at_confirmation_height ?t, at_required_version ?t)"
    using attest_mismatch[of a c v z "to_zebra z n" fs files "zb_custom_path z dir"] attested
    by (metis Inr_Inl_False prod.inject)
  then have "load_confirmation fs files' ?path ?t"
    using attest_match[of z fs files "zb_custom_path z dir" "to_zebra z n"] attested path
    by (auto simp: Let_def split_beta bind_result_Inr_iff prod_eq_iff split: option.splits
        intro: store.reload[OF assms(1)])
  then have tip: "tip_at p n = Some (new_tip ?t True)"
    using start_process_tip[OF assms(6,7)] by simp
  moreover have confirmed: "is_activation_confirmed (new_tip ?t True)"
    using new_tip_confirmed_iff[OF assms(2)] by simp
  moreover have "at_required_version ?t \<le> protocol_floor z (to_zebra z n) (new_tip ?t True)"
    by (rule confirmed_floor[OF assms(2) _ confirmed]) (simp add: new_tip_def Let_def)
  ultimately show ?thesis using numbers by simp
qed

lemma select_exit_error:
  assumes "select_exit signal outcome = Some (Inl e)"
  shows "(\<exists>x. e = SignalError x) \<or> (\<exists>x. e = DnsServerCrashed x)"
proof (cases signal)
  case None
  with assms obtain r where "map_err DnsServerCrashed r = (Inl e :: _ + unit)" by (auto simp: select_exit_def)
  then show ?thesis by (cases r) (auto simp: map_err_def)
next
  case (Some r)
  with assms show ?thesis by (cases r) (auto simp: select_exit_def map_err_def)
qed

text \<open>C31: How \<open>start\<close> can fail: with a configuration that cannot be resolved or is not valid, with
  a metrics endpoint that cannot be installed, or, once the configuration is accepted, with a
  socket that cannot be bound, a synthesized SOA mailbox that is not a name, a signal handler
  that fails, or a DNS server that crashes. No error of the limiter and no other error of a zone
  can end it.\<close>

theorem start_failures:
  assumes "(start_command z h fs env tm files r path ::
      ('l command_error, ('net, 'cache, 'n, 'l, 'fs, 'r, 'c) process) progress) = Finished (Inl e)"
  shows "(\<exists>s. e = LoadConfigError s) \<or> (\<exists>m. e = MetricsError m) \<or>
    (\<exists>s. e = SeederError s \<and>
       ((\<exists>b. s = BindError b) \<or> (\<exists>b. s = HealthError b) \<or> (\<exists>d. s = ZoneError (InvalidMailbox d)) \<or>
        (\<exists>x. s = SignalError x) \<or> (\<exists>x. s = DnsServerCrashed x)))"
proof (cases "load_with_env h (tm_resolve tm) path")
  case (Inl s)
  with assms show ?thesis by (auto simp: start_command_def map_err_def)
next
  case (Inr config)
  then have valid: "validate_config h config = Inr ()"
    by (auto simp: load_with_env_def bind_result_Inr_iff)
  show ?thesis
  proof (cases "(case sc_metrics config of None \<Rightarrow> Inr ()
      | Some mc \<Rightarrow> map_err MetricsError (metrics_init (tm_install_metrics tm) (mc_endpoint_addr mc))) ::
        'l command_error + unit")
    case (Inl m)
    with assms Inr show ?thesis
      by (auto simp: start_command_def map_err_def split: option.splits sum.splits)
  next
    case metrics: (Inr u)
    with assms Inr obtain s where e: "e = SeederError s"
      and run: "(run_seeder z h fs env tm files r config ::
        ('l run_error, ('net, 'cache, 'n, 'l, 'fs, 'r, 'c) process) progress) = Finished (Inl s)"
      by (auto simp: start_command_def map_err_def split: progress.splits sum.splits)
    have "(\<exists>b. s = BindError b) \<or> (\<exists>b. s = HealthError b) \<or> (\<exists>d. s = ZoneError (InvalidMailbox d)) \<or>
        (\<exists>x. s = SignalError x) \<or> (\<exists>x. s = DnsServerCrashed x)"
    proof (cases "start_process z h fs env (tm_bind_udp tm) (tm_bind_tcp tm) (tm_bind_health tm) files r config ::
        'l run_error + ('net, 'cache, 'n, 'l, 'fs, 'r, 'c) process")
      case (Inl s')
      with run have "s' = s" by (simp add: run_seeder_def)
      with valid_start_error[OF valid Inl] show ?thesis by blast
    next
      case (Inr p)
      with run have "select_exit (tm_signal tm) (tm_dns_outcome tm) = Some (Inl s)"
        by (simp add: run_seeder_def split: option.splits)
      then show ?thesis by (auto dest: select_exit_error)
    qed
    with e show ?thesis by blast
  qed
qed

section \<open>A terminal for the witnesses\<close>

definition sample_terminal :: "(string, unit, unit, unit) terminal" where
  "sample_terminal = \<lparr>tm_env_var = (\<lambda>_. NotPresent), tm_try_filter = Inr, tm_filter = (\<lambda>s. s),
     tm_resolve = (\<lambda>_. Inr seeder_config_default), tm_install_metrics = (\<lambda>_. Inr ()),
     tm_render = (\<lambda>_. Inr []), tm_write_stdout = (\<lambda>_. Inr ()), tm_bind_udp = (\<lambda>_. Inr ()),
     tm_bind_tcp = (\<lambda>_. Inr ()), tm_bind_health = (\<lambda>_. Inr ()), tm_signal = None, tm_dns_outcome = None\<rparr>"

definition sample_attest :: seeder_app where
  "sample_attest = \<lparr>ap_config = None,
     ap_command = AttestActivation Mainnet [''cache'', ''zebra''] 3543405 3544405 170190\<rparr>"

theorem attested_network_starts_confirmed_witness:
  "\<exists>files' p t. (run_app pinned_zebra sample_hickory sample_files sample_build sample_terminal [] (0 :: nat) sample_attest ::
       (string list command_error, (bool, path option, string list, string list, (path \<times> string) list, nat, nat) process)
         progress \<times> _) = (Finished (Inr ()), files') \<and>
     (start_process pinned_zebra sample_hickory sample_files sample_build (\<lambda>_. Inr ()) (\<lambda>_. Inr ()) (\<lambda>_. Inr ())
       files' (0 :: nat) sample_config ::
       string list run_error + (bool, path option, string list, string list, (path \<times> string) list, nat, nat) process) = Inr p \<and>
     tip_at p Mainnet = Some t \<and> is_activation_confirmed t"
proof -
  have target: "latest_target pinned_zebra False = \<lparr>at_activation_height = 3543405,
      at_confirmation_height = 3544405, at_pre_activation_height = 3543404, at_required_version = 170190\<rparr>"
    by (simp add: latest_target_def pinned_zebra_simps saturating_add_def Let_def)
  obtain files' where run: "(run_app pinned_zebra sample_hickory sample_files sample_build sample_terminal [] (0 :: nat)
      sample_attest :: (string list command_error, (bool, path option, string list, string list,
        (path \<times> string) list, nat, nat) process) progress \<times> _) = (Finished (Inr ()), files')"
    using attest_match[of pinned_zebra sample_files "[]" "Some [''cache'', ''zebra'']" False]
    by (simp add: run_app_def sample_attest_def attest_command_def log_filter_from_env_def sample_terminal_def
        map_err_def target pinned_zebra_simps confirmation_path_def path_join_def persist_confirmation_def
        sample_files_def)
  obtain p0 where "sample_start_process = Inr p0" using sample_process_starts by blast
  from start_again[OF this, of files' 0] obtain p where start: "(start_process pinned_zebra sample_hickory sample_files sample_build
      (\<lambda>_. Inr ()) (\<lambda>_. Inr ()) (\<lambda>_. Inr ()) files' (0 :: nat) sample_config ::
      string list run_error + (bool, path option, string list, string list, (path \<times> string) list, nat, nat) process) = Inr p"
    by blast
  have "ap_command sample_attest = AttestActivation Mainnet [''cache'', ''zebra''] 3543405 3544405 170190"
    by (simp add: sample_attest_def)
  moreover have "zb_cache_dir pinned_zebra (zb_custom_path pinned_zebra [''cache'', ''zebra'']) =
      zb_cache_dir pinned_zebra (nc_cache_dir (zb_default_config pinned_zebra))"
    by (simp add: pinned_zebra_def)
  moreover have "Mainnet \<in> dom (sc_zones sample_config)" by (simp add: sample_config_def)
  ultimately obtain t where "tip_at p Mainnet = Some t" "is_activation_confirmed t"
    using attested_network_starts_confirmed[OF sample_files_laws pinned_chain_laws _ run _ start] by blast
  with run start show ?thesis by blast
qed

text \<open>The default configuration has no zone, so \<open>start\<close> without a configuration fails.\<close>

theorem start_failures_witness:
  "\<exists>e s. (start_command pinned_zebra sample_hickory sample_files sample_build sample_terminal [] (0 :: nat) None ::
       (string list command_error, (bool, path option, string list, string list, (path \<times> string) list, nat, nat) process)
         progress) = Finished (Inl e) \<and> e = LoadConfigError s"
proof -
  have "validate_config sample_hickory seeder_config_default \<noteq> Inr ()" by code_simp
  then obtain v where "load_with_env sample_hickory (tm_resolve sample_terminal) None = Inl v"
    by (cases "validate_config sample_hickory seeder_config_default")
      (auto simp: load_with_env_def sample_terminal_def map_err_def)
  then have failed: "(start_command pinned_zebra sample_hickory sample_files sample_build sample_terminal [] (0 :: nat) None ::
      (string list command_error, (bool, path option, string list, string list, (path \<times> string) list, nat, nat) process)
        progress) = Finished (Inl (LoadConfigError v))"
    by (simp add: start_command_def map_err_def)
  with start_failures[OF failed] show ?thesis by blast
qed

text \<open>A process that starts confirmed, on files that hold the record of the Mainnet target.\<close>

lemma sample_confirmed_start:
  "\<exists>p t. started_process sample_environment sample_config p \<and> tip_at p Mainnet = Some t \<and>
     is_activation_confirmed t"
proof -
  let ?target = "latest_target pinned_zebra False"
  define files where "files = [([''cache'', ''zebra'', ''network'', ''mainnet.activation''], confirmation_record ?target)]"
  have path: "confirmation_path pinned_zebra (nc_cache_dir (zb_default_config pinned_zebra)) False =
      Some [''cache'', ''zebra'', ''network'', ''mainnet.activation'']"
    by (simp add: confirmation_path_def path_join_def pinned_zebra_def)
  have loaded: "load_confirmation sample_files files
      (confirmation_path pinned_zebra (nc_cache_dir (zb_default_config pinned_zebra)) False) ?target"
    unfolding path by (simp add: load_confirmation_def sample_files_def files_def matches_confirmation_record_def)
  obtain p0 where "sample_start_process = Inr p0" using sample_process_starts by blast
  from start_again[OF this, of files 0] obtain p where start: "(start_process pinned_zebra sample_hickory sample_files
      sample_build (\<lambda>_. Inr ()) (\<lambda>_. Inr ()) (\<lambda>_. Inr ()) files (0 :: nat) sample_config ::
      string list run_error + (bool, path option, string list, string list, (path \<times> string) list, nat, nat) process) = Inr p"
    by blast
  have "Mainnet \<in> dom (sc_zones sample_config)" by (simp add: sample_config_def)
  from start_process_tip[OF start this] have "tip_at p Mainnet = Some (new_tip ?target True)"
    by (simp add: pinned_zebra_simps loaded)
  moreover have "is_activation_confirmed (new_tip ?target True)"
    by (simp add: new_tip_confirmed_iff[OF pinned_chain_laws])
  moreover have "started_process sample_environment sample_config p"
    using start by (auto simp: started_process_def sample_environment_def)
  ultimately show ?thesis by blast
qed

end
