(* ===== verification/Interleaved_Runs.thy ===== *)
theory Interleaved_Runs
  imports Task_Interleaving Command_Line
begin

text \<open>
  What holds of every interleaving of the stages of all tasks, and that the runs of
  \<open>Process_Steps\<close>, whose tasks run their passes without interruption, are among them.
\<close>

section \<open>Passes without interruption\<close>

text \<open>What a client sees of a pass and of a stage: the responses sent to it.\<close>

datatype ('n, 'l, 'm) observed =
    DnsResponseSent "('l, 'm) dns_request" "('n, 'm) dns_response"
  | ReadinessSent string

fun pass_observed :: "('n, 'l, 'm, 'i, 'c, 'book, 'time) process_event \<Rightarrow> ('n, 'l, 'm) observed list" where
  "pass_observed (QueryHandled request out) =
     (case hd_sent out of None \<Rightarrow> [] | Some response \<Rightarrow> [DnsResponseSent request response])"
| "pass_observed (HealthProbed text) = [ReadinessSent text]"
| "pass_observed _ = []"

fun stage_observed :: "('n, 'l, 'm, 'book, 'time) task_event \<Rightarrow> ('n, 'l, 'm) observed list" where
  "stage_observed (QueryAnswered k request response) = [DnsResponseSent request response]"
| "stage_observed (ReadinessAsked text) = [ReadinessSent text]"
| "stage_observed _ = []"

definition all_observed :: "('e \<Rightarrow> 'o list) \<Rightarrow> 'e list \<Rightarrow> 'o list" where
  "all_observed f es = concat (map f es)"

lemma all_observed_simps [simp]:
  "all_observed f [] = []" "all_observed f (e # es) = f e @ all_observed f es"
  "all_observed f (es @ es') = all_observed f es @ all_observed f es'"
  by (simp_all add: all_observed_def)

lemma resting_simps [simp]:
  "st_process (resting p) = p" "st_refresh (resting p) n = CacheSleeping" "st_pass (resting p) n = ObserverWaiting"
  "st_queries (resting p) k = None"
  by (simp_all add: resting_def)

lemma resting_eq:
  "st_refresh s = (\<lambda>_. CacheSleeping) \<Longrightarrow> st_pass s = (\<lambda>_. ObserverWaiting) \<Longrightarrow> st_queries s = (\<lambda>_. None) \<Longrightarrow>
    st_process s = p \<Longrightarrow> s = resting p"
  by (simp add: resting_def)

lemma set_cache_twice:
  "pr_crawlers p n = Some c \<Longrightarrow> set_cache n (c\<lparr>cr_cache := ck\<rparr>) ck' (set_cache n c ck p) = set_cache n c ck' p"
  by (simp add: set_cache_def)

lemma set_observer_twice:
  "set_observer n (c\<lparr>cr_observer := ob\<rparr>) ob' (set_observer n c ob p) = set_observer n c ob' p"
  by (simp add: set_observer_def)

lemma observer_on_set [simp]: "observer_on (set_observer n c ob p) (c\<lparr>cr_observer := ob\<rparr>) = ob"
  by (simp add: observer_on_def set_observer_def)

lemma refresh_run:
  assumes s: "s = resting p" and c: "pr_crawlers p n = Some c" and running: "ck_running (cr_cache c)"
  shows "\<exists>v. task_run E config s [RefreshBegan n, RefreshComputed n v book now, RefreshSent n]
    (resting (refresh_turn E n book poisoned now p))"
proof -
  let ?tip = "ob_tip (cr_observer c)"
  obtain v log ck1 where b: "begin_refresh (en_zebra E) n ?tip (cr_cache c) = ((v, log), ck1)"
    by (metis surj_pair)
  obtain reports peers ck2 where k: "compute_refresh (en_zebra E) (en_book E) (en_shuffler E) n
      (at_required_version (cr_target c)) v log book poisoned now ck1 = (reports, peers, ck2)"
    by (metis surj_pair)
  define s1 where "s1 = s\<lparr>st_process := set_cache n c ck1 p,
    st_refresh := (st_refresh s)(n := CacheBegun v log)\<rparr>"
  define s2 where "s2 = s1\<lparr>st_process := set_cache n c ck2 p, st_refresh := (st_refresh s1)(n := CacheComputed peers)\<rparr>"
  define s3 where "s3 = s2\<lparr>st_process := set_cache n c (send_refresh True peers ck2) p,
    st_refresh := (st_refresh s2)(n := CacheSleeping)\<rparr>"
  have 1: "task_step E config s (RefreshBegan n) s1"
    using refresh_begins[of s n c E v log ck1 config] c running b by (simp add: s s1_def)
  have 2: "task_step E config s1 (RefreshComputed n v book now) s2"
    using refresh_computes[of s1 n v log "c\<lparr>cr_cache := ck1\<rparr>" E book poisoned now reports peers ck2 config] k
    by (simp add: s1_def s2_def set_cache_twice[OF c])
  have 3: "task_step E config s2 (RefreshSent n) s3"
    using refresh_sends[of s2 n peers "c\<lparr>cr_cache := ck2\<rparr>" E config] by (simp add: s1_def s2_def s3_def set_cache_twice[OF c])
  have "s3 = resting (refresh_turn E n book poisoned now p)"
    by (rule resting_eq) (simp_all add: s s1_def s2_def s3_def resting_def fun_upd_idem
        refresh_turn_crawler[OF c] refresh_stages[OF running] b k set_cache_def)
  with 1 2 3 show ?thesis by (auto simp: run_Cons_iff)
qed

lemma observer_run_stages:
  assumes s: "s = resting p" and c: "pr_crawlers p n = Some c" and running: "ob_running (cr_observer c)"
    and world: "completes_all (si_world i)"
  shows "\<exists>es. task_run E config s es (resting (observer_turn E n i p)) \<and> all_observed stage_observed es = []"
proof -
  let ?z = "en_zebra E"
  obtain sampled ob1 where a: "sample_sweep ?z (en_book E) (en_shuffler E) (en_values E) n (cr_target c)
      (si_book i) (si_now i) (observer_on p c) = (sampled, ob1)" by (metis surj_pair)
  obtain ops confirmed ob2 where j: "judge_pass ?z n (cr_user_agent c) (cr_target c) (si_world i) sampled ob1 =
      (ops, confirmed, ob2)" by (metis surj_pair)
  obtain written ob3 where w: "write_record (en_files E) (cr_confirmation_path c) (cr_target c) ob2 = (written, ob3)"
    by (metis surj_pair)
  obtain more ob4 where f: "raise_floor n (cr_target c) ob3 = (more, ob4)" by (metis surj_pair)
  define s1 where "s1 = s\<lparr>st_process := set_observer n c ob1 p,
    st_pass := (st_pass s)(n := PeersSampled sampled)\<rparr>"
  define s2 where "s2 = s1\<lparr>st_process := set_observer n c ob2 p,
    st_pass := (st_pass s1)(n := if confirmed then GateConfirmed else ObserverWaiting)\<rparr>"
  define s3 where "s3 = s2\<lparr>st_process := set_observer n c ob3 p,
    st_pass := (st_pass s2)(n := if written then RecordDurable else ObserverWaiting)\<rparr>"
  define s4 where "s4 = s3\<lparr>st_process := set_observer n c ob4 p, st_pass := (st_pass s3)(n := ObserverWaiting)\<rparr>"
  have 1: "task_step E config s (SweepSampled n) s1"
    using sweep_samples[of s n c E "si_book i" "si_now i" sampled ob1 config] c running a
    by (simp add: s s1_def)
  have 2: "task_step E config s1 (SweepJudged n) s2"
    using sweep_judged[of s1 n sampled "c\<lparr>cr_observer := ob1\<rparr>" "si_world i" E ops confirmed ob2 config] world j
    by (simp add: s1_def s2_def set_observer_twice)
  have 3: "task_step E config s2 (RecordWritten n written) s3" if "confirmed"
    using record_written[of s2 n "c\<lparr>cr_observer := ob2\<rparr>" E written ob3 config] w that
    by (simp add: s1_def s2_def s3_def set_observer_twice)
  have 4: "task_step E config s3 (FloorRaised n) s4" if "written"
    using floor_raised[of s3 n "c\<lparr>cr_observer := ob3\<rparr>" more ob4 E config] f that
    by (simp add: s1_def s2_def s3_def s4_def set_observer_twice)
  have turn: "observer_turn E n i p =
      set_observer n c (if \<not> confirmed then ob2 else if \<not> written then ob3 else ob4) p"
    using running a j w f
    by (simp add: observer_turn_crawler[OF c running, folded observer_on_def] observer_stages set_observer_def Let_def)
  have ends: "\<not> confirmed \<Longrightarrow> s2 = resting (observer_turn E n i p)"
    "confirmed \<Longrightarrow> \<not> written \<Longrightarrow> s3 = resting (observer_turn E n i p)"
    "confirmed \<Longrightarrow> written \<Longrightarrow> s4 = resting (observer_turn E n i p)"
    by (auto intro!: resting_eq simp: s s1_def s2_def s3_def s4_def resting_def fun_upd_idem turn)
  have runs: "\<not> confirmed \<Longrightarrow> task_run E config s [SweepSampled n, SweepJudged n] s2"
    "confirmed \<Longrightarrow> task_run E config s [SweepSampled n, SweepJudged n, RecordWritten n written] s3"
    "confirmed \<Longrightarrow> written \<Longrightarrow>
      task_run E config s [SweepSampled n, SweepJudged n, RecordWritten n written, FloorRaised n] s4"
    using 1 2 3 4 by (auto simp: run_Cons_iff)
  let ?es = "[SweepSampled n, SweepJudged n] @ (if \<not> confirmed then [] else
    RecordWritten n written # (if \<not> written then [] else [FloorRaised n]))"
  have "task_run E config s ?es (resting (observer_turn E n i p))"
    using ends runs by (cases confirmed; cases written) simp_all
  moreover have "all_observed stage_observed ?es = []" by simp
  ultimately show ?thesis by blast
qed

lemma query_run_dropped:
  assumes s: "s = resting p" and turn: "query_turn E send now request p = (out, p')" and dropped: "hd_sent out = None"
  shows "task_run E config s [QueryChecked 0 request False] (resting p')"
proof -
  obtain within l where a: "admit_query (en_governor E) now (pr_handler p) request = (within, l)" by (metis surj_pair)
  have within: "\<not> within" and p': "p' = set_limiter l p"
    using turn a dropped by (auto simp: query_turn_def query_stages set_limiter_def Let_def split_beta split: if_splits)
  have "task_step E config s (QueryChecked 0 request False) (s\<lparr>st_process := set_limiter l p\<rparr>)"
    using query_dropped[of s 0 E now request l config] a within by (simp add: s)
  then show ?thesis by (simp add: run_one s p' resting_def)
qed

lemma query_run_answered:
  assumes s: "s = resting p" and turn: "query_turn E send now request p = (out, p')"
    and sent: "hd_sent out = Some response"
  shows "task_run E config s [QueryChecked 0 request True, QueryResolved 0, QueryAnswered 0 request response] (resting p')"
proof -
  obtain within l where a: "admit_query (en_governor E) now (pr_handler p) request = (within, l)" by (metis surj_pair)
  obtain ops where r: "resolve_query (en_hickory E) (crawler_snapshot p) (pr_handler p) request = (response, ops)"
    and within: "within" and p': "p' = set_limiter l p"
    using turn a sent
    by (cases "resolve_query (en_hickory E) (crawler_snapshot p) (pr_handler p) request")
      (auto simp: query_turn_def query_stages set_limiter_def Let_def split_beta split: if_splits)
  have same: "resolve_query (en_hickory E) (crawler_snapshot (set_limiter l p)) (pr_handler (set_limiter l p)) request =
      (response, ops)"
    using r by (simp add: resolve_query_def set_limiter_def crawler_snapshot_def[abs_def])
  define s1 where "s1 = s\<lparr>st_process := set_limiter l p, st_queries := (st_queries s)(0 \<mapsto> (request, QueryAdmitted))\<rparr>"
  define s2 where "s2 = s1\<lparr>st_queries := (st_queries s1)(0 \<mapsto> (request, ResponseBuilt response))\<rparr>"
  define s3 where "s3 = s2\<lparr>st_queries := (st_queries s2)(0 := None)\<rparr>"
  have 1: "task_step E config s (QueryChecked 0 request True) s1"
    using query_admitted[of s 0 E now request l config] a within by (simp add: s s1_def)
  have 2: "task_step E config s1 (QueryResolved 0) s2"
    using query_resolved[of s1 0 request E response ops config] same by (simp add: s s1_def s2_def)
  have 3: "task_step E config s2 (QueryAnswered 0 request response) s3"
    using query_answered[of s2 0 request response E config] by (simp add: s2_def s3_def)
  have "s3 = resting p'" by (simp add: s s1_def s2_def s3_def resting_def p' fun_upd_idem)
  with 1 2 3 show ?thesis by (auto simp: run_Cons_iff)
qed

lemma query_run:
  assumes s: "s = resting p" and turn: "query_turn E send now request p = (out, p')"
  shows "\<exists>es. task_run E config s es (resting p') \<and> all_observed stage_observed es = pass_observed (QueryHandled request out)"
proof (cases "hd_sent out")
  case None
  from query_run_dropped[OF s turn None] show ?thesis
    by (intro exI[of _ "[QueryChecked 0 request False]"]) (simp add: None)
next
  case (Some response)
  from query_run_answered[OF s turn Some] show ?thesis
    by (intro exI[of _ "[QueryChecked 0 request True, QueryResolved 0, QueryAnswered 0 request response]"])
      (simp add: Some)
qed

lemma pass_run:
  assumes inv: "process_inv E config p" and step: "process_step E config p e p'" and s: "s = resting p"
  shows "\<exists>es. task_run E config s es (resting p') \<and> all_observed stage_observed es = pass_observed e"
  using step
proof cases
  case (refresh_step n book now poisoned)
  show ?thesis
  proof (cases "pr_crawlers p n")
    case None
    then show ?thesis by (intro exI[of _ "[]"]) (simp add: refresh_step refresh_turn_def s)
  next
    case (Some c)
    then have "ck_running (cr_cache c)" using zone_crawlers_invD[OF inv] by (simp add: crawler_ok_def)
    from refresh_run[OF s Some this, of E config book now poisoned] show ?thesis
      by (force simp: refresh_step)
  qed
next
  case (observer_step i n)
  show ?thesis
  proof (rule observer_turn_cases[of E n i p])
    assume "observer_turn E n i p = p"
    then show ?thesis by (intro exI[of _ "[]"]) (simp add: observer_step s)
  next
    fix c assume "pr_crawlers p n = Some c" "ob_running (cr_observer c)"
    from observer_run_stages[OF s this observer_step(3)] show ?thesis by (simp add: observer_step)
  qed
next
  case (query_step send now request out)
  from query_run[OF s query_step(2)] show ?thesis by (simp add: query_step(1))
next
  case (prune_step now)
  have "task_step E config s CellsPruned (resting p')"
    using cells_pruned[of E config s now] by (simp add: s prune_step resting_def)
  then show ?thesis by (intro exI[of _ "[CellsPruned]"]) (simp add: run_one prune_step)
next
  case (health_step zones threshold)
  have "task_step E config s (ReadinessAsked (readiness_response (crawler_snapshot p) zones threshold)) s"
    using readiness_asked[of s zones threshold E config] health_step by (simp add: s)
  then show ?thesis
    by (intro exI[of _ "[ReadinessAsked (readiness_response (crawler_snapshot p) zones threshold)]"])
      (simp add: run_one health_step s)
next
  case (restart_step r)
  have "task_step E config s SeederRestarted (resting p')"
    using seeder_restarts[of E s r config p'] restart_step by (simp add: s)
  then show ?thesis by (intro exI[of _ "[SeederRestarted]"]) (simp add: run_one restart_step)
qed

text \<open>
  The runs in which every task finishes its pass before another one starts are among the runs in
  which the stages of all tasks interleave, with the same responses in the same order: the two
  descriptions of the tasks agree.
\<close>

lemma passes_refine_to_stages:
  assumes "environment_laws E" "started_process E config p0" "process_run E config p0 es p" "s = resting p0"
  shows "\<exists>ses. task_run E config s ses (resting p) \<and>
    all_observed stage_observed ses = all_observed pass_observed es"
  using assms(3,2,4)
proof induction
  case (run_nil p0)
  then show ?case by (intro exI[of _ "[]"]) simp
next
  case (run_snoc p0 es q e q')
  from run_snoc.IH[OF run_snoc.prems] obtain ses where ses: "task_run E config s ses (resting q)"
    "all_observed stage_observed ses = all_observed pass_observed es" by blast
  have "process_inv E config q"
    by (rule process_run_inv[OF assms(1) run_snoc.hyps(1) started_inv[OF assms(1) run_snoc.prems(1)]])
  from pass_run[OF this run_snoc.hyps(2) refl] obtain ses' where "task_run E config (resting q) ses' (resting q')"
    "all_observed stage_observed ses' = pass_observed e" by blast
  with ses show ?case by (intro exI[of _ "ses @ ses'"]) (auto intro: run_then)
qed

section \<open>Properties\<close>

text \<open>C2: No interleaving lowers a protocol floor or raises it before its time: over any stages of any
  tasks of all networks, queries in flight, attestations of the operator, crashes in the middle
  of a pass and restarts, no network's tip falls, a confirmed activation stays confirmed, the
  floor never falls, and whenever a tip is confirmed its record is on the files already and the
  floor is at least the version the newest activation requires.\<close>

theorem floor_never_falls_between_stages:
  assumes "environment_laws E" "started_process E config p0"
    and "task_run E config (resting p0) es s" "task_run E config s es' s'"
    and "tip_at (st_process s) n = Some t"
  shows "\<exists>t'. tip_at (st_process s') n = Some t' \<and>
    protocol_floor (en_zebra E) (to_zebra (en_zebra E) n) t \<le> protocol_floor (en_zebra E) (to_zebra (en_zebra E) n) t' \<and>
    (is_activation_confirmed t \<longrightarrow> is_activation_confirmed t') \<and>
    (is_activation_confirmed t' \<longrightarrow>
      (load_confirmation (en_files E) (pr_files (st_process s')) (network_path E n) (network_target E n) \<and>
       at_required_version (network_target E n) \<le> protocol_floor (en_zebra E) (to_zebra (en_zebra E) n) t'))"
proof -
  have inv: "staged_inv E config s"
    by (rule tasks.run_inv[OF assms(3,1) started_staged_inv[OF assms(1,2)]])
  have inv': "process_inv E config (st_process s')"
    using tasks.run_inv[OF assms(4,1) inv] by (simp add: staged_inv_def)
  have "tip_raised (Some t) (tip_at (st_process s') n)"
    using tasks.run_rises[OF assms(4,1) inv] assms(5) by (metis tips_rise_def)
  then obtain t' where t': "tip_at (st_process s') n = Some t'" and raised: "ct_watched_height t \<le> ct_watched_height t'"
      "is_activation_confirmed t \<longrightarrow> is_activation_confirmed t'"
    by (auto simp: tip_raised_def split: option.splits)
  from t' raised_floor[OF assms(1) inv' t' raised] show ?thesis by blast
qed

text \<open>A restart of the sample process, as one stage.\<close>

lemma sample_restart_stage:
  fixes s :: "(bool, path option, string list, string list, (path \<times> string) list, nat, nat, nat) staged_process"
  assumes "started_process sample_environment sample_config p" "s = resting p"
  shows "\<exists>p'. task_step sample_environment sample_config s SeederRestarted (resting p')"
proof -
  obtain p' where "process_step sample_environment sample_config p (ProcessRestarted :: sample_event) p'"
    using restart_exists[OF assms(1)] by blast
  then obtain r where "start_process (en_zebra sample_environment) (en_hickory sample_environment)
      (en_files sample_environment) (en_build sample_environment) (\<lambda>_. Inr ()) (\<lambda>_. Inr ()) (\<lambda>_. Inr ())
      (pr_files p) r sample_config = Inr p'"
    by (auto elim: restart_stepE)
  with seeder_restarts[of sample_environment s r sample_config p'] assms(2) show ?thesis by auto
qed

theorem floor_never_falls_between_stages_witness:
  "\<exists>p p' t' s. started_process sample_environment sample_config p \<and>
     s = (resting p :: (bool, path option, string list, string list, (path \<times> string) list, nat, nat, nat) staged_process) \<and>
     task_run sample_environment sample_config s [SeederRestarted] (resting p') \<and> tip_at p' Mainnet = Some t'"
proof -
  obtain p where p: "started_process sample_environment sample_config p" using sample_process_started by blast
  define s where "s = (resting p :: (bool, path option, string list, string list, (path \<times> string) list, nat, nat, nat)
    staged_process)"
  obtain p' where "task_step sample_environment sample_config s SeederRestarted (resting p')"
    using sample_restart_stage[OF p s_def] by blast
  note run = run_one[where step = "task_step sample_environment sample_config", OF this]
  obtain t where "tip_at (st_process s) Mainnet = Some t" using sample_mainnet_tip[OF p] by (auto simp: s_def)
  have "task_run sample_environment sample_config (resting p) [] s" by (simp add: s_def)
  from floor_never_falls_between_stages[OF sample_environment_laws p this run \<open>tip_at (st_process s) Mainnet = Some t\<close>]
  obtain t' where "tip_at p' Mainnet = Some t'" by auto
  with p run show ?thesis unfolding s_def by blast
qed

text \<open>C1: Once a network's activation is confirmed, and whatever else happens in between, a client whose
  query arrives after a refresh that began after the confirmation was sent is told only of peers
  at the version it requires: every address record of the response, however late it is sent, is
  that of a peer of a book from which a refresh was computed since, which met every serving
  condition at a floor at or above the newest activation's required version; and there are at
  most 25. A restart at any point does not weaken this.\<close>

theorem current_peers_under_interleaving:
  assumes "environment_laws E" "started_process E config p0" "task_run E config (resting p0) es0 s"
    and "tip_at (st_process s) n = Some t" "is_activation_confirmed t"
    and "task_run E config s (es1 @ RefreshBegan n # es2 @ RefreshSent n # es3 @
      QueryChecked k request True # es4 @ [QueryAnswered k request response]) s'"
    and "rq_queries request = (name, ty) # more_queries" "ty \<in> {RecordA, RecordAAAA}"
    and "matching_zone (en_hickory E) (dh_zones (pr_handler (st_process s'))) name = Some zone" "sz_network zone = n"
  shows "length (rs_answers response) \<le> 25 \<and>
    (\<forall>r \<in> set (rs_answers response). \<exists>v book now. RefreshComputed n v book now \<in> set (es2 @ es3 @ es4) \<and>
       at_required_version (network_target E n) \<le> v \<and>
       (\<exists>m \<in> set (ab_peers (en_book E) book).
          r = peer_record (en_hickory E) name (sz_ttl zone) (ma_addr (en_book E) m) \<and>
          servable (peer_attributes_of (en_zebra E) (en_book E) book m now (to_zebra (en_zebra E) n) v)))"
proof -
  from assms(6) obtain u1 u2 u3 u4 u5 u6 u7 where
    runs: "task_run E config s es1 u1" "task_step E config u1 (RefreshBegan n) u2" "task_run E config u2 es2 u3"
      "task_step E config u3 (RefreshSent n) u4" "task_run E config u4 es3 u5"
      "task_step E config u5 (QueryChecked k request True) u6" "task_run E config u6 es4 u7"
      "task_step E config u7 (QueryAnswered k request response) s'"
    by (auto simp: run_append_iff run_Cons_iff)
  note law = assms(1) and step_inv = task_step_inv[OF assms(1)]
  have inv: "staged_inv E config s" by (rule tasks.run_inv[OF assms(3,1) started_staged_inv[OF assms(1,2)]])
  have inv1: "staged_inv E config u1" by (rule tasks.run_inv[OF runs(1) law inv])
  have inv2: "staged_inv E config u2" by (rule step_inv[OF runs(2) inv1])
  have inv3: "staged_inv E config u3" by (rule tasks.run_inv[OF runs(3) law inv2])
  have inv4: "staged_inv E config u4" by (rule step_inv[OF runs(4) inv3])
  have inv5: "staged_inv E config u5" by (rule tasks.run_inv[OF runs(5) law inv4])
  have inv6: "staged_inv E config u6" by (rule step_inv[OF runs(6) inv5])
  have inv7: "staged_inv E config u7" by (rule tasks.run_inv[OF runs(7) law inv6])
  have "tip_confirmed n s" using assms(4,5) by (simp add: tip_confirmed_def)
  from tips_rise_confirmed[OF tasks.run_rises[OF runs(1) law inv] this]
  have "nears_current E n {} u2" by (rule begun_nears_current[OF law runs(2) inv1])
  from tasks.run_collects[of E config "nears_current E n", OF step_nears_current runs(3) law inv2 this]
  have "serves_current E n (insert (RefreshSent n) (set es2)) u4"
    using step_serves_current[OF law runs(4) inv3] by simp
  from tasks.run_collects[of E config "serves_current E n", OF step_serves_current[OF _ _ _ disjI1] runs(5) law inv4 this]
  have "serves_current E n (insert (RefreshSent n) (set es2) \<union> set es3) u5" .
  from step_serves_current[OF law runs(6) inv5 disjI1[OF this]]
  have "query_current E n k (insert (QueryChecked k request True) (insert (RefreshSent n) (set es2) \<union> set es3)) u6"
    using runs(6) by (auto simp: query_current_def elim!: query_checkedE)
  from tasks.run_collects[of E config "query_current E n k", OF step_query_current runs(7) law inv6 this]
  have "query_current E n k (insert (QueryChecked k request True) (insert (RefreshSent n) (set es2) \<union> set es3) \<union> set es4) u7" .
  moreover have "st_queries u7 k = Some (request, ResponseBuilt response)"
    using runs(8) by (auto elim: query_answeredE)
  ultimately have "current_response E n (insert (QueryChecked k request True) (insert (RefreshSent n) (set es2) \<union> set es3) \<union> set es4)
      (dh_zones (pr_handler (st_process s'))) request response"
    using step_zones[OF law runs(8) inv7] by (simp add: query_current_def)
  with assms(7-10) show ?thesis by (force simp: current_response_def)
qed

theorem current_peers_under_interleaving_witness:
  "\<exists>p q' response name v. started_process sample_environment sample_config p \<and>
     task_run sample_environment sample_config (resting p)
       [RefreshBegan Mainnet, RefreshComputed Mainnet v sample_book 0, RefreshSent Mainnet,
        QueryChecked 0 (sample_request name RecordA) True, QueryResolved 0,
        QueryAnswered 0 (sample_request name RecordA) response] (resting q') \<and>
     (rs_answers response \<noteq> [] \<longrightarrow> at_required_version (network_target sample_environment Mainnet) \<le> v)"
proof -
  let ?E = "sample_environment" and ?c = "sample_config"
  obtain p t where p: "started_process ?E ?c p" and t: "tip_at p Mainnet = Some t" "is_activation_confirmed t"
    using sample_confirmed_start by blast
  from sample_refresh_and_query[OF p] obtain q q' out response zone where zone: "sz_network zone = Mainnet"
    and refresh: "process_step ?E ?c p (CacheRefreshed Mainnet sample_book 0 :: sample_event) q"
    and matching: "matching_zone sample_hickory (dh_zones (pr_handler q)) (sz_domain zone) = Some zone"
    and query: "process_step ?E ?c q (QueryHandled (sample_request (sz_domain zone) RecordA) out :: sample_event) q'"
    and sent: "hd_sent out = Some response"
    by blast
  let ?request = "sample_request (sz_domain zone) RecordA"
  have inv: "process_inv ?E ?c p" by (rule started_inv[OF sample_environment_laws p])
  from t(1) obtain c where c: "pr_crawlers p Mainnet = Some c" by (auto simp: tip_at_def)
  then have running: "ck_running (cr_cache c)" using zone_crawlers_invD[OF inv] by (simp add: crawler_ok_def)
  obtain poisoned where q: "q = refresh_turn ?E Mainnet sample_book poisoned 0 p"
    using refresh by (rule refresh_stepE)
  have "\<exists>v. task_run ?E ?c (resting p) [RefreshBegan Mainnet, RefreshComputed Mainnet v sample_book 0, RefreshSent Mainnet]
      (resting q :: (bool, path option, string list, string list, (path \<times> string) list, nat, nat, nat) staged_process)"
    unfolding q by (rule refresh_run[OF refl c running])
  then obtain v where first: "task_run ?E ?c (resting p)
      [RefreshBegan Mainnet, RefreshComputed Mainnet v sample_book 0, RefreshSent Mainnet]
      (resting q :: (bool, path option, string list, string list, (path \<times> string) list, nat, nat, nat) staged_process)"
    by blast
  obtain send now where "query_turn ?E send now ?request q = (out, q')" using query by (rule query_stepE)
  from run_then[OF first query_run_answered[OF refl this sent]]
  have run: "task_run ?E ?c (resting p) ([] @ RefreshBegan Mainnet # [RefreshComputed Mainnet v sample_book 0] @
      RefreshSent Mainnet # [] @ QueryChecked 0 ?request True # [QueryResolved 0] @ [QueryAnswered 0 ?request response])
      (resting q')" by simp
  have zones: "dh_zones (pr_handler q') = dh_zones (pr_handler q)"
    using step_inv[OF sample_environment_laws refresh inv]
      step_inv[OF sample_environment_laws query step_inv[OF sample_environment_laws refresh inv]]
    by (rule inv_zones_unique)
  have "rs_answers response \<noteq> [] \<longrightarrow> at_required_version (network_target ?E Mainnet) \<le> v"
    using current_peers_under_interleaving[OF sample_environment_laws p run_done _ t(2) run,
        of "sz_domain zone" RecordA "[]" zone] t(1) matching zone
    by (auto simp: sample_request_def sample_environment_def zones neq_Nil_conv)
  with p run[unfolded append_Nil append_Cons] show ?thesis by blast
qed

end
