(* ===== verification/Configured_Process.thy ===== *)
theory Configured_Process
  imports Config_Values Interleaved_Runs
begin

text \<open>
  From the text of a configuration to the running process: what the layered sources can and
  cannot change about the process that \<open>start\<close> runs.
\<close>

section \<open>The limiter of a process\<close>

definition quota_of :: "rate_limit_config \<Rightarrow> quota" where
  "quota_of l = \<lparr>qu_per_second = rl_queries_per_second l, qu_burst = rl_burst_size l\<rparr>"

text \<open>Every query of the process is checked against this quota.\<close>

definition limits_queries ::
  "rate_limit_config \<Rightarrow> ('net, 'cache, 'n, 'l, 'fs, 'r, 'c) process \<Rightarrow> bool" where
  "limits_queries l p \<longleftrightarrow> (\<exists>limiter. dh_rate_limiter (pr_handler p) = Some limiter \<and> rl_quota limiter = quota_of l)"

lemma start_process_limits:
  assumes "start_process z h fs env bu bt bh files r config = Inr p" "sc_rate_limit config = Some l"
  shows "limits_queries l p"
  using assms
  by (auto simp: start_process_def start_limiter_def bind_result_Inr_iff new_rate_limiter_def limits_queries_def
      quota_of_def new_handler_def nonzero_queries_per_second_def nonzero_burst_size_def nonzero_config_value_def
      ok_or_def map_err_def split: if_splits sum.splits)

lemma admit_query_quota:
  assumes "admit_query gv now handler request = (within, l)" "dh_rate_limiter handler = Some limiter"
  shows "\<exists>limiter'. l = Some limiter' \<and> rl_quota limiter' = rl_quota limiter"
  using assms by (auto simp: admit_query_def check_def Let_def split_beta)

lemma task_step_limits:
  assumes step: "task_step E config s e s'" and l: "sc_rate_limit config = Some l" "limits_queries l (st_process s)"
  shows "limits_queries l (st_process s')"
  using step
proof cases
  case (query_admitted k now request limiter)
  with l(2) admit_query_quota[OF query_admitted(4)] show ?thesis
    by (auto simp: limits_queries_def set_limiter_def)
next
  case (query_dropped k now request limiter)
  with l(2) admit_query_quota[OF query_dropped(4)] show ?thesis
    by (auto simp: limits_queries_def set_limiter_def)
next
  case (seeder_restarts r p)
  with start_process_limits[OF seeder_restarts(3) l(1)] show ?thesis by simp
qed (use l(2) in \<open>auto simp: limits_queries_def prune_turn_def prune_pass_def\<close>)

lemma task_run_limits:
  "task_run E config s es s' \<Longrightarrow> sc_rate_limit config = Some l \<Longrightarrow> limits_queries l (st_process s) \<Longrightarrow>
    limits_queries l (st_process s')"
  by (induction rule: step_run.induct) (auto intro: task_step_limits)

section \<open>Properties\<close>

text \<open>C3: Rate limiting cannot be turned off by a configuration file or the environment: when the tree
  that the sources build has no nil for the rate limit, which TOML and variables cannot write,
  a process that \<open>start\<close> runs checks every query against a quota, the one the tree gives or the
  default, of at least one query per second and one in a burst; and it goes on doing so over
  any interleaving of its tasks, crashes and restarts.\<close>

theorem rate_limiting_stays_on:
  assumes "ap_command app = Start" "tm_resolve tm = tree_resolver rd message build"
    and "\<And>v. build (config_sources (ap_config app)) = Inr v \<Longrightarrow>
      \<exists>t. vr_struct rd v = Inr (MapAccess t) \<and> map_of t ''rate_limit'' \<noteq> Some NilValue"
    and "run_app z h fs env tm files r app = (Running p, files')"
  shows "\<exists>config l. load_with_env h (tm_resolve tm) (ap_config app) = Inr config \<and> sc_rate_limit config = Some l \<and>
    rl_queries_per_second l \<noteq> 0 \<and> rl_burst_size l \<noteq> 0 \<and>
    (\<forall>E es s. task_run E config (resting p) es s \<longrightarrow> limits_queries l (st_process s))"
proof -
  from assms(1,4) obtain config where load: "load_with_env h (tm_resolve tm) (ap_config app) = Inr config"
    and start: "start_process z h fs env (tm_bind_udp tm) (tm_bind_tcp tm) (tm_bind_health tm) files r config = Inr p"
    by (auto simp: run_app_def start_command_def run_seeder_def map_err_def bind_result_Inr_iff
        split: sum.splits progress.splits option.splits)
  from load obtain v where build: "build (config_sources (ap_config app)) = Inr v"
    and read: "deserialize_config rd v = Inr config" and valid: "validate_config h config = Inr ()"
    by (auto simp: load_with_env_def assms(2) tree_resolver_def bind_result_Inr_iff map_err_Inr_iff)
  from assms(3)[OF build] obtain t where t: "vr_struct rd v = Inr (MapAccess t)" "map_of t ''rate_limit'' \<noteq> Some NilValue"
    by blast
  from config_section(5)[OF read t(1)] t(2) obtain l where l: "sc_rate_limit config = Some l"
    by (auto simp: read_option_Inr_iff split: option.splits)
  have "rl_queries_per_second l \<noteq> 0 \<and> rl_burst_size l \<noteq> 0"
    using valid l by (auto simp: validate_config_def bind_result_Inr_iff validate_rate_limit_Inr_iff)
  moreover have "limits_queries l (st_process s)" if "task_run E config (resting p) es s" for E es s
    by (rule task_run_limits[OF that l]) (simp add: start_process_limits[OF start l])
  ultimately show ?thesis using load l by blast
qed

text \<open>The sample configuration, read from the tree it is written as, and the process \<open>start\<close> runs.\<close>

definition tree_terminal :: "(string, unit, unit, unit) terminal" where
  "tree_terminal = sample_terminal\<lparr>tm_resolve :=
     tree_resolver (sample_reader (shown config_sample_addrs)) (\<lambda>_. ''invalid'') (\<lambda>_. Inr (serialize_config sample_config))\<rparr>"

definition start_app :: seeder_app where
  "start_app = \<lparr>ap_config = None, ap_command = Start\<rparr>"

theorem rate_limiting_stays_on_witness:
  "\<exists>p l. fst (run_app pinned_zebra sample_hickory sample_files sample_build tree_terminal [] (0 :: nat) start_app ::
       (string list command_error, (bool, path option, string list, string list, (path \<times> string) list, nat, nat) process)
         progress \<times> _) = Running p \<and>
     (\<forall>es s. task_run sample_environment sample_config
        (resting p :: (bool, path option, string list, string list, (path \<times> string) list, nat, nat, nat) staged_process) es s \<longrightarrow>
        limits_queries l (st_process s))"
proof -
  let ?rd = "sample_reader (shown config_sample_addrs)" and ?v = "serialize_config sample_config"
  have laws: "reader_laws ?rd (set config_sample_addrs)" by (rule sample_reader_laws) (rule config_sample_addrs_shown)
  have "config_addrs sample_config \<subseteq> set config_sample_addrs"
    by (auto simp: config_addrs_def sample_config_def seeder_config_default_def config_sample_addrs_def)
  with laws have "reader_laws ?rd (config_addrs sample_config)" by (auto simp: reader_laws_def)
  from read_back_config[OF this] have load: "load_with_env sample_hickory (tm_resolve tree_terminal) None = Inr sample_config"
    by (simp add: load_with_env_def tree_terminal_def tree_resolver_def map_err_def sample_config_valid)
  obtain p where "sample_start_process = Inr p" using sample_process_starts by blast
  with load have run: "(run_app pinned_zebra sample_hickory sample_files sample_build tree_terminal [] (0 :: nat) start_app ::
      (string list command_error, (bool, path option, string list, string list, (path \<times> string) list, nat, nat) process)
        progress \<times> _) = (Running p, [])"
    by (simp add: run_app_def start_app_def start_command_def run_seeder_def log_filter_from_env_def map_err_def
        tree_terminal_def sample_terminal_def select_exit_def sample_config_def seeder_config_default_def)
  have tree: "\<exists>t. vr_struct ?rd v = Inr (MapAccess t) \<and> map_of t ''rate_limit'' \<noteq> Some NilValue"
    if "(\<lambda>_ :: config_source list. Inr ?v :: string + config_value) (config_sources (ap_config start_app)) = Inr v" for v
    using that laws
    by (auto simp: serialize_config_def reader_laws_def serialize_option_def serialize_rate_limit_def sample_config_def
        seeder_config_default_def)
  have "tm_resolve tree_terminal = tree_resolver ?rd (\<lambda>_. ''invalid'') (\<lambda>_. Inr ?v)" "ap_command start_app = Start"
    by (simp_all add: tree_terminal_def start_app_def)
  from rate_limiting_stays_on[OF this(2,1) tree run] load obtain l where
    "\<forall>es s. task_run sample_environment sample_config
      (resting p :: (bool, path option, string list, string list, (path \<times> string) list, nat, nat, nat) staged_process) es s \<longrightarrow>
      limits_queries l (st_process s)"
    by (auto simp: start_app_def)
  with run show ?thesis by (metis fst_conv)
qed

end
