(* ===== verification/Readiness_Runs.thy ===== *)
theory Readiness_Runs
  imports Interleaved_Runs
begin

text \<open>
  What the readiness endpoint of \<open>src/health.rs\<close> reports while the process of \<open>src/seeder.rs\<close> runs:
  the zones it watches and its threshold are those of the configuration, and the numbers are
  those of the snapshots that the cache tasks of \<open>src/crawl/address_cache.rs\<close> last published.
\<close>

section \<open>What the endpoint watches\<close>

text \<open>Every configured network, in order, each by the receiver of its own cache, and the configured threshold.\<close>

definition health_watches :: "seeder_config \<Rightarrow> ('net, 'cache, 'n, 'l, 'fs, 'r, 'c) process \<Rightarrow> bool" where
  "health_watches config p \<longleftrightarrow>
     pr_health p = map_option (\<lambda>hc. (map (\<lambda>(n, zone). (n, n)) (btree_iter (sc_zones config)), hc_ready_threshold hc))
       (sc_health config)"

lemma zone_from_readiness:
  "list_all2 (zone_from h) nzs szs \<Longrightarrow> map readiness szs = map (\<lambda>(n, zone). (n, n)) nzs"
  by (induction rule: list_all2_induct)
    (auto simp: zone_from_def new_seed_zone_Inr_iff zone_of_texts_def readiness_def)

lemma start_watches:
  assumes "start_process z h fs env bu bt bh files r config = Inr p"
  shows "health_watches config p"
  using assms
  by (auto simp: start_process_def bind_result_Inr_iff spawn_loop_Inr start_health_def health_watches_def
      zone_from_readiness split: option.splits)

lemma turns_watch [simp]:
  "pr_health (refresh_turn E n book poisoned now p) = pr_health p" "pr_health (observer_turn E n i p) = pr_health p"
  "pr_health (prune_turn E clock p) = pr_health p" "pr_health (set_limiter l p) = pr_health p"
  by (cases "pr_crawlers p n"; simp add: refresh_turn_def observer_turn_def prune_turn_def set_limiter_def
      split_beta Let_def)+

lemma stage_watches:
  assumes "task_step E config s e s'" "health_watches config (st_process s)"
  shows "health_watches config (st_process s')"
  using assms(1)
proof cases
  case (seeder_restarts r p)
  then show ?thesis by (simp add: start_watches)
qed (use assms(2) in \<open>simp_all add: health_watches_def\<close>)

lemma pass_watches:
  assumes "process_step E config p e p'" "health_watches config p"
  shows "health_watches config p'"
  using assms(1)
proof cases
  case (query_step send now request out)
  with assms(2) show ?thesis by (auto simp: query_turn_def health_watches_def Let_def)
next
  case (restart_step r)
  then show ?thesis by (rule_tac start_watches)
qed (use assms(2) in \<open>simp_all add: health_watches_def\<close>)

lemma pass_run_watches:
  "process_run E config p es p' \<Longrightarrow> health_watches config p \<Longrightarrow> health_watches config p'"
  by (induction rule: process_run.induct) (auto intro: pass_watches)

interpretation watched: labelled_machine "task_step E config" True "\<lambda>s. health_watches config (st_process s)" "\<lambda>_ _. True"
  for E :: "('net, 'cache, 'n, 'l, 'fs, 'r, 'book, 'meta, 'time, 'c) environment" and config
  by unfold_locales (rule stage_watches TrueI; assumption)+

lemma started_watches: "started_process E config p \<Longrightarrow> health_watches config p"
  by (auto simp: started_process_def intro: start_watches)

text \<open>What the response says of a zone it watches.\<close>

lemma readiness_reports:
  assumes "health_watches config p" "pr_health p = Some (zones, threshold)" "n \<in> dom (sc_zones config)"
  shows "(n, n) \<in> set zones \<and> (\<exists>hc. sc_health config = Some hc \<and> threshold = hc_ready_threshold hc)"
proof -
  from assms(1,2) obtain hc where hc: "sc_health config = Some hc" "threshold = hc_ready_threshold hc"
    and zones: "zones = map (\<lambda>(n, zone). (n, n)) (btree_iter (sc_zones config))"
    by (cases "sc_health config") (auto simp: health_watches_def)
  from assms(3) obtain zone where "(n, zone) \<in> set (btree_iter (sc_zones config))" by (auto simp: mem_btree_iter)
  with hc show ?thesis by (force simp: zones)
qed

lemma report_line:
  assumes "z \<in> set zones"
  shows "\<exists>before after. readiness_response borrow zones th = before @ zone_line borrow th z @ after"
proof -
  from split_list[OF assms] obtain zs zs' where "zones = zs @ z # zs'" by blast
  then have "concat (map (zone_line borrow th) zones) =
      concat (map (zone_line borrow th) zs) @ zone_line borrow th z @ concat (map (zone_line borrow th) zs')"
    by simp
  then show ?thesis
    unfolding readiness_response_eq http_response_def by (metis append_assoc)
qed

section \<open>Properties\<close>

text \<open>C15: Readiness counts the addresses that are served, at most 25 of each family, and not the servable
  peers the crawler knows: with a configured threshold above 50 the process is never ready.
  Whatever stages of whatever tasks interleave, whatever books are read and however often the
  process restarts, every response of the readiness endpoint is a 503.\<close>

theorem threshold_above_cap_never_ready:
  assumes "environment_laws E" "started_process E config p0" "task_run E config (resting p0) es s"
    and "sc_zones config n = Some zone" "sc_health config = Some hc" "50 < unat (hc_ready_threshold hc)"
    and "ReadinessAsked response \<in> set es"
  shows "take 12 response = ''HTTP/1.1 503''"
proof -
  from split_list[OF assms(7)] obtain xs ys where "es = xs @ ReadinessAsked response # ys" by blast
  with assms(3) obtain u u' where
    run: "task_run E config (resting p0) xs u" and asked: "task_step E config u (ReadinessAsked response) u'"
    by (auto simp: run_append_iff run_Cons_iff)
  have inv: "process_inv E config (st_process u)"
    using tasks.run_inv[OF run assms(1) started_staged_inv[OF assms(1,2)]] by (simp add: staged_inv_def)
  have watches: "health_watches config (st_process u)"
    using watched.run_inv[OF run] started_watches[OF assms(2)] by simp
  from asked obtain zones threshold where health: "pr_health (st_process u) = Some (zones, threshold)"
    and response: "response = readiness_response (crawler_snapshot (st_process u)) zones threshold"
    by cases
  from readiness_reports[OF watches health, of n] assms(4,5) have "(n, n) \<in> set zones" "threshold = hc_ready_threshold hc"
    by auto
  moreover have "total (crawler_snapshot (st_process u) n) \<le> 50"
    by (rule plain_snapshot.total_le[OF inv_snapshot[OF inv]])
  ultimately have "\<not> list_all (\<lambda>z. unat threshold \<le> total (crawler_snapshot (st_process u) (snd z))) zones"
    using assms(6) by (force simp: list_all_iff)
  then show ?thesis by (simp add: response readiness_status)
qed

text \<open>The sample configuration with a threshold of sixty, which the validation accepts and which starts.\<close>

definition demanding_config :: seeder_config where
  "demanding_config = sample_config\<lparr>sc_health := Some (health_config_default\<lparr>hc_ready_threshold := 60\<rparr>)\<rparr>"

lemma start_with_health:
  assumes "start_process z h fs env bu bt bh files r config = (Inr p :: 'l run_error + ('net, 'cache, 'n, 'l, 'fs, 'r, 'c) process)"
    and "bh (hc_endpoint_addr hc) = Inr listener"
  shows "\<exists>p'. start_process z h fs env bu bt bh files r (config\<lparr>sc_health := Some hc\<rparr>) =
    (Inr p' :: 'l run_error + ('net, 'cache, 'n, 'l, 'fs, 'r, 'c) process)"
proof -
  have "start_limiter (config\<lparr>sc_health := Some hc\<rparr>) = (start_limiter config :: 'l run_error + 'c rate_limiter option)"
    by (simp add: start_limiter_def)
  with assms show ?thesis
    by (auto simp: start_process_def bind_result_Inr_iff start_health_def bind_health_def map_err_def)
qed

theorem threshold_above_cap_never_ready_witness:
  "\<exists>p response. started_process sample_environment demanding_config p \<and>
     task_run sample_environment demanding_config (resting p) [ReadinessAsked response] (resting p) \<and>
     validate_config sample_hickory demanding_config = Inr () \<and>
     take 12 response = ''HTTP/1.1 503''"
proof -
  obtain p0 where "sample_start_process = Inr p0" using sample_process_starts by blast
  from start_with_health[OF this, where hc = "health_config_default\<lparr>hc_ready_threshold := 60\<rparr>"]
  obtain p where p: "started_process sample_environment demanding_config p"
    by (auto simp: started_process_def sample_environment_def demanding_config_def)
  from started_watches[OF p] obtain zones where "pr_health p = Some (zones, 60)"
    by (auto simp: health_watches_def demanding_config_def)
  then have "task_step sample_environment demanding_config (resting p)
      (ReadinessAsked (readiness_response (crawler_snapshot p) zones 60)) (resting p)"
    using readiness_asked[of "resting p" zones 60 sample_environment demanding_config] by simp
  note run = run_one[where step = "task_step sample_environment demanding_config", OF this]
  have "sc_zones demanding_config Mainnet = Some (sample_zone Mainnet)"
    "sc_health demanding_config = Some (health_config_default\<lparr>hc_ready_threshold := 60\<rparr>)"
    by (simp_all add: demanding_config_def sample_config_def)
  from threshold_above_cap_never_ready[OF sample_environment_laws p run this]
  have "take 12 (readiness_response (crawler_snapshot p) zones 60) = ''HTTP/1.1 503''" by simp
  moreover have "validate_config sample_hickory demanding_config = Inr ()"
    using sample_config_valid by (simp add: validate_config_def demanding_config_def)
  ultimately show ?thesis using p run by blast
qed

text \<open>C5: The readiness endpoint reports what the last refresh found: once a network's cache task has
  refreshed from an address book, every readiness response until its next refresh or a restart
  has a line for that network with the number of the book's peers that met every serving
  condition then, at the floor the tip stood at, each family counted up to 25; the line's
  verdict compares that number with the configured threshold, and no response is a 200 when it
  is below.\<close>

theorem readiness_reports_last_refresh:
  assumes "environment_laws E" "started_process E config p0" "process_run E config p0 es p"
    and "process_step E config p (CacheRefreshed n book now) q"
    and "process_run E config q es' q'" "list_all (keeps_snapshot n) es'"
    and "process_step E config q' (HealthProbed response) q''"
    and "tip_at p n = Some t" "sc_health config = Some hc"
    and "servable_count = (\<lambda>v4. length (filter (\<lambda>m. servable (peer_attributes_of (en_zebra E) (en_book E) book m now
        (to_zebra (en_zebra E) n) (protocol_floor (en_zebra E) (to_zebra (en_zebra E) n) t)) \<and>
        is_ipv4 (sa_ip (ma_addr (en_book E) m)) = v4) (ab_peers (en_book E) book)))"
    and "reported = min 25 (servable_count True) + min 25 (servable_count False)"
  shows "(\<exists>before after. response = before @ network_label n @ '': '' @ show_nat reported @ '' servable peers ('' @
      (if unat (hc_ready_threshold hc) \<le> reported then ''ready'' else ''not ready'') @ '')'' @ newline @ after) \<and>
    (take 12 response = ''HTTP/1.1 200'' \<longrightarrow> unat (hc_ready_threshold hc) \<le> reported)"
proof -
  let ?v = "protocol_floor (en_zebra E) (to_zebra (en_zebra E) n) t"
  let ?p = "crawler_snapshot q' n"
  have inv: "process_inv E config p" by (rule process_run_inv[OF assms(1,3) started_inv[OF assms(1,2)]])
  from assms(8) obtain c where c: "pr_crawlers p n = Some c" "t = ob_tip (cr_observer c)" by (auto simp: tip_at_def)
  obtain poisoned where "q = refresh_turn E n book poisoned now p" using assms(4) by (rule refresh_stepE)
  with refresh_turn_serves[OF assms(1) inv c(1), of book now poisoned] run_keeps_snapshot[OF assms(5,6)]
  have served: "served_from (en_zebra E) (en_book E) book now (to_zebra (en_zebra E) n) ?v
      (at_required_version (network_target E n)) ?p"
    by (simp add: c(2))
  have total: "total ?p = reported"
    using served_from_total[OF served] assms(10,11) by (simp add: admitted_of_family_def classify_peer_servable)
  have "health_watches config q'"
    using pass_run_watches[OF assms(3) started_watches[OF assms(2)]] pass_watches[OF assms(4)]
      pass_run_watches[OF assms(5)] by blast
  moreover obtain zones threshold where health: "pr_health q' = Some (zones, threshold)"
    and response: "response = readiness_response (crawler_snapshot q') zones threshold"
    using assms(7) by cases auto
  moreover have "n \<in> dom (sc_zones config)" using inv c(1) by (auto simp: process_inv_def)
  ultimately have zone: "(n, n) \<in> set zones" and th: "threshold = hc_ready_threshold hc"
    using readiness_reports assms(9) by fastforce+
  from report_line[OF zone, of "crawler_snapshot q'" threshold] have "\<exists>before after. response = before @
      zone_line (crawler_snapshot q') threshold (n, n) @ after" by (simp add: response)
  moreover have "take 12 response = ''HTTP/1.1 200'' \<longrightarrow> unat threshold \<le> reported"
    using zone by (auto simp: response readiness_status list_all_iff total)
  ultimately show ?thesis by (simp add: zone_line_def total th)
qed

theorem readiness_reports_last_refresh_witness:
  "\<exists>p q response before after. started_process sample_environment sample_config p \<and>
     process_step sample_environment sample_config p (CacheRefreshed Mainnet sample_book 0 :: sample_event) q \<and>
     process_step sample_environment sample_config q (HealthProbed response :: sample_event) q \<and>
     response = before @ ''mainnet: 3 servable peers (ready)'' @ newline @ after"
proof -
  let ?E = "sample_environment" and ?c = "sample_config" and ?target = "latest_target pinned_zebra False"
  obtain p where start: "sample_start_process = Inr p" using sample_process_starts by blast
  then have p: "started_process ?E ?c p" by (auto simp: started_process_def sample_environment_def)
  have "Mainnet \<in> dom (sc_zones ?c)" by (simp add: sample_config_def)
  from start_process_tip[OF start this] have tip: "tip_at p Mainnet = Some (new_tip ?target False)"
    by (simp add: pinned_zebra_simps load_confirmation_def sample_files_def split: option.split)
  define q where "q = refresh_turn ?E Mainnet sample_book False 0 p"
  have refresh: "process_step ?E ?c p (CacheRefreshed Mainnet sample_book 0 :: sample_event) q"
    unfolding q_def by (rule refresh_step)
  from started_watches[OF p] obtain zones where "pr_health q = Some (zones, 1)"
    by (auto simp: health_watches_def q_def sample_config_def health_config_default_def)
  from health_step[where E = ?E and config = ?c, OF this] obtain response
    where probe: "process_step ?E ?c q (HealthProbed response :: sample_event) q" by blast
  have "protocol_floor pinned_zebra False (new_tip ?target False) = 170160"
    by (simp add: protocol_floor_def best_tip_height_def new_tip_def latest_target_def pinned_zebra_simps)
  then have "(\<lambda>v4. length (filter (\<lambda>m. servable (peer_attributes_of (en_zebra ?E) (en_book ?E) sample_book m 0
        (to_zebra (en_zebra ?E) Mainnet) (protocol_floor (en_zebra ?E) (to_zebra (en_zebra ?E) Mainnet) (new_tip ?target False))) \<and>
        is_ipv4 (sa_ip (ma_addr (en_book ?E) m)) = v4) (ab_peers (en_book ?E) sample_book))) = (\<lambda>v4. if v4 then 2 else 1)"
    by (intro ext) (simp add: sample_environment_def sample_book_defs servable_unfold routable_def pinned_zebra_simps)
  from readiness_reports_last_refresh[OF sample_environment_laws p run_nil refresh run_nil _ probe tip _ this[symmetric] refl]
  obtain before after where "response = before @ network_label Mainnet @ '': '' @ show_nat 3 @ '' servable peers ('' @
      ''ready'' @ '')'' @ newline @ after"
    by (auto simp: sample_config_def health_config_default_def)
  moreover have "show_nat 3 = ''3''" by code_simp
  ultimately have "response = before @ ''mainnet: 3 servable peers (ready)'' @ newline @ after" by simp
  with p refresh probe show ?thesis by blast
qed

end
