(* ===== verification/Sweep_Quorum.thy ===== *)
theory Sweep_Quorum
  imports Activation_Observer
begin

text \<open>
  What \<open>network_group\<close> is for in \<open>src/crawl/activation.rs\<close>: it limits the weight of addresses that
  one party can come by in any number. A sweep counts a network group once, so peers that lie
  about the activation from few groups cannot reach the quorum of \<open>observe\<close>.
\<close>

section \<open>Groups that can vote\<close>

text \<open>
  The addresses a sweep of some input draws from, and those of them at which the handshake would
  show the activation, truthfully or not.
\<close>

definition sweep_candidates ::
  "('net, 'cache) zebra \<Rightarrow> ('book, 'meta, 'net, 'time) book_api \<Rightarrow> zcash_network \<Rightarrow> activation_target
    \<Rightarrow> ('book, 'time, 'net) sweep_input \<Rightarrow> peer_addr list" where
  "sweep_candidates z api network target i =
     map (ma_addr api) (filter (\<lambda>m. servable (peer_attributes_of z api (si_book i) m (si_now i) (to_zebra z network)
       (zb_min_remote_for_height z (to_zebra z network) (Some (at_pre_activation_height target)))))
       (ab_peers api (si_book i)))"

definition activation_shown ::
  "('net, 'cache) zebra \<Rightarrow> ('book, 'meta, 'net, 'time) book_api \<Rightarrow> zcash_network \<Rightarrow> string \<Rightarrow> activation_target
    \<Rightarrow> ('book, 'time, 'net) sweep_input \<Rightarrow> peer_addr list" where
  "activation_shown z api network ua target i =
     filter (confirms_activation z (si_world i) (to_zebra z network) ua target) (sweep_candidates z api network target i)"

lemma sweep_sample_candidates:
  assumes "is_shuffle sh" "yields_values iv"
  shows "group_sample (sweep_candidates z api network target i)
    (fst (sweep_sample z api sh iv network target r i))"
proof -
  have "filter (\<lambda>m. is_ok (classify_peer z api (si_book i) m (si_now i) (to_zebra z network) v)) ms =
      filter (\<lambda>m. servable (peer_attributes_of z api (si_book i) m (si_now i) (to_zebra z network) v)) ms" for v ms
    by (rule filter_cong) (simp_all add: classify_peer_def result_simps classify_Inr_iff)
  then show ?thesis
    using candidates_sample[OF assms, of "sweep_candidates z api network target i" r]
    by (simp add: sweep_sample_def sample_network_groups_def sweep_candidates_def Let_def)
qed

text \<open>However many of the sampled peers satisfy something, no group has two of them.\<close>

lemma sampled_per_group:
  assumes "group_sample addrs out" "\<And>a. P a \<Longrightarrow> Q a"
  shows "length (filter P out) \<le> card (group_of ` set (filter Q addrs))"
proof -
  from assms(1) have out: "distinct (map group_of out)" "set out \<subseteq> set addrs" by (simp_all add: group_sample_def)
  from distinct_map_filter[OF out(1)] have "length (filter P out) = card (group_of ` set (filter P out))"
    by (metis distinct_card length_map list.set_map)
  also have "\<dots> \<le> card (group_of ` set (filter Q addrs))"
    using out(2) assms(2) by (intro card_mono) auto
  finally show ?thesis .
qed

lemma few_groups_not_convincing:
  assumes "group_sample addrs out"
    and "4 * card (group_of ` set (filter (confirms_activation z w network ua target) addrs)) <
      3 * max 12 (min 64 (card (group_of ` set addrs)))"
  shows "\<not> convincing z network ua target (out, w)"
proof
  assume "convincing z network ua target (out, w)"
  then have "12 \<le> length out"
    and "3 * length out \<le> 4 * length (filter (\<lambda>a. pw_crash w a = None \<and> confirms_activation z w network ua target a) out)"
    by (simp_all add: convincing_def)
  moreover have "length (filter (\<lambda>a. pw_crash w a = None \<and> confirms_activation z w network ua target a) out) \<le>
      card (group_of ` set (filter (confirms_activation z w network ua target) addrs))"
    by (rule sampled_per_group[OF assms(1)]) simp
  moreover have "length out = min 64 (card (group_of ` set addrs))" using assms(1) by (simp add: group_sample_def)
  ultimately show False using assms(2) by simp
qed

section \<open>Passes that cannot confirm\<close>

definition outnumbered ::
  "('net, 'cache) zebra \<Rightarrow> ('book, 'meta, 'net, 'time) book_api \<Rightarrow> zcash_network \<Rightarrow> string \<Rightarrow> activation_target
    \<Rightarrow> ('book, 'time, 'net) sweep_input \<Rightarrow> bool" where
  "outnumbered z api network ua target i \<longleftrightarrow>
     4 * card (group_of ` set (activation_shown z api network ua target i)) <
       3 * max 12 (min 64 (card (group_of ` set (sweep_candidates z api network target i))))"

lemma outnumbered_pass:
  assumes laws: "observer_laws sh iv fs" and world: "completes_all (si_world i)"
    and "outnumbered z api network ua target i" and running: "ob_running ob"
  shows "\<exists>gate r. snd (observer_pass z api sh iv fs network ua target path ob i) = ob\<lparr>ob_gate := gate, ob_rng := r\<rparr>"
proof -
  let ?x = "(fst (sweep_sample z api sh iv network target (ob_rng ob) i), si_world i)"
  let ?e = "pass_evidence z network ua target ?x"
  from laws have shuffle: "is_shuffle sh" "yields_values iv" by (simp_all add: observer_laws_def)
  have well: "sampled_well ?x" by (rule sweep_sample_well[OF shuffle world])
  have "\<not> convincing z (to_zebra z network) ua target ?x"
    using few_groups_not_convincing[OF sweep_sample_candidates[OF shuffle]] assms(3)
    by (simp add: outnumbered_def activation_shown_def)
  then have "\<not> qualifies ?e" unfolding qualifies_convincing[OF well] .
  then have "\<not> fst (observe (ob_gate ob) ?e)"
    by (simp add: observe_exact[OF pass_evidence_exact[OF well]])
  then show ?thesis
    unfolding observer_pass_running[OF running] Let_def by auto
qed

text \<open>A task that still observes, with the tip and the files it was started with.\<close>

definition observing :: "seeder_chain_tip \<Rightarrow> 'fs \<Rightarrow> ('fs, 'r) observer \<Rightarrow> bool" where
  "observing tip files ob \<longleftrightarrow> ob_running ob \<and> ob_tip ob = tip \<and> ob_files ob = files"

interpretation outvoted: safe_machine
  "\<lambda>ob i. snd (observer_pass z api sh iv fs network ua target path ob i)"
  "\<lambda>i. observer_laws sh iv fs \<and> completes_all (si_world i) \<and> outnumbered z api network ua target i"
  "observing tip files"
  for z :: "('net, 'cache) zebra" and api :: "('book, 'meta, 'net, 'time) book_api"
    and sh :: "('r, peer_addr) shuffler" and iv and fs :: "'fs file_system"
    and network ua target path tip and files :: 'fs
proof
  fix ob :: "('fs, 'r) observer" and i :: "('book, 'time, 'net) sweep_input"
  assume "observing tip files ob"
    and "observer_laws sh iv fs \<and> completes_all (si_world i) \<and> outnumbered z api network ua target i"
  with outnumbered_pass[of sh iv fs i z api network ua target ob path]
  show "observing tip files (snd (observer_pass z api sh iv fs network ua target path ob i))"
    by (auto simp: observing_def)
qed

section \<open>Properties\<close>

text \<open>C8: Few network groups cannot raise the floor: as long as in every sweep the admitted peers that
  show the activation, truthfully or not and however many they are, lie in fewer than three
  quarters of the network groups of all admitted peers, counting at least twelve groups and at
  most sixty-four, an observer never confirms: over any run its tip stays where it was, it
  writes no record and goes on observing. In particular peers of eight groups can never
  confirm an activation alone.\<close>

theorem few_groups_never_confirm:
  assumes "observer_laws sh iv fs" and "list_all (\<lambda>i. completes_all (si_world i)) is"
    and "\<not> is_activation_confirmed tip"
    and "list_all (\<lambda>i. 4 * card (group_of ` set (activation_shown z api network ua target i)) <
      3 * max 12 (min 64 (card (group_of ` set (sweep_candidates z api network target i))))) is"
  shows "let ob = observer_run z api sh iv fs network ua target path (snd (start_observer network tip files r)) is
    in ob_tip ob = tip \<and> \<not> is_activation_confirmed (ob_tip ob) \<and> ob_files ob = files \<and> ob_running ob"
proof -
  have "observing tip files (snd (start_observer network tip files r))"
    using assms(3) by (simp add: observing_def)
  moreover have "list_all (\<lambda>i. observer_laws sh iv fs \<and> completes_all (si_world i) \<and>
      outnumbered z api network ua target i) is"
    using assms(1,2,4) by (simp add: list_all_iff outnumbered_def)
  ultimately have "observing tip files
      (observer_run z api sh iv fs network ua target path (snd (start_observer network tip files r)) is)"
    unfolding observer_run_def by (rule outvoted.run_inv)
  with assms(3) show ?thesis by (simp add: observing_def Let_def)
qed

text \<open>Twelve addresses of one group, all of which show the activation, met by three passes.\<close>

definition crowded_pass :: "(sample_meta list, nat, bool) sweep_input" where
  "crowded_pass = \<lparr>si_book = map (\<lambda>n. (mk_addr (V4 (Ipv4Addr 20 20 n 9)) 8233, Some 170160, True, 0))
     [20, 21, 22, 23, 24, 25, 26, 27, 28, 29, 30, 31], si_now = 0, si_world = sample_world\<rparr>"

theorem few_groups_never_confirm_witness:
  "\<not> is_activation_confirmed (ob_tip (observer_run pinned_zebra sample_book_api keep_order (map snd) sample_files
     Mainnet ''/zeeder/'' sample_target (Some [''c'']) sample_start [crowded_pass, crowded_pass, crowded_pass]))"
proof -
  have worlds: "list_all (\<lambda>i. completes_all (si_world i)) [crowded_pass, crowded_pass, crowded_pass]"
    by (simp add: crowded_pass_def sample_world_completes)
  have "group_of ` set (sweep_candidates pinned_zebra sample_book_api Mainnet sample_target crowded_pass) \<subseteq>
      {Ipv4Group [20, 20]}"
    by (auto simp: sweep_candidates_def crowded_pass_def sample_book_simps)
  then have "group_of ` set (activation_shown pinned_zebra sample_book_api Mainnet ''/zeeder/'' sample_target crowded_pass) \<subseteq>
      {Ipv4Group [20, 20]}"
    by (auto simp: activation_shown_def)
  from card_mono[OF _ this] have "4 * card (group_of ` set (activation_shown pinned_zebra sample_book_api Mainnet
      ''/zeeder/'' sample_target crowded_pass)) < 36" by simp
  also have "36 \<le> 3 * max 12 (min 64 (card (group_of ` set (sweep_candidates pinned_zebra sample_book_api Mainnet
      sample_target crowded_pass))))" by simp
  finally have few: "list_all (\<lambda>i. 4 * card (group_of ` set (activation_shown pinned_zebra sample_book_api Mainnet
      ''/zeeder/'' sample_target i)) < 3 * max 12 (min 64 (card (group_of ` set (sweep_candidates pinned_zebra
      sample_book_api Mainnet sample_target i))))) [crowded_pass, crowded_pass, crowded_pass]"
    by (simp only: list.pred_inject simp_thms)
  from few_groups_never_confirm[OF keep_order_laws worlds sample_new_tip few, of "Some [''c'']" "[]" 0]
  show ?thesis unfolding sample_start_def[symmetric] Let_def by blast
qed

end
