(* ===== verification/Sweep_Schedule.thy ===== *)
theory Sweep_Schedule
  imports Activation_Observer
begin

text \<open>
  When the observer of \<open>src/crawl/activation.rs\<close> sweeps: the interval that \<open>spawn\<close> ticks on and
  the time its passes take. Zebra's peers refuse a second connection from one address within
  the reconnection delay, so what matters is how far apart two sweeps can reach one peer.
\<close>

section \<open>The interval\<close>

text \<open>
  \<open>tokio::time::interval\<close> is a parameter: from the period, the time it was made and the time of
  a tick it gives the deadline of the next one. The first tick is due at once. With
  \<open>MissedTickBehavior::Skip\<close> tokio documents that a next tick is due at the next multiple of the
  period from the start, however late the last one came.
\<close>

type_synonym instant = nat

type_synonym tick_interval = "duration \<Rightarrow> instant \<Rightarrow> instant \<Rightarrow> instant"

definition skips_missed_ticks :: "tick_interval \<Rightarrow> bool" where
  "skips_missed_ticks next_tick \<longleftrightarrow> (\<forall>period start k now. 0 < period \<longrightarrow>
     start + k * period \<le> now \<and> now < start + Suc k * period \<longrightarrow>
     next_tick period start now = start + Suc k * period)"

section \<open>How long a pass takes\<close>

text \<open>
  A probe lasts as long as its attempt, at most the observation timeout; all probes of a sweep
  run at once.
\<close>

definition probe_time ::
  "('net, 'cache) zebra \<Rightarrow> 'net probe_world \<Rightarrow> 'net \<Rightarrow> string \<Rightarrow> peer_addr \<Rightarrow> duration" where
  "probe_time z w network user_agent addr =
     (case pw_connect w network addr user_agent of
        None \<Rightarrow> OBSERVATION_TIMEOUT z
      | Some (elapsed, _) \<Rightarrow> min elapsed (OBSERVATION_TIMEOUT z))"

definition sweep_time ::
  "('net, 'cache) zebra \<Rightarrow> 'net probe_world \<Rightarrow> 'net \<Rightarrow> string \<Rightarrow> peer_addr list \<Rightarrow> duration" where
  "sweep_time z w network user_agent sampled_peers =
     fold max (map (probe_time z w network user_agent) sampled_peers) 0"

text \<open>
  A pass with its timing: how long after it was due and the task was ready its tick came, the
  peers it probed and the world they met, and the time it spent on everything else.
\<close>

record 'net timed_pass =
  tp_late :: duration
  tp_sampled :: "peer_addr list"
  tp_world :: "'net probe_world"
  tp_overhead :: duration

definition pass_time :: "('net, 'cache) zebra \<Rightarrow> 'net \<Rightarrow> string \<Rightarrow> 'net timed_pass \<Rightarrow> duration" where
  "pass_time z network user_agent p =
     sweep_time z (tp_world p) network user_agent (tp_sampled p) + tp_overhead p"

text \<open>
  The times at which the sweeps start: the task waits for its tick, which comes when it is due
  or, when the task comes to it later, at once.
\<close>

fun sweep_starts ::
  "tick_interval \<Rightarrow> ('net, 'cache) zebra \<Rightarrow> 'net \<Rightarrow> string \<Rightarrow> duration \<Rightarrow> instant \<Rightarrow> instant \<Rightarrow> instant
    \<Rightarrow> 'net timed_pass list \<Rightarrow> instant list" where
  "sweep_starts next_tick z network user_agent period start due now [] = []"
| "sweep_starts next_tick z network user_agent period start due now (p # ps) =
     (let tick = max due now + tp_late p
      in tick # sweep_starts next_tick z network user_agent period start (next_tick period start tick)
                  (tick + pass_time z network user_agent p) ps)"

text \<open>The loop of \<open>spawn\<close>: the interval is made when the task starts.\<close>

definition observer_schedule ::
  "tick_interval \<Rightarrow> ('net, 'cache) zebra \<Rightarrow> zcash_network \<Rightarrow> string \<Rightarrow> activation_target \<Rightarrow> instant
    \<Rightarrow> 'net timed_pass list \<Rightarrow> instant list" where
  "observer_schedule next_tick z network user_agent target start ps =
     (let zcash_network = to_zebra z network;
          period = sweep_interval z zcash_network (at_activation_height target)
      in sweep_starts next_tick z zcash_network user_agent period start start start ps)"

section \<open>Ticks on time\<close>

lemma probe_time_le: "probe_time z w network ua a \<le> OBSERVATION_TIMEOUT z"
  by (simp add: probe_time_def split: option.split prod.split)

lemma fold_max_le: "\<forall>x \<in> set xs. x \<le> b \<Longrightarrow> (a :: nat) \<le> b \<Longrightarrow> fold max xs a \<le> b"
  by (induction xs arbitrary: a) auto

lemma sweep_time_le: "sweep_time z w network ua addrs \<le> OBSERVATION_TIMEOUT z"
  unfolding sweep_time_def by (rule fold_max_le) (auto simp: probe_time_le)

text \<open>A pass is punctual when its tick comes within a bound and it ends before the next one is due.\<close>

definition punctual :: "('net, 'cache) zebra \<Rightarrow> duration \<Rightarrow> duration \<Rightarrow> 'net timed_pass \<Rightarrow> bool" where
  "punctual z period bound p \<longleftrightarrow>
     tp_late p \<le> bound \<and> tp_late p + OBSERVATION_TIMEOUT z + tp_overhead p < period"

lemma punctual_starts:
  assumes skips: "skips_missed_ticks nt" and punctual: "list_all (punctual z period bound) ps"
    and now: "now \<le> start + k * period"
  shows "sweep_starts nt z network ua period start (start + k * period) now ps =
    map (\<lambda>i. start + (k + i) * period + tp_late (ps ! i)) [0..<length ps]"
  using punctual now
proof (induction ps arbitrary: k now)
  case (Cons p ps)
  let ?tick = "start + k * period + tp_late p"
  have p: "pass_time z network ua p \<le> OBSERVATION_TIMEOUT z + tp_overhead p"
    "tp_late p + OBSERVATION_TIMEOUT z + tp_overhead p < period"
    using Cons.prems(1) sweep_time_le[of z "tp_world p" network ua "tp_sampled p"]
    by (simp_all add: pass_time_def punctual_def)
  then have "nt period start ?tick = start + Suc k * period"
    using skips unfolding skips_missed_ticks_def by simp
  moreover have "?tick + pass_time z network ua p \<le> start + Suc k * period"
    using p by simp
  ultimately have "sweep_starts nt z network ua period start (start + k * period) now (p # ps) =
      ?tick # map (\<lambda>i. start + (Suc k + i) * period + tp_late (ps ! i)) [0..<length ps]"
    using Cons.IH[of "?tick + pass_time z network ua p" "Suc k"] Cons.prems by (simp add: Let_def)
  also have "\<dots> = map (\<lambda>i. start + (k + i) * period + tp_late ((p # ps) ! i)) [0..<length (p # ps)]"
    by (simp add: upt_rec[of 0] map_Suc_upt[symmetric] del: upt_Suc)
  finally show ?case .
qed simp

lemma observer_schedule_punctual:
  assumes "skips_missed_ticks nt"
    and "list_all (punctual z (sweep_interval z (to_zebra z network) (at_activation_height target)) bound) ps"
  shows "observer_schedule nt z network ua target start ps = map (\<lambda>i. start +
      i * sweep_interval z (to_zebra z network) (at_activation_height target) + tp_late (ps ! i)) [0..<length ps]"
  using punctual_starts[OF assms, of start start 0]
  by (simp add: observer_schedule_def Let_def)

lemma sweep_interval_covers:
  assumes "zb_min_peer_reconnection_delay z + OBSERVATION_TIMEOUT z \<le> DURATION_MAX"
  shows "zb_min_peer_reconnection_delay z + OBSERVATION_TIMEOUT z \<le> sweep_interval z network h"
  using assms by (simp add: sweep_interval_def MIN_SWEEP_INTERVAL_def duration_saturating_add_def)

text \<open>
  A tick that comes late moves its own sweep and not the next one, so the gap after it is
  shorter than the interval by its lateness; a gap of the whole interval would need
  \<open>MissedTickBehavior::Delay\<close>.
\<close>

lemma late_tick_shortens_gap:
  assumes "skips_missed_ticks nt" "list_all (punctual z period late) [a, b, c]"
    and "period = sweep_interval z (to_zebra z network) (at_activation_height target)"
    and "tp_late a = 0" "tp_late b = late" "tp_late c = 0"
  shows "observer_schedule nt z network ua target start [a, b, c] =
    [start, start + period + late, start + period + late + (period - late)]"
proof -
  have "late \<le> period" using assms(2,5) by (simp add: punctual_def)
  then show ?thesis
    using observer_schedule_punctual[OF assms(1), of z network target late "[a, b, c]" ua start] assms(2-6)
    by (simp add: numeral_2_eq_2)
qed

section \<open>Properties\<close>

text \<open>C38: Sweeps do not come too soon for the peers: when ticks come at most a bound late and
  no pass reaches the next tick, the sweep of pass \<open>i\<close> starts at the \<open>i\<close>-th multiple of the
  interval plus its own lateness, so two sweeps start at least the peers' reconnection delay
  plus the observation timeout apart, and a peer that accepts a probe any time within the
  timeout of one sweep is met by a later one only after its reconnection delay, both up to the
  bound on the lateness.\<close>

theorem sweeps_respect_reconnection_delay:
  assumes "skips_missed_ticks nt"
    and "zb_min_peer_reconnection_delay z + OBSERVATION_TIMEOUT z \<le> DURATION_MAX"
    and "list_all (punctual z (sweep_interval z (to_zebra z network) (at_activation_height target)) bound) ps"
    and "starts = observer_schedule nt z network ua target start ps"
    and "i < j" "j < length ps"
    and "starts ! i \<le> accepted" "accepted \<le> starts ! i + OBSERVATION_TIMEOUT z" "starts ! j \<le> met"
  shows "starts ! j = start + j * sweep_interval z (to_zebra z network) (at_activation_height target) + tp_late (ps ! j) \<and>
    starts ! i + zb_min_peer_reconnection_delay z + OBSERVATION_TIMEOUT z \<le> starts ! j + bound \<and>
    accepted + zb_min_peer_reconnection_delay z \<le> met + bound"
proof -
  let ?period = "sweep_interval z (to_zebra z network) (at_activation_height target)"
  have start: "starts ! k = start + k * ?period + tp_late (ps ! k)" if "k < length ps" for k
    using that by (simp add: assms(4) observer_schedule_punctual[OF assms(1,3)])
  have late: "tp_late (ps ! i) \<le> bound"
    using assms(3,5,6) by (simp add: list_all_length punctual_def)
  have multiples: "i * ?period + ?period \<le> j * ?period"
    using mult_le_mono1[of "Suc i" j ?period] assms(5) by simp
  have covered: "zb_min_peer_reconnection_delay z + OBSERVATION_TIMEOUT z \<le> ?period"
    by (rule sweep_interval_covers[OF assms(2)])
  have first: "starts ! i \<le> start + i * ?period + bound" using start[of i] late assms(5,6) by simp
  have later: "start + j * ?period \<le> starts ! j" using start[OF assms(6)] by simp
  have apart: "starts ! i + zb_min_peer_reconnection_delay z + OBSERVATION_TIMEOUT z \<le> starts ! j + bound"
    using first later multiples covered by linarith
  then have "accepted + zb_min_peer_reconnection_delay z \<le> met + bound"
    using assms(8,9) by linarith
  with apart start[OF assms(6)] show ?thesis by blast
qed

text \<open>
  An interval for the witnesses, and three passes of which the second starts three seconds late
  and meets a peer that never answers.
\<close>

definition aligned_ticks :: tick_interval where
  "aligned_ticks period start now = start + Suc ((now - start) div period) * period"

lemma aligned_ticks_skip: "skips_missed_ticks aligned_ticks"
proof -
  have "(now - start) div period = k"
    if "0 < period" "start + k * period \<le> now" "now < start + Suc k * period" for period start k now :: nat
    using that by (intro div_nat_eqI) (auto simp: mult.commute)
  then show ?thesis by (simp add: skips_missed_ticks_def aligned_ticks_def)
qed

definition late_passes :: "bool timed_pass list" where
  "late_passes = map (\<lambda>late. \<lparr>tp_late = late, tp_sampled = [mk_addr (V4 (Ipv4Addr 1 2 3 3)) 8233],
     tp_world = sample_world, tp_overhead = from_secs 1\<rparr>) [0, from_secs 3, 0]"

lemma pinned_interval:
  "sweep_interval pinned_zebra (to_zebra pinned_zebra Mainnet) (at_activation_height sample_target) = from_secs 125"
  "OBSERVATION_TIMEOUT pinned_zebra = from_secs 6" "zb_min_peer_reconnection_delay pinned_zebra = from_secs 119"
  by (simp_all add: sweep_interval_def MIN_SWEEP_INTERVAL_def OBSERVATION_TIMEOUT_def pinned_zebra_simps
      duration_saturating_mul_def duration_saturating_add_def DURATION_MAX_def from_secs_def)

theorem sweeps_respect_reconnection_delay_witness:
  "\<exists>starts. starts = observer_schedule aligned_ticks pinned_zebra Mainnet ''/zeeder/'' sample_target 0 late_passes \<and>
     starts ! 0 + from_secs 119 + from_secs 6 \<le> starts ! 2 + from_secs 3"
proof -
  have punctual: "list_all (punctual pinned_zebra
      (sweep_interval pinned_zebra (to_zebra pinned_zebra Mainnet) (at_activation_height sample_target)) (from_secs 3)) late_passes"
    unfolding pinned_interval by (simp add: late_passes_def punctual_def pinned_interval from_secs_def)
  have fits: "zb_min_peer_reconnection_delay pinned_zebra + OBSERVATION_TIMEOUT pinned_zebra \<le> DURATION_MAX"
    by (simp add: pinned_interval from_secs_def DURATION_MAX_def)
  have two: "(0 :: nat) < 2" "2 < length late_passes" by (simp_all add: late_passes_def)
  from conjunct1[OF conjunct2[OF sweeps_respect_reconnection_delay[OF aligned_ticks_skip fits punctual refl two
        order_refl le_add1 order_refl, of "''/zeeder/''" 0]]]
  show ?thesis unfolding pinned_interval by blast
qed

section \<open>How soon an activation can be confirmed\<close>

lemma confirmed_log:
  assumes "observer_laws sh iv fs" "list_all (\<lambda>i. completes_all (si_world i)) is" "\<not> is_activation_confirmed tip"
    and "ob0 = snd (start_observer network tip files r)"
    and "is_activation_confirmed (ob_tip (observer_run z api sh iv fs network ua target path ob0 is))"
    and "log = observer_log z api sh iv fs network ua target path ob0 is"
  shows "3 \<le> length log \<and> list_all (convincing z (to_zebra z network) ua target) (drop (length log - 3) log)"
proof -
  have inv: "observer_inv z fs network ua target path
      (observer_run z api sh iv fs network ua target path ob0 is, log)"
    unfolding assms(4,6) by (rule observer_run_inv[OF assms(1-3)])
  with assms(5) have well: "list_all sampled_well log"
    and "three_in_a_row (map (pass_evidence z network ua target) log)"
    by (auto simp: observer_inv_def Let_def split: if_splits)
  then obtain before a b c where "log = before @ [a, b, c]"
    and "qualifies (pass_evidence z network ua target a)" "qualifies (pass_evidence z network ua target b)"
      "qualifies (pass_evidence z network ua target c)"
    by (auto simp: three_in_a_row_def map_eq_append_conv)
  with well show ?thesis by (simp add: qualifies_convincing)
qed

text \<open>C9: An activation cannot be confirmed early: when ticks come at most a bound late and no pass
  reaches the next tick, an observer that started unconfirmed has confirmed only after three
  sweeps at least, the last three of them convincing; so never before two whole intervals have
  gone by since it started, each the peers' reconnection delay plus the observation timeout or more,
  and the three sweeps that convinced it span as much, up to the bound on the lateness.\<close>

theorem confirmation_takes_two_intervals:
  assumes "skips_missed_ticks nt"
    and "zb_min_peer_reconnection_delay z + OBSERVATION_TIMEOUT z \<le> DURATION_MAX"
    and "list_all (punctual z (sweep_interval z (to_zebra z network) (at_activation_height target)) bound) ps"
    and "starts = observer_schedule nt z network ua target start ps"
    and "observer_laws sh iv fs" "list_all (\<lambda>i. completes_all (si_world i)) is" "\<not> is_activation_confirmed tip"
    and "ob0 = snd (start_observer network tip files r)"
    and "map (\<lambda>p. (tp_sampled p, tp_world p)) ps = observer_log z api sh iv fs network ua target path ob0 is"
    and "is_activation_confirmed (ob_tip (observer_run z api sh iv fs network ua target path ob0 is))"
  shows "\<exists>k. length ps = k + 3 \<and>
    (\<forall>p \<in> {ps ! k, ps ! (k + 1), ps ! (k + 2)}.
       convincing z (to_zebra z network) ua target (tp_sampled p, tp_world p)) \<and>
    start + 2 * (zb_min_peer_reconnection_delay z + OBSERVATION_TIMEOUT z) \<le> starts ! (k + 2) \<and>
    starts ! k + 2 * (zb_min_peer_reconnection_delay z + OBSERVATION_TIMEOUT z) \<le> starts ! (k + 2) + bound"
proof -
  let ?period = "sweep_interval z (to_zebra z network) (at_activation_height target)"
  from confirmed_log[OF assms(5-8,10,9)] have three: "3 \<le> length ps"
    and convincing: "list_all (\<lambda>p. convincing z (to_zebra z network) ua target (tp_sampled p, tp_world p)) (drop (length ps - 3) ps)"
    by (simp_all add: list_all_iff drop_map)
  from three obtain k where k: "length ps = k + 3" by (metis le_add_diff_inverse2)
  have last: "drop k ps = [ps ! k, ps ! (k + 1), ps ! (k + 2)]"
    using k by (simp add: list_eq_iff_nth_eq less_Suc_eq numeral_3_eq_3)
  have start: "starts ! i = start + i * ?period + tp_late (ps ! i)" if "i < length ps" for i
    using that by (simp add: assms(4) observer_schedule_punctual[OF assms(1,3)])
  have late: "tp_late (ps ! k) \<le> bound" using assms(3) k by (simp add: list_all_length punctual_def)
  have period: "zb_min_peer_reconnection_delay z + OBSERVATION_TIMEOUT z \<le> ?period"
    by (rule sweep_interval_covers[OF assms(2)])
  have "starts ! (k + 2) = start + k * ?period + 2 * ?period + tp_late (ps ! (k + 2))"
    using start[of "k + 2"] k by (simp add: algebra_simps)
  moreover have "starts ! k = start + k * ?period + tp_late (ps ! k)" using start[of k] k by simp
  ultimately have "start + 2 * ?period \<le> starts ! (k + 2)" "starts ! k + 2 * ?period \<le> starts ! (k + 2) + bound"
    using late by simp_all
  with period convincing k last show ?thesis by (intro exI[of _ k]) auto
qed

text \<open>The run of three passes that confirms, with three punctual sweeps for it.\<close>

definition punctual_passes :: "bool timed_pass list" where
  "punctual_passes = map (\<lambda>late. \<lparr>tp_late = late, tp_sampled = map fst wide_book, tp_world = sample_world,
     tp_overhead = from_secs 1\<rparr>) [0, from_secs 3, 0]"

abbreviation sample_log :: "(sample_meta list, nat, bool) sweep_input list \<Rightarrow> bool sweep_log" where
  "sample_log is \<equiv> observer_log pinned_zebra sample_book_api keep_order (map snd) sample_files Mainnet
     ''/zeeder/'' sample_target (Some [''c'']) sample_start is"

lemma sample_log_three:
  "sample_log [sample_pass, sample_pass, sample_pass] = replicate 3 (map fst wide_book, sample_world)"
proof -
  have "sample_run [] = sample_start" by (simp add: observer_run_def)
  then have "ob_running (sample_run [])" by (simp add: sample_start_running)
  moreover have "ob_running (sample_run [sample_pass])" "ob_running (sample_run [sample_pass, sample_pass])"
    using sample_run_one sample_run_two by (auto simp: sample_start_running)
  moreover have "sample_log [] = []" by (simp add: observer_log_def)
  ultimately show ?thesis
    using sample_log_snoc[of "[]"] sample_log_snoc[of "[sample_pass]"] sample_log_snoc[of "[sample_pass, sample_pass]"]
    by (simp add: numeral_3_eq_3)
qed

theorem confirmation_takes_two_intervals_witness:
  "\<exists>starts. starts = observer_schedule aligned_ticks pinned_zebra Mainnet ''/zeeder/'' sample_target 0 punctual_passes \<and>
     from_secs 250 \<le> starts ! 2"
proof -
  have fits: "zb_min_peer_reconnection_delay pinned_zebra + OBSERVATION_TIMEOUT pinned_zebra \<le> DURATION_MAX"
    by (simp add: pinned_interval from_secs_def DURATION_MAX_def)
  have punctual: "list_all (punctual pinned_zebra
      (sweep_interval pinned_zebra (to_zebra pinned_zebra Mainnet) (at_activation_height sample_target)) (from_secs 3)) punctual_passes"
    unfolding pinned_interval by (simp add: punctual_passes_def punctual_def pinned_interval from_secs_def)
  have worlds: "list_all (\<lambda>i. completes_all (si_world i)) [sample_pass, sample_pass, sample_pass]"
    by (simp add: sample_pass_def sample_world_completes)
  have log: "map (\<lambda>p. (tp_sampled p, tp_world p)) punctual_passes = sample_log [sample_pass, sample_pass, sample_pass]"
    unfolding sample_log_three by (simp add: punctual_passes_def numeral_3_eq_3)
  from confirmation_takes_two_intervals[OF aligned_ticks_skip fits punctual refl keep_order_laws worlds
      sample_new_tip sample_start_def log sample_run_confirms, of 0]
  obtain k where "length punctual_passes = k + 3" and span: "0 + 2 * (zb_min_peer_reconnection_delay pinned_zebra + OBSERVATION_TIMEOUT pinned_zebra)
      \<le> observer_schedule aligned_ticks pinned_zebra Mainnet ''/zeeder/'' sample_target 0 punctual_passes ! (k + 2)"
    by blast
  then have "k = 0" by (simp add: punctual_passes_def)
  with span show ?thesis unfolding pinned_interval by (simp add: from_secs_def numeral_2_eq_2)
qed

end
