(* ===== verification/Refresh_Schedule.thy ===== *)
theory Refresh_Schedule
  imports Sweep_Schedule Process_Steps
begin

text \<open>
  When the cache task of \<open>src/crawl/address_cache.rs\<close> refreshes: it sleeps for the refresh interval
  before every pass, so the age of what the zone serves and the spacing of the status reports
  follow from how late the sleeps wake it and how long its passes take.
\<close>

section \<open>The loop with its times\<close>

text \<open>
  A pass with its timing: how much later than asked the sleep ended, how long the task then
  waited for the book, what it met there, and how long it computed and sent.
\<close>

record ('book, 'time) timed_refresh =
  tf_late :: duration
  tf_lock_wait :: duration
  tf_input :: "('book, 'time) refresh_input"
  tf_work :: duration

text \<open>What a pass did: when it had the book, when it had sent, what it reported, what is published.\<close>

record refresh_done =
  rd_read_at :: instant
  rd_sent_at :: instant
  rd_status :: "crawler_status option"
  rd_published :: servable_peer_lists

fun refresh_loop ::
  "('net, 'cache) zebra \<Rightarrow> ('book, 'meta, 'net, 'time) book_api \<Rightarrow> ('r, peer_addr) shuffler
    \<Rightarrow> zcash_network \<Rightarrow> version \<Rightarrow> instant \<Rightarrow> 'r cache_task \<Rightarrow> ('book, 'time) timed_refresh list \<Rightarrow> refresh_done list" where
  "refresh_loop z api sh network target_version now ck [] = []"
| "refresh_loop z api sh network target_version now ck (p # ps) =
     (let woken = now + CACHE_REFRESH_INTERVAL + tf_late p;
          read_at = woken + tf_lock_wait p;
          sent_at = read_at + tf_work p;
          ((ops, status), ck) = refresh_cache z api sh network target_version ck (tf_input p)
      in \<lparr>rd_read_at = read_at, rd_sent_at = sent_at, rd_status = status, rd_published = ck_published ck\<rparr>
         # refresh_loop z api sh network target_version sent_at ck ps)"

section \<open>What each pass does\<close>

definition refresh_within :: "duration \<Rightarrow> duration \<Rightarrow> ('book, 'time) timed_refresh \<Rightarrow> bool" where
  "refresh_within late busy p \<longleftrightarrow> ri_receivers_alive (tf_input p) \<and> tf_late p \<le> late \<and> tf_lock_wait p + tf_work p \<le> busy"

text \<open>The snapshot of a pass is drawn from the book it read, at the floor of the tip it saw.\<close>

definition snapshot_of_pass ::
  "('net, 'cache) zebra \<Rightarrow> ('book, 'meta, 'net, 'time) book_api \<Rightarrow> zcash_network \<Rightarrow> version
    \<Rightarrow> ('book, 'time) timed_refresh \<Rightarrow> servable_peer_lists \<Rightarrow> bool" where
  "snapshot_of_pass z api network target_version p peers \<longleftrightarrow>
     served_from z api (ri_book (tf_input p)) (ri_now (tf_input p)) (to_zebra z network)
       (protocol_floor z (to_zebra z network) (ri_tip (tf_input p))) target_version peers"

lemma servable_peers_status: "so_status (fst (servable_peers z api sh r book now network v target label log)) \<noteq> None \<longleftrightarrow> log"
  by (simp add: servable_peers_def Let_def split_beta)

lemma refresh_cache_pass:
  assumes "is_shuffle sh" "ck_running ck" "ri_receivers_alive (tf_input p)"
    and "refresh_cache z api sh network target_version ck (tf_input p) = ((ops, status), ck')"
  shows "ck_running ck'" "ck_refresh_count ck' = ck_refresh_count ck + 1"
    and "status \<noteq> None \<longleftrightarrow> (ck_refresh_count ck + 1) mod 120 = 0"
    and "snapshot_of_pass z api network target_version p (ck_published ck')"
proof -
  define out where "out = servable_peers z api sh (ck_rng ck) (ri_book (tf_input p)) (ri_now (tf_input p)) (to_zebra z network)
    (protocol_floor z (to_zebra z network) (ri_tip (tf_input p))) target_version (network_label network)
    ((ck_refresh_count ck + 1) mod CRAWLER_STATUS_LOG_REFRESHES = 0)"
  have ck': "ck' = ck\<lparr>ck_refresh_count := ck_refresh_count ck + 1, ck_rng := snd out, ck_published := so_peers (fst out)\<rparr>"
    and status: "status = so_status (fst out)"
    using assms(2-4) by (auto simp: refresh_cache_def out_def protocol_floor_def Let_def split_beta)
  show "ck_running ck'" "ck_refresh_count ck' = ck_refresh_count ck + 1" using ck' assms(2) by simp_all
  show "status \<noteq> None \<longleftrightarrow> (ck_refresh_count ck + 1) mod 120 = 0"
    unfolding status out_def servable_peers_status by (simp add: CRAWLER_STATUS_LOG_REFRESHES_def)
  show "snapshot_of_pass z api network target_version p (ck_published ck')"
    using servable_peers_served_from[OF assms(1)] by (simp add: ck' out_def snapshot_of_pass_def)
qed

lemma refresh_loop_length [simp]: "length (refresh_loop z api sh network target now ck ps) = length ps"
  by (induction ps arbitrary: now ck) (simp_all add: Let_def split_beta)

lemma refresh_loop_pass:
  fixes z api sh network target now ck ps
  defines "log \<equiv> refresh_loop z api sh network target now ck ps"
  assumes shuffle: "is_shuffle sh" and running: "ck_running ck"
    and alive: "list_all (\<lambda>p. ri_receivers_alive (tf_input p)) ps" and i: "i < length ps"
  shows "rd_read_at (log ! i) = (case i of 0 \<Rightarrow> now | Suc j \<Rightarrow> rd_sent_at (log ! j)) + CACHE_REFRESH_INTERVAL +
      tf_late (ps ! i) + tf_lock_wait (ps ! i) \<and>
    rd_sent_at (log ! i) = rd_read_at (log ! i) + tf_work (ps ! i) \<and>
    snapshot_of_pass z api network target (ps ! i) (rd_published (log ! i)) \<and>
    (rd_status (log ! i) \<noteq> None \<longleftrightarrow> (ck_refresh_count ck + of_nat (Suc i)) mod 120 = 0)"
  using running alive i unfolding log_def
proof (induction ps arbitrary: now ck i)
  case (Cons p ps)
  obtain ops status ck' where pass: "refresh_cache z api sh network target ck (tf_input p) = ((ops, status), ck')"
    by (metis surj_pair)
  note did = refresh_cache_pass[OF shuffle Cons.prems(1) _ pass]
  show ?case
  proof (cases i)
    case 0
    with did Cons.prems show ?thesis by (simp add: pass Let_def)
  next
    case (Suc j)
    with Cons.IH[of ck' j "now + CACHE_REFRESH_INTERVAL + tf_late p + tf_lock_wait p + tf_work p"] did Cons.prems
    show ?thesis by (cases j) (simp_all add: pass Let_def algebra_simps)
  qed
qed simp

lemma refresh_loop_apart:
  fixes z api sh network target now ck ps
  defines "log \<equiv> refresh_loop z api sh network target now ck ps"
  assumes "is_shuffle sh" "ck_running ck" "list_all (\<lambda>p. ri_receivers_alive (tf_input p)) ps"
    and "i < j" "j < length ps"
  shows "rd_sent_at (log ! i) + (j - i) * CACHE_REFRESH_INTERVAL \<le> rd_read_at (log ! j)"
  using assms(5,6)
proof (induction j)
  case (Suc j)
  note pass = refresh_loop_pass[OF assms(2-4), of _ z api network target now, folded log_def]
  show ?case
  proof (cases "i = j")
    case True
    with pass[of "Suc j"] Suc.prems show ?thesis by simp
  next
    case False
    with Suc pass[of j] pass[of "Suc j"] show ?thesis by (simp add: Suc_diff_le)
  qed
qed simp

text \<open>C28: How old the served peers can be: when the cache's sleeps end at most a bound late and its
  passes take at most a bound, every snapshot is drawn from the book its pass read at the floor of
  the tip it saw, and at any time until the next one is sent that reading of the book is at most
  five seconds, one lateness and two passes old. And the reports are spaced: a pass reports the
  crawler's status exactly when it is a multiple of 120 passes since the start, so two reports are
  at least ten minutes apart.\<close>

theorem served_peers_age:
  assumes "is_shuffle sh" "list_all (refresh_within late busy) ps" "length ps < 2 ^ 64"
    and "log = refresh_loop z api sh network target start (spawn_cache r) ps"
    and "i < j" "j < length ps"
  shows "snapshot_of_pass z api network target (ps ! i) (rd_published (log ! i)) \<and>
    (now \<le> rd_sent_at (log ! Suc i) \<longrightarrow> now \<le> rd_read_at (log ! i) + from_secs 5 + late + 2 * busy) \<and>
    (rd_status (log ! i) \<noteq> None \<longleftrightarrow> 120 dvd Suc i) \<and>
    (rd_status (log ! i) \<noteq> None \<longrightarrow> rd_status (log ! j) \<noteq> None \<longrightarrow>
       rd_sent_at (log ! i) + from_secs 600 \<le> rd_read_at (log ! j))"
proof -
  have running: "ck_running (spawn_cache r)" by (simp add: spawn_cache_def)
  have alive: "list_all (\<lambda>p. ri_receivers_alive (tf_input p)) ps"
    using assms(2) by (simp add: list_all_iff refresh_within_def)
  note pass = refresh_loop_pass[OF assms(1) running alive, of _ z api network target start, folded assms(4)]
  have bounds: "tf_late (ps ! k) \<le> late" "tf_lock_wait (ps ! k) + tf_work (ps ! k) \<le> busy" if "k < length ps" for k
    using assms(2) that by (simp_all add: list_all_length refresh_within_def)
  have status: "rd_status (log ! k) \<noteq> None \<longleftrightarrow> 120 dvd Suc k" if k: "k < length ps" for k
  proof -
    have "w mod 120 = 0 \<longleftrightarrow> unat w mod 120 = 0" for w :: u64
      using unat_eq_zero[of "w mod 120"] by (simp add: unat_mod)
    moreover have "unat (of_nat (Suc k) :: u64) = Suc k"
      using k assms(3) by (simp add: unat_of_nat_small del: of_nat_Suc)
    ultimately show ?thesis using pass[OF k] by (simp add: spawn_cache_def dvd_eq_mod_eq_0)
  qed
  have "rd_sent_at (log ! Suc i) \<le> rd_read_at (log ! i) + from_secs 5 + late + 2 * busy"
    using pass[of i] pass[of "Suc i"] bounds[of i] bounds[of "Suc i"] assms(5,6)
    by (simp add: CACHE_REFRESH_INTERVAL_def)
  moreover have "rd_sent_at (log ! i) + from_secs 600 \<le> rd_read_at (log ! j)"
    if "120 dvd Suc i" "120 dvd Suc j"
  proof -
    have "120 dvd j - i" using that assms(5) by (metis diff_Suc_Suc dvd_diff_nat)
    then have "120 \<le> j - i" using assms(5) by (simp add: dvd_imp_le)
    then have "120 * from_secs 5 \<le> (j - i) * CACHE_REFRESH_INTERVAL"
      unfolding CACHE_REFRESH_INTERVAL_def by (rule mult_le_mono1)
    with refresh_loop_apart[OF assms(1) running alive assms(5,6), of z api network target start, folded assms(4)]
    have "rd_sent_at (log ! i) + 120 * from_secs 5 \<le> rd_read_at (log ! j)" by linarith
    moreover have "120 * from_secs 5 = from_secs 600" by (simp add: from_secs_def)
    ultimately show ?thesis by simp
  qed
  ultimately show ?thesis using pass[of i] status[of i] status[of j] assms(5,6) by auto
qed

text \<open>Two punctual passes over the sample book.\<close>

definition sample_refreshes :: "(sample_meta list, nat) timed_refresh list" where
  "sample_refreshes = replicate 2
     \<lparr>tf_late = 1, tf_lock_wait = 0, tf_input = sample_refresh_input, tf_work = 2\<rparr>"

theorem served_peers_age_witness:
  "let log = refresh_loop pinned_zebra sample_book_api rotating_shuffle Mainnet 170190 0 (spawn_cache 0) sample_refreshes
   in rd_sent_at (log ! 1) \<le> rd_read_at (log ! 0) + from_secs 5 + 1 + 2 * 2 \<and> rd_status (log ! 0) = None"
proof -
  have within: "list_all (refresh_within 1 2) sample_refreshes"
    by (simp add: sample_refreshes_def refresh_within_def sample_refresh_input_def numeral_2_eq_2)
  have short: "length sample_refreshes < 2 ^ 64" "(0 :: nat) < 1" "1 < length sample_refreshes"
    by (simp_all add: sample_refreshes_def)
  from served_peers_age[OF is_shuffle_rotating within short(1) refl short(2,3), where z = pinned_zebra and
      api = sample_book_api and network = Mainnet and target = 170190 and start = 0 and r = 0 and
      now = "rd_sent_at (refresh_loop pinned_zebra sample_book_api rotating_shuffle Mainnet 170190 0 (spawn_cache 0) sample_refreshes ! 1)"]
  show ?thesis by simp
qed

end
