(* ===== verification/Serving_Tests.thy ===== *)
theory Serving_Tests
  imports Address_Cache
begin

text \<open>
  The unit tests at the end of \<open>src/crawl/servability.rs\<close>, \<open>src/crawl/chain_tip.rs\<close> and
  \<open>src/crawl/address_cache.rs\<close>, translated, with the proofs that the model passes them. A test
  that draws on the generator passes for every shuffle. The tests of zebra's bans and of shared
  pointers have no counterpart.
\<close>

section \<open>Servability\<close>

definition DEFAULT_PORT :: u16 where "DEFAULT_PORT = 8233"

definition routable_ip :: ip_addr where "routable_ip = V4 (Ipv4Addr 8 8 8 8)"

definition servable_peer :: peer_attributes where
  "servable_peer = \<lparr>pa_ip = routable_ip, pa_port = DEFAULT_PORT, pa_default_port = DEFAULT_PORT,
     pa_is_recently_live = True, pa_negotiated_version = Some 170160, pa_minimum_version = 170160,
     pa_advertises_node_network = True, pa_is_inbound = False, pa_misbehavior_score = 0\<rparr>"

definition servable_when_every_condition_is_met :: bool where
  "servable_when_every_condition_is_met \<longleftrightarrow> classify servable_peer = Inr ()"

definition non_routable_addresses_are_rejected :: bool where
  "non_routable_addresses_are_rejected \<longleftrightarrow>
     list_all (\<lambda>ip. classify (servable_peer\<lparr>pa_ip := ip\<rparr>) = Inl NotRoutable)
       [LOCALHOST_V4, UNSPECIFIED_V4, V4 (Ipv4Addr 224 0 0 1), V6 (Ipv6Addr 0 0 0 0 0 0 0 1),
        UNSPECIFIED_V6, V6 (Ipv6Addr 0xff02 0 0 0 0 0 0 1)]"

definition non_default_port_is_rejected :: bool where
  "non_default_port_is_rejected \<longleftrightarrow> classify (servable_peer\<lparr>pa_port := 1234\<rparr>) = Inl WrongPort"

definition peer_without_recent_handshake_is_rejected :: bool where
  "peer_without_recent_handshake_is_rejected \<longleftrightarrow>
     classify (servable_peer\<lparr>pa_is_recently_live := False\<rparr>) = Inl NotRecentlyLive"

definition recently_live_non_full_node_is_rejected :: bool where
  "recently_live_non_full_node_is_rejected \<longleftrightarrow>
     classify (servable_peer\<lparr>pa_advertises_node_network := False\<rparr>) = Inl NotFullNode"

definition peer_below_the_dynamic_protocol_floor_is_rejected :: bool where
  "peer_below_the_dynamic_protocol_floor_is_rejected \<longleftrightarrow>
     classify (servable_peer\<lparr>pa_negotiated_version := Some 170150, pa_minimum_version := 170160\<rparr>) =
       Inl OutdatedVersion"

definition inbound_peer_is_rejected :: bool where
  "inbound_peer_is_rejected \<longleftrightarrow> classify (servable_peer\<lparr>pa_is_inbound := True\<rparr>) = Inl Inbound"

definition misbehaving_peer_is_rejected :: bool where
  "misbehaving_peer_is_rejected \<longleftrightarrow> classify (servable_peer\<lparr>pa_misbehavior_score := 1\<rparr>) = Inl Misbehaving"

definition structural_reasons_take_precedence_over_liveness :: bool where
  "structural_reasons_take_precedence_over_liveness \<longleftrightarrow>
     classify (servable_peer\<lparr>pa_ip := LOCALHOST_V4, pa_port := 1234, pa_is_recently_live := False,
       pa_advertises_node_network := False, pa_is_inbound := True, pa_misbehavior_score := 1\<rparr>) = Inl NotRoutable"

definition every_reason_has_a_unique_label :: bool where
  "every_reason_has_a_unique_label \<longleftrightarrow>
     (let labels = map reason_label ALL_REASONS; unique = remdups labels
      in length labels = length unique \<and> length unique = 7)"

lemma servability_tests_pass:
  "servable_when_every_condition_is_met" "non_routable_addresses_are_rejected" "non_default_port_is_rejected"
  "peer_without_recent_handshake_is_rejected" "recently_live_non_full_node_is_rejected"
  "peer_below_the_dynamic_protocol_floor_is_rejected" "inbound_peer_is_rejected" "misbehaving_peer_is_rejected"
  "structural_reasons_take_precedence_over_liveness" "every_reason_has_a_unique_label"
  by (simp_all add: servable_when_every_condition_is_met_def non_routable_addresses_are_rejected_def
      non_default_port_is_rejected_def peer_without_recent_handshake_is_rejected_def
      recently_live_non_full_node_is_rejected_def peer_below_the_dynamic_protocol_floor_is_rejected_def
      inbound_peer_is_rejected_def misbehaving_peer_is_rejected_def
      structural_reasons_take_precedence_over_liveness_def every_reason_has_a_unique_label_def
      servable_peer_def routable_ip_def DEFAULT_PORT_def classify_def is_none_or_def LOCALHOST_V4_def
      UNSPECIFIED_V4_def UNSPECIFIED_V6_def ALL_REASONS_def Let_def)

section \<open>The chain tip\<close>

definition version_floor :: "bool \<Rightarrow> bool \<Rightarrow> version" where
  "version_floor network confirmed =
     zb_min_remote_for_height pinned_zebra network
       (best_tip_height (new_tip (latest_target pinned_zebra network) confirmed))"

definition no_chain_tip_floor :: "bool \<Rightarrow> version" where
  "no_chain_tip_floor network = zb_min_remote_for_height pinned_zebra network None"

definition protocol_floor_changes_only_after_activation_confirmation :: bool where
  "protocol_floor_changes_only_after_activation_confirmation \<longleftrightarrow>
     (let network = zb_mainnet pinned_zebra;
          target = latest_target pinned_zebra network;
          tip = new_tip target False
      in zb_min_remote_for_height pinned_zebra network (best_tip_height tip) = 170160 \<and>
         zb_min_remote_for_height pinned_zebra network (best_tip_height (confirm_activation tip)) = 170190)"

text \<open>A clone shares the channel, so what it reports is the state after the confirmation.\<close>

definition activation_confirmation_updates_the_shared_tip :: bool where
  "activation_confirmation_updates_the_shared_tip \<longleftrightarrow>
     (let target = latest_target pinned_zebra (zb_mainnet pinned_zebra);
          tip = new_tip target False;
          subscriber = confirm_activation tip
      in best_tip_height subscriber = Some (at_activation_height target))"

definition confirmed_mainnet_floor_matches_the_compiled_target :: bool where
  "confirmed_mainnet_floor_matches_the_compiled_target \<longleftrightarrow> version_floor (zb_mainnet pinned_zebra) True = 170190"

definition confirmed_testnet_floor_matches_the_compiled_target :: bool where
  "confirmed_testnet_floor_matches_the_compiled_target \<longleftrightarrow>
     version_floor (zb_default_testnet pinned_zebra) True = 170180"

definition unconfirmed_testnet_floor_stays_at_the_previous_upgrade :: bool where
  "unconfirmed_testnet_floor_stays_at_the_previous_upgrade \<longleftrightarrow>
     version_floor (zb_default_testnet pinned_zebra) False = 170160"

definition no_chain_tip_fallback_is_pinned :: bool where
  "no_chain_tip_fallback_is_pinned \<longleftrightarrow>
     list_all (\<lambda>network. no_chain_tip_floor network = 170150)
       [zb_mainnet pinned_zebra, zb_default_testnet pinned_zebra]"

definition chain_tip_does_not_lower_no_chain_tip_fallback :: bool where
  "chain_tip_does_not_lower_no_chain_tip_fallback \<longleftrightarrow>
     list_all (\<lambda>network. no_chain_tip_floor network \<le> version_floor network False)
       [zb_mainnet pinned_zebra, zb_default_testnet pinned_zebra]"

lemma chain_tip_tests_pass:
  "protocol_floor_changes_only_after_activation_confirmation" "activation_confirmation_updates_the_shared_tip"
  "confirmed_mainnet_floor_matches_the_compiled_target" "confirmed_testnet_floor_matches_the_compiled_target"
  "unconfirmed_testnet_floor_stays_at_the_previous_upgrade" "no_chain_tip_fallback_is_pinned"
  "chain_tip_does_not_lower_no_chain_tip_fallback"
  by (simp_all add: protocol_floor_changes_only_after_activation_confirmation_def
      activation_confirmation_updates_the_shared_tip_def confirmed_mainnet_floor_matches_the_compiled_target_def
      confirmed_testnet_floor_matches_the_compiled_target_def
      unconfirmed_testnet_floor_stays_at_the_previous_upgrade_def no_chain_tip_fallback_is_pinned_def
      chain_tip_does_not_lower_no_chain_tip_fallback_def version_floor_def no_chain_tip_floor_def
      latest_target_def new_tip_def best_tip_height_def confirm_activation_def pinned_zebra_simps
      saturating_add_def Let_def)

section \<open>The served-address cache\<close>

text \<open>
  An address book as the list of its entries. \<open>MetaAddr::new_connected\<close> is an entry of a peer
  just heard from, \<open>new_initial_peer\<close> one never heard from; the tests' current version is
  zebra's newest, a parameter.
\<close>

record test_meta =
  tm_addr :: peer_addr
  tm_node_network :: bool
  tm_is_inbound :: bool
  tm_recently_live :: bool
  tm_version :: "version option"

definition test_book_api :: "(test_meta list, test_meta, bool, unit) book_api" where
  "test_book_api = \<lparr>ab_peers = (\<lambda>book. book), ab_len = length, ab_misbehavior_score = (\<lambda>_ _. 0),
     ma_addr = tm_addr, ma_was_recently_live = (\<lambda>m _. tm_recently_live m), ma_negotiated_version = tm_version,
     ma_valid_for_outbound = (\<lambda>m _. tm_node_network m), ma_is_inbound = tm_is_inbound\<rparr>"

definition new_connected :: "peer_addr \<Rightarrow> bool \<Rightarrow> bool \<Rightarrow> version \<Rightarrow> test_meta" where
  "new_connected addr services is_inbound version = \<lparr>tm_addr = addr, tm_node_network = services,
     tm_is_inbound = is_inbound, tm_recently_live = True, tm_version = Some version\<rparr>"

definition new_initial_peer :: "peer_addr \<Rightarrow> test_meta" where
  "new_initial_peer addr = \<lparr>tm_addr = addr, tm_node_network = False, tm_is_inbound = False,
     tm_recently_live = False, tm_version = None\<rparr>"

definition test_peer :: "u8 \<Rightarrow> u8 \<Rightarrow> u8 \<Rightarrow> u8 \<Rightarrow> u16 \<Rightarrow> peer_addr" where
  "test_peer a b c d port = mk_addr (V4 (Ipv4Addr a b c d)) port"

definition book_snapshot ::
  "('r, peer_addr) shuffler \<Rightarrow> 'r \<Rightarrow> bool \<Rightarrow> test_meta list \<Rightarrow> version \<Rightarrow> version \<Rightarrow> servable_peer_lists" where
  "book_snapshot sh r network book minimum_version target_version = so_peers (fst (servable_peers pinned_zebra
     test_book_api sh r book () network minimum_version target_version (if network then ''testnet'' else ''mainnet'') False))"

definition nothing_served :: "servable_peer_lists \<Rightarrow> bool" where
  "nothing_served peers \<longleftrightarrow> sp_ipv4 peers = [] \<and> sp_ipv6 peers = []"

definition never_handshaked_peers_are_not_servable :: "('r, peer_addr) shuffler \<Rightarrow> 'r \<Rightarrow> version \<Rightarrow> bool" where
  "never_handshaked_peers_are_not_servable sh r current \<longleftrightarrow>
     (let book = [new_initial_peer (test_peer 1 2 3 4 8233)]
      in ab_len test_book_api book = 1 \<and> nothing_served (book_snapshot sh r False book current current))"

definition recently_connected_full_node_is_servable :: "('r, peer_addr) shuffler \<Rightarrow> 'r \<Rightarrow> version \<Rightarrow> bool" where
  "recently_connected_full_node_is_servable sh r current \<longleftrightarrow>
     (let book = [new_connected (test_peer 1 2 3 4 8233) True False current];
          peers = book_snapshot sh r False book current current
      in map sa_ip (sp_ipv4 peers) = [V4 (Ipv4Addr 1 2 3 4)])"

definition peer_admitted_before_activation_is_removed_by_the_new_floor ::
  "('r, peer_addr) shuffler \<Rightarrow> 'r \<Rightarrow> bool" where
  "peer_admitted_before_activation_is_removed_by_the_new_floor sh r \<longleftrightarrow>
     (let book = [new_connected (test_peer 1 2 3 4 8233) True False 170150]
      in nothing_served (book_snapshot sh r False book 170160 170160))"

definition recently_connected_non_full_node_is_not_servable :: "('r, peer_addr) shuffler \<Rightarrow> 'r \<Rightarrow> version \<Rightarrow> bool" where
  "recently_connected_non_full_node_is_not_servable sh r current \<longleftrightarrow>
     (let book = [new_connected (test_peer 1 2 3 4 8233) False False current]
      in nothing_served (book_snapshot sh r False book current current))"

definition recently_connected_inbound_peer_is_not_servable :: "('r, peer_addr) shuffler \<Rightarrow> 'r \<Rightarrow> version \<Rightarrow> bool" where
  "recently_connected_inbound_peer_is_not_servable sh r current \<longleftrightarrow>
     (let book = [new_connected (test_peer 1 2 3 4 8233) True True current]
      in nothing_served (book_snapshot sh r False book current current))"

definition responded_peer_on_wrong_port_is_not_servable :: "('r, peer_addr) shuffler \<Rightarrow> 'r \<Rightarrow> version \<Rightarrow> bool" where
  "responded_peer_on_wrong_port_is_not_servable sh r current \<longleftrightarrow>
     (let book = [new_connected (test_peer 1 2 3 4 1234) True False current]
      in sp_ipv4 (book_snapshot sh r False book current current) = [])"

lemma book_snapshot_served:
  "is_shuffle sh \<Longrightarrow> served_from pinned_zebra test_book_api book () network v target
     (book_snapshot sh r network book v target)"
  unfolding book_snapshot_def by (rule servable_peers_served_from)

lemmas test_book_simps =
  classify_peer_def classify_def peer_attributes_of_def is_none_or_def pinned_zebra_simps test_book_api_def
  new_connected_def new_initial_peer_def test_peer_def

lemma nothing_admitted_nothing_served:
  assumes "is_shuffle sh" "list_all (\<lambda>m. classify_peer pinned_zebra test_book_api book m () network v \<noteq> Inr ()) book"
  shows "nothing_served (book_snapshot sh r network book v target)"
proof -
  have "\<not> servable (peer_attributes_of pinned_zebra test_book_api book m () network v)" if "m \<in> set book" for m
    using assms(2) that by (auto simp: list_all_iff classify_peer_servable)
  then have "a \<notin> set (sp_ipv4 (book_snapshot sh r network book v target))"
    "a \<notin> set (sp_ipv6 (book_snapshot sh r network book v target))" for a
    using served_from_lists[OF book_snapshot_served[OF assms(1), of book network v target r], of a]
    by (auto simp: test_book_api_def)
  then show ?thesis by (metis all_not_in_conv nothing_served_def set_empty)
qed

lemma refused_peer_tests_pass:
  assumes "is_shuffle sh"
  shows "never_handshaked_peers_are_not_servable sh r current"
    "peer_admitted_before_activation_is_removed_by_the_new_floor sh r"
    "recently_connected_non_full_node_is_not_servable sh r current"
    "recently_connected_inbound_peer_is_not_servable sh r current"
    "responded_peer_on_wrong_port_is_not_servable sh r current"
proof -
  note none = nothing_admitted_nothing_served[OF assms]
  show "never_handshaked_peers_are_not_servable sh r current"
    unfolding never_handshaked_peers_are_not_servable_def Let_def
    by (intro conjI none) (simp_all add: test_book_simps)
  show "peer_admitted_before_activation_is_removed_by_the_new_floor sh r"
    unfolding peer_admitted_before_activation_is_removed_by_the_new_floor_def Let_def
    by (rule none) (simp add: test_book_simps)
  show "recently_connected_non_full_node_is_not_servable sh r current"
    unfolding recently_connected_non_full_node_is_not_servable_def Let_def
    by (rule none) (simp add: test_book_simps)
  show "recently_connected_inbound_peer_is_not_servable sh r current"
    unfolding recently_connected_inbound_peer_is_not_servable_def Let_def
    by (rule none) (simp add: test_book_simps)
  have "nothing_served (book_snapshot sh r False [new_connected (test_peer 1 2 3 4 1234) True False current] current current)"
    by (rule none) (simp add: test_book_simps)
  then show "responded_peer_on_wrong_port_is_not_servable sh r current"
    by (simp add: responded_peer_on_wrong_port_is_not_servable_def nothing_served_def Let_def)
qed

lemma selection_of_one: "preferred_selection [a] [] out \<Longrightarrow> out = [a]"
  by (auto simp: preferred_selection_def MAX_DNS_RESPONSE_PEERS_def)

lemma connected_peer_admitted:
  "classify_peer pinned_zebra test_book_api book (new_connected (test_peer 1 2 3 4 8233) True False v) () False v = Inr ()"
proof -
  have "servable (peer_attributes_of pinned_zebra test_book_api book
      (new_connected (test_peer 1 2 3 4 8233) True False v) () False v)"
    by (simp add: servable_unfold routable_def test_book_simps word_le_nat_alt)
  then show ?thesis by (simp add: classify_peer_servable)
qed

lemma served_peer_test_passes:
  assumes "is_shuffle sh"
  shows "recently_connected_full_node_is_servable sh r current"
proof -
  let ?book = "[new_connected (test_peer 1 2 3 4 8233) True False current]"
  have "ab_peers test_book_api ?book = ?book"
    "ma_addr test_book_api (hd ?book) = test_peer 1 2 3 4 8233"
    "at_target test_book_api current (hd ?book)" "is_ipv4 (sa_ip (test_peer 1 2 3 4 8233))"
    by (simp_all add: test_book_api_def new_connected_def at_target_def test_peer_def)
  then have "preferred_selection [test_peer 1 2 3 4 8233] []
      (sp_ipv4 (book_snapshot sh r False ?book current current))"
    using book_snapshot_served[OF assms, of ?book False current current r]
    by (simp add: served_from_def connected_peer_admitted Let_def)
  from selection_of_one[OF this] show ?thesis
    by (simp add: recently_connected_full_node_is_servable_def test_peer_def)
qed

section \<open>The two tiers of a response\<close>

fun first_octet :: "peer_addr \<Rightarrow> u8" where
  "first_octet a = (case sa_ip a of V4 (Ipv4Addr o1 _ _ _) \<Rightarrow> o1 | V6 _ \<Rightarrow> 0)"

definition connected_host :: "u8 \<Rightarrow> u16 \<Rightarrow> version \<Rightarrow> nat \<Rightarrow> test_meta" where
  "connected_host octet port version host =
     new_connected (test_peer octet 1 1 (of_nat host) port) True False version"

definition target_version_peers_fill_dns_responses_before_fallback_peers ::
  "('r, peer_addr) shuffler \<Rightarrow> 'r \<Rightarrow> bool" where
  "target_version_peers_fill_dns_responses_before_fallback_peers sh r \<longleftrightarrow>
     (let previous_version = 170150; target_version = 170160;
          book = concat (map (\<lambda>host. [connected_host 20 8233 target_version host,
                   connected_host 30 8233 previous_version host]) [1..<31]);
          peers = book_snapshot sh r False book previous_version target_version
      in length (sp_ipv4 peers) = MAX_DNS_RESPONSE_PEERS \<and>
         list_all (\<lambda>addr. first_octet addr = 20) (sp_ipv4 peers))"

definition fallback_peers_top_up_a_sparse_target_version_tier :: "('r, peer_addr) shuffler \<Rightarrow> 'r \<Rightarrow> bool" where
  "fallback_peers_top_up_a_sparse_target_version_tier sh r \<longleftrightarrow>
     (let previous_version = 170150; target_version = 170160;
          book = map (connected_host 20 8233 target_version) [1..<6] @
            map (connected_host 30 8233 previous_version) [1..<26];
          peers = book_snapshot sh r False book previous_version target_version;
          target_version_count = length (filter (\<lambda>addr. first_octet addr = 20) (sp_ipv4 peers))
      in length (sp_ipv4 peers) = MAX_DNS_RESPONSE_PEERS \<and> target_version_count = 5)"

definition testnet_target_version_peers_fill_dns_responses_before_fallback_peers ::
  "('r, peer_addr) shuffler \<Rightarrow> 'r \<Rightarrow> bool" where
  "testnet_target_version_peers_fill_dns_responses_before_fallback_peers sh r \<longleftrightarrow>
     (let unservable_version = 170150; previous_version = 170160; target_version = 170180;
          book_with = (\<lambda>target_peers. concat (map (\<lambda>(octet, count, version).
              map (connected_host octet 18233 version) [1..<Suc count])
            [(20, target_peers, target_version), (30, 14, previous_version), (40, 1, unservable_version)]));
          first_octets = (\<lambda>book. map first_octet (sp_ipv4 (book_snapshot sh r True book previous_version target_version)));
          full = first_octets (book_with 30);
          sparse = first_octets (book_with 10)
      in length full = MAX_DNS_RESPONSE_PEERS \<and> list_all (\<lambda>octet. octet = 20) full \<and>
         length sparse = 24 \<and> list_all (\<lambda>octet. octet = 20) (take 10 sparse) \<and>
         list_all (\<lambda>octet. octet = 30) (drop 10 sparse))"

lemma replicate_selection:
  assumes "preferred_selection (replicate m x) (replicate n y) out"
  shows "out = take 25 (replicate m x @ replicate n y)"
proof -
  have same: "zs = replicate k z" if "mset zs = mset (replicate k z)" for zs :: "'a list" and k z
    using mset_eq_length[OF that] mset_eq_setD[OF that]
    by (intro replicate_eqI) (auto split: if_splits)
  from assms obtain ts fs where "mset ts = mset (replicate m x)" "mset fs = mset (replicate n y)"
    and out: "out = take 25 (ts @ fs)"
    unfolding preferred_selection_def MAX_DNS_RESPONSE_PEERS_def by blast
  from same[OF this(1)] same[OF this(2)] show ?thesis by (simp only: out)
qed

lemma connected_host_admitted:
  assumes "octet \<in> {20, 30, 40}" "port = zb_default_port pinned_zebra network"
  shows "classify_peer pinned_zebra test_book_api book (connected_host octet port version host) () network v = Inr () \<longleftrightarrow>
    v \<le> version"
proof -
  have "routable (V4 (Ipv4Addr octet 1 1 h))" for h
    using assms(1) by (auto simp: routable_def word_le_nat_alt)
  then show ?thesis
    unfolding classify_peer_servable servable_unfold
    using assms(2) by (simp add: connected_host_def peer_attributes_of_def test_book_api_def new_connected_def
        test_peer_def pinned_zebra_simps)
qed

lemma tier_append:
  "tier z api book now network v target f q (xs @ ys) =
     tier z api book now network v target f q xs @ tier z api book now network v target f q ys"
  by (simp add: tier_def)

lemma tier_hosts:
  assumes "octet \<in> {20, 30, 40}" "port = zb_default_port pinned_zebra network"
  shows "tier pinned_zebra test_book_api book () network v target True q (map (connected_host octet port version) hosts) =
    (if v \<le> version \<and> (target \<le> version) = q then map (\<lambda>h. test_peer octet 1 1 (of_nat h) port) hosts else [])"
proof (induction hosts)
  case (Cons h hosts)
  have "ma_addr test_book_api (connected_host octet port version h) = test_peer octet 1 1 (of_nat h) port"
    "at_target test_book_api target (connected_host octet port version h) \<longleftrightarrow> target \<le> version"
    by (simp_all add: test_book_api_def connected_host_def new_connected_def at_target_def)
  with Cons show ?case
    by (simp add: connected_host_admitted[OF assms] test_peer_def)
qed simp

text \<open>The octets that a snapshot of hosts at the target and hosts below it serves.\<close>

lemma served_octets:
  assumes "is_shuffle sh"
    and "tier pinned_zebra test_book_api book () network v target True True book = map (\<lambda>h. test_peer a 1 1 (of_nat h) port) hosts"
    and "tier pinned_zebra test_book_api book () network v target True False book = map (\<lambda>h. test_peer b 1 1 (of_nat h) port) hosts'"
  shows "map first_octet (sp_ipv4 (book_snapshot sh r network book v target)) =
    take 25 (replicate (length hosts) a @ replicate (length hosts') b)"
proof -
  have octets: "map first_octet (map (\<lambda>h. test_peer o1 1 1 (of_nat h) port) hs) = replicate (length hs) o1" for o1 and hs :: "nat list"
    by (simp add: test_peer_def o_def map_replicate_const)
  have "ab_peers test_book_api book = book" by (simp add: test_book_api_def)
  then have "preferred_selection (map (\<lambda>h. test_peer a 1 1 (of_nat h) port) hosts)
      (map (\<lambda>h. test_peer b 1 1 (of_nat h) port) hosts') (sp_ipv4 (book_snapshot sh r network book v target))"
    using book_snapshot_served[OF assms(1), of book network v target r]
    by (simp add: served_from_def assms(2,3) Let_def)
  from selection_map[OF this, of first_octet] show ?thesis
    unfolding octets by (rule replicate_selection)
qed

lemma tier_interleaved:
  assumes "a \<in> {20, 30, 40}" "b \<in> {20, 30, 40}" "port = zb_default_port pinned_zebra network"
    and "v \<le> older" "older < target" "target \<le> newer"
  shows "tier pinned_zebra test_book_api book () network v target True q (concat (map (\<lambda>host.
      [connected_host a port newer host, connected_host b port older host]) hosts)) =
    map (\<lambda>h. test_peer (if q then a else b) 1 1 (of_nat h) port) hosts"
proof (induction hosts)
  case (Cons h hosts)
  have "v \<le> newer" "\<not> target \<le> older" using assms(4-6) by auto
  then have "tier pinned_zebra test_book_api book () network v target True q (map (connected_host a port newer) [h] @
      map (connected_host b port older) [h]) = [test_peer (if q then a else b) 1 1 (of_nat h) port]"
    using assms by (simp only: tier_append tier_hosts) simp
  with Cons tier_append[of pinned_zebra test_book_api book "()" network v target True q
      "map (connected_host a port newer) [h] @ map (connected_host b port older) [h]"] show ?case by simp
qed simp

lemma map_replicate_all:
  assumes "map f xs = replicate n y"
  shows "length xs = n \<and> list_all (\<lambda>x. f x = y) xs"
proof -
  have "length xs = n" using arg_cong[OF assms, of length] by simp
  moreover have "f ` set xs \<subseteq> {y}" using arg_cong[OF assms, of set] by (auto split: if_splits)
  ultimately show ?thesis by (auto simp: list_all_iff)
qed

lemma tier_test_passes:
  assumes "is_shuffle sh"
  shows "target_version_peers_fill_dns_responses_before_fallback_peers sh r"
proof -
  let ?book = "concat (map (\<lambda>host. [connected_host 20 8233 170160 host, connected_host 30 8233 170150 host]) [1..<31])"
  have "map first_octet (sp_ipv4 (book_snapshot sh r False ?book 170150 170160)) =
      take 25 (replicate (length [1..<31 :: nat]) 20 @ replicate (length [1..<31 :: nat]) 30)"
    by (rule served_octets[OF assms, where port = 8233]; subst tier_interleaved; simp add: pinned_zebra_simps)
  also have "\<dots> = replicate 25 20" by simp
  finally have octets: "map first_octet (sp_ipv4 (book_snapshot sh r False ?book 170150 170160)) = replicate 25 20" .
  from map_replicate_all[OF octets] show ?thesis
    unfolding target_version_peers_fill_dns_responses_before_fallback_peers_def Let_def MAX_DNS_RESPONSE_PEERS_def .
qed

lemma top_up_test_passes:
  assumes "is_shuffle sh"
  shows "fallback_peers_top_up_a_sparse_target_version_tier sh r"
proof -
  let ?book = "map (connected_host 20 8233 170160) [1..<6] @ map (connected_host 30 8233 170150) [1..<26]"
  have octets: "map first_octet (sp_ipv4 (book_snapshot sh r False ?book 170150 170160)) =
      take 25 (replicate (length [1..<6 :: nat]) 20 @ replicate (length [1..<26 :: nat]) 30)"
    by (rule served_octets[OF assms, where port = 8233]; simp only: tier_append; subst (1 2) tier_hosts; simp add: pinned_zebra_simps)
  have count: "length (filter (\<lambda>addr. first_octet addr = 20) xs) = length (filter (\<lambda>o1. o1 = 20) (map first_octet xs))" for xs
    by (simp add: filter_map o_def)
  have "length (filter (\<lambda>addr. first_octet addr = 20) (sp_ipv4 (book_snapshot sh r False ?book 170150 170160))) = 5"
    unfolding count octets by simp
  moreover have "length (sp_ipv4 (book_snapshot sh r False ?book 170150 170160)) = 25"
    using arg_cong[OF octets, of length] by simp
  ultimately show ?thesis
    unfolding fallback_peers_top_up_a_sparse_target_version_tier_def Let_def MAX_DNS_RESPONSE_PEERS_def by blast
qed

lemma testnet_tier_test_passes:
  assumes "is_shuffle sh"
  shows "testnet_target_version_peers_fill_dns_responses_before_fallback_peers sh r"
proof -
  let ?book = "\<lambda>t. concat (map (\<lambda>(octet, count, version). map (connected_host octet 18233 version) [1..<Suc count])
    [(20, t, 170180), (30, 14, 170160), (40, 1, 170150)])"
  let ?octets = "\<lambda>t. map first_octet (sp_ipv4 (book_snapshot sh r True (?book t) 170160 170180))"
  have book: "?book t = map (connected_host 20 18233 170180) [1..<Suc t] @ map (connected_host 30 18233 170160) [1..<Suc 14] @
      map (connected_host 40 18233 170150) [1..<Suc 1]" for t
    by (simp only: list.map concat.simps prod.case append_Nil2)
  have octets: "?octets t = take 25 (replicate (length [1..<Suc t]) 20 @ replicate (length [1..<Suc 14]) 30)" for t
    unfolding book
    by (rule served_octets[OF assms, where port = 18233]; simp only: tier_append;
        simp only: tier_hosts pinned_zebra_simps insert_iff simp_thms if_True; simp)
  have full: "?octets 30 = replicate 25 20" unfolding octets by simp
  have sparse: "?octets 10 = replicate 10 20 @ replicate 14 30" unfolding octets by simp
  show ?thesis
    unfolding testnet_target_version_peers_fill_dns_responses_before_fallback_peers_def Let_def full sparse
    by (simp add: MAX_DNS_RESPONSE_PEERS_def list_all_iff)
qed

end
