(* ===== verification/Config_Layer_Tests.thy ===== *)
theory Config_Layer_Tests
  imports Config_Values "HOL-Library.AList"
begin

text \<open>
  The unit tests of \<open>src/config.rs\<close> that load a configuration file and the environment, translated:
  the sources of \<open>load_with_env\<close> are layered by a sample of the config crate, deserialized as
  \<open>serde\<close> does and validated. A test is a predicate over that load, and the model passes it.
\<close>

section \<open>A sample of the config crate\<close>

text \<open>
  Its documented behaviour: a source is a set of values at paths, set in the tree one after the
  other; an environment variable with the prefix is a path in lower case, split at the separator,
  whose value is a list where the path is one of the list keys, a number where it reads as one, and
  a text otherwise.
\<close>

fun set_path :: "string list \<Rightarrow> config_value \<Rightarrow> config_value \<Rightarrow> config_value" where
  "set_path [] v old = v"
| "set_path (key # path) v old =
     (let entries = (case old of TableValue t \<Rightarrow> t | _ \<Rightarrow> []);
          child = (case map_of entries key of Some child \<Rightarrow> child | None \<Rightarrow> NilValue)
      in TableValue (AList.update key (set_path path v child) entries))"

fun split_at :: "string \<Rightarrow> nat \<Rightarrow> string \<Rightarrow> string list" where
  "split_at sep skip [] = [[]]"
| "split_at sep (Suc skip) (c # s) = split_at sep skip s"
| "split_at sep 0 (c # s) =
     (if take (length sep) (c # s) = sep then [] # split_at sep (length sep - 1) s
      else case split_at sep 0 s of [] \<Rightarrow> [[c]] | w # ws \<Rightarrow> (c # w) # ws)"

definition parse_value :: "string \<Rightarrow> config_value" where
  "parse_value s = (if s \<noteq> [] \<and> list_all (\<lambda>c. c \<in> set ''0123456789'') s then IntValue (int (read_nat s)) else TextValue s)"

definition env_setting ::
  "string \<Rightarrow> string \<Rightarrow> string \<Rightarrow> string list \<Rightarrow> bool \<Rightarrow> string \<times> string \<Rightarrow> (string list \<times> config_value) option" where
  "env_setting pre sep list_sep list_keys parsing = (\<lambda>(key, value).
     let key = map lower_char key; lead = map lower_char pre @ sep in
     if take (length lead) key \<noteq> lead then None
     else let path = split_at sep 0 (drop (length lead) key) in
       Some (path,
         if parsing \<and> path \<in> set (map (split_at ''.'' 0) list_keys) then ListValue (map TextValue (split_at list_sep 0 value))
         else if parsing then parse_value value else TextValue value))"

fun add_layer ::
  "(string \<times> string) list \<Rightarrow> (path \<Rightarrow> (string list \<times> config_value) list) \<Rightarrow> config_value \<Rightarrow> config_source \<Rightarrow> config_value" where
  "add_layer env files tree (Defaults c) = serialize_config c"
| "add_layer env files tree (TomlFile path) = foldl (\<lambda>tree (p, v). set_path p v tree) tree (files path)"
| "add_layer env files tree (EnvironmentVars pre sep list_sep list_keys parsing) =
     foldl (\<lambda>tree (p, v). set_path p v tree) tree
       (List.map_filter (env_setting pre sep list_sep list_keys parsing) env)"

definition test_addrs :: "(string \<times> socket_addr) list" where
  "test_addrs =
     [(''0.0.0.0:53'', mk_addr UNSPECIFIED_V4 53), (''0.0.0.0:1053'', mk_addr UNSPECIFIED_V4 1053),
      (''0.0.0.0:9999'', mk_addr UNSPECIFIED_V4 9999), (''0.0.0.0:8080'', mk_addr UNSPECIFIED_V4 8080),
      (''127.0.0.1:1053'', mk_addr (V4 (Ipv4Addr 127 0 0 1)) 1053),
      (''127.0.0.1:9999'', mk_addr (V4 (Ipv4Addr 127 0 0 1)) 9999),
      (''127.0.0.1:8080'', mk_addr (V4 (Ipv4Addr 127 0 0 1)) 8080)]"

definition load_layers ::
  "(string \<times> string) list \<Rightarrow> (string list \<times> config_value) list option \<Rightarrow> string list config_error + seeder_config" where
  "load_layers env file =
     load_with_env sample_hickory
       (tree_resolver (sample_reader test_addrs) (\<lambda>_. ''invalid'')
          (\<lambda>sources. Inr (foldl (add_layer env (\<lambda>_. case file of Some f \<Rightarrow> f | None \<Rightarrow> [])) NilValue sources)))
       (map_option (\<lambda>_. [''config.toml'']) file)"


section \<open>The tests\<close>

text \<open>The settings of \<open>MAINNET_ZONE_TOML\<close>, and what an \<open>assert\<close> on a loaded configuration asks.\<close>

definition MAINNET_ZONE_TOML :: "(string list \<times> config_value) list" where
  "MAINNET_ZONE_TOML =
     [([''zones'', ''mainnet'', ''domain''], TextValue ''mainnet.seeder.example.com''),
      ([''zones'', ''mainnet'', ''nameserver''], TextValue ''ns-mainnet.seeder.example.com''),
      ([''zones'', ''mainnet'', ''ttl''], IntValue 600)]"

definition loaded_with :: "string list config_error + seeder_config \<Rightarrow> (seeder_config \<Rightarrow> bool) \<Rightarrow> bool" where
  "loaded_with result holds = (case result of Inl _ \<Rightarrow> False | Inr config \<Rightarrow> holds config)"

definition zone_of_network :: "zcash_network \<Rightarrow> seeder_config \<Rightarrow> zone_config option" where
  "zone_of_network network config = sc_zones config network"

definition single_mainnet_env :: "string \<Rightarrow> string \<Rightarrow> (string \<times> string) list" where
  "single_mainnet_env extra_key extra_value =
     [(''ZEEDER__ZONES__MAINNET__DOMAIN'', ''mainnet.seeder.example.com''),
      (''ZEEDER__ZONES__MAINNET__NAMESERVER'', ''ns-mainnet.seeder.example.com''),
      (extra_key, extra_value)]"

definition loads_multi_zone_toml_config_file :: bool where
  "loads_multi_zone_toml_config_file \<longleftrightarrow>
     loaded_with (load_layers [] (Some
       [([''dns'', ''listen_addr''], TextValue ''127.0.0.1:1053''),
        ([''zones'', ''mainnet'', ''domain''], TextValue ''mainnet.seeder.example.com''),
        ([''zones'', ''mainnet'', ''nameserver''], TextValue ''ns-mainnet.seeder.example.com''),
        ([''zones'', ''mainnet'', ''additional_nameservers''],
           ListValue [TextValue ''ns2-mainnet.seeder.example.com'', TextValue ''ns3-mainnet.seeder.example.com'']),
        ([''zones'', ''mainnet'', ''ttl''], IntValue 600),
        ([''zones'', ''testnet'', ''domain''], TextValue ''testnet.seeder.example.com''),
        ([''zones'', ''testnet'', ''nameserver''], TextValue ''ns-testnet.seeder.example.com''),
        ([''zones'', ''testnet'', ''additional_nameservers''], ListValue [TextValue ''ns2-testnet.seeder.example.com'']),
        ([''zones'', ''testnet'', ''ttl''], IntValue 300),
        ([''rate_limit'', ''queries_per_second''], IntValue 50),
        ([''rate_limit'', ''burst_size''], IntValue 100),
        ([''metrics'', ''endpoint_addr''], TextValue ''127.0.0.1:9999'')])) (\<lambda>config.
       show_socket_addr (dc_listen_addr (sc_dns config)) = ''127.0.0.1:1053'' \<and>
       length (btree_iter (sc_zones config)) = 2 \<and>
       map_option (\<lambda>zone. (zc_domain zone, length (zc_additional_nameservers zone), zc_ttl zone))
         (zone_of_network Mainnet config) = Some (''mainnet.seeder.example.com'', 2, 600) \<and>
       map_option zc_ttl (zone_of_network Testnet config) = Some 300 \<and>
       map_option (\<lambda>rl. (rl_queries_per_second rl, rl_burst_size rl)) (sc_rate_limit config) = Some (50, 100))"

definition env_parses_additional_nameservers_as_a_list :: bool where
  "env_parses_additional_nameservers_as_a_list \<longleftrightarrow>
     loaded_with (load_layers
       [(''ZEEDER__ZONES__MAINNET__DOMAIN'', ''mainnet.seeder.example.com''),
        (''ZEEDER__ZONES__MAINNET__NAMESERVER'', ''ns1.seeder.example.com''),
        (''ZEEDER__ZONES__MAINNET__ADDITIONAL_NAMESERVERS'', ''ns2.seeder.example.com,ns3.seeder.example.com'')] None) (\<lambda>config.
       map_option zc_additional_nameservers (zone_of_network Mainnet config) =
         Some [''ns2.seeder.example.com'', ''ns3.seeder.example.com''])"

definition env_populates_and_overrides_zones :: bool where
  "env_populates_and_overrides_zones \<longleftrightarrow>
     loaded_with (load_layers
       [(''ZEEDER__ZONES__MAINNET__DOMAIN'', ''override.seeder.example.com''),
        (''ZEEDER__ZONES__TESTNET__DOMAIN'', ''testnet.seeder.example.com''),
        (''ZEEDER__ZONES__TESTNET__NAMESERVER'', ''ns-testnet.seeder.example.com''),
        (''ZEEDER__ZONES__TESTNET__TTL'', ''300'')] (Some MAINNET_ZONE_TOML)) (\<lambda>config.
       map_option zc_domain (zone_of_network Mainnet config) = Some ''override.seeder.example.com'' \<and>
       map_option zc_domain (zone_of_network Testnet config) = Some ''testnet.seeder.example.com'')"

definition unknown_zone_field_is_rejected :: bool where
  "unknown_zone_field_is_rejected \<longleftrightarrow>
     \<not> is_ok (load_layers
       [(''ZEEDER__ZONES__MAINNET__DOMAIN'', ''mainnet.seeder.example.com''),
        (''ZEEDER__ZONES__MAINNET__NAMESERVER'', ''ns-mainnet.seeder.example.com''),
        (''ZEEDER__ZONES__MAINNET__TTTL'', ''600'')] None)"

definition flat_dns_env_key_is_rejected :: bool where
  "flat_dns_env_key_is_rejected \<longleftrightarrow> \<not> is_ok (load_layers (single_mainnet_env ''ZEEDER__DNS_TTL'' ''300'') None)"

definition upstream_network_env_key_is_rejected :: bool where
  "upstream_network_env_key_is_rejected \<longleftrightarrow>
     \<not> is_ok (load_layers (single_mainnet_env ''ZEEDER__NETWORK__NETWORK'' ''Testnet'') None)"

definition zebra_namespace_env_key_is_ignored :: bool where
  "zebra_namespace_env_key_is_ignored \<longleftrightarrow>
     loaded_with (load_layers (single_mainnet_env ''ZEBRA_NETWORK__NETWORK'' ''Testnet'') None) (\<lambda>config.
       length (btree_iter (sc_zones config)) = 1 \<and> zone_of_network Mainnet config \<noteq> None)"

definition unknown_metrics_env_key_is_rejected :: bool where
  "unknown_metrics_env_key_is_rejected \<longleftrightarrow>
     \<not> is_ok (load_layers (single_mainnet_env ''ZEEDER__METRICS__ENDPOINT_ADRR'' ''127.0.0.1:0'') None)"

definition metrics_endpoint_env_enables_metrics :: bool where
  "metrics_endpoint_env_enables_metrics \<longleftrightarrow>
     loaded_with (load_layers (single_mainnet_env ''ZEEDER__METRICS__ENDPOINT_ADDR'' ''127.0.0.1:9999'') None) (\<lambda>config.
       map_option (\<lambda>metrics. show_socket_addr (mc_endpoint_addr metrics)) (sc_metrics config) = Some ''127.0.0.1:9999'')"

definition health_endpoint_env_enables_health :: bool where
  "health_endpoint_env_enables_health \<longleftrightarrow>
     loaded_with (load_layers (single_mainnet_env ''ZEEDER__HEALTH__ENDPOINT_ADDR'' ''127.0.0.1:8080'') None) (\<lambda>config.
       map_option (\<lambda>health. (show_socket_addr (hc_endpoint_addr health), hc_ready_threshold health)) (sc_health config) =
         Some (''127.0.0.1:8080'', 1))"

definition per_zone_ttl_from_env :: bool where
  "per_zone_ttl_from_env \<longleftrightarrow>
     loaded_with (load_layers
       [(''ZEEDER__ZONES__TESTNET__DOMAIN'', ''testnet.seeder.example.com''),
        (''ZEEDER__ZONES__TESTNET__NAMESERVER'', ''ns-testnet.seeder.example.com''),
        (''ZEEDER__ZONES__TESTNET__TTL'', ''300'')] None) (\<lambda>config.
       map_option zc_ttl (zone_of_network Testnet config) = Some 300)"

text \<open>The keys of \<open>.env.example\<close>, in its order, are the supported ones.\<close>

definition env_example_overrides :: "string list" where
  "env_example_overrides =
     [''ZEEDER__DNS__LISTEN_ADDR'',
      ''ZEEDER__ZONES__MAINNET__DOMAIN'', ''ZEEDER__ZONES__MAINNET__NAMESERVER'',
      ''ZEEDER__ZONES__MAINNET__ADDITIONAL_NAMESERVERS'', ''ZEEDER__ZONES__MAINNET__TTL'',
      ''ZEEDER__ZONES__TESTNET__DOMAIN'', ''ZEEDER__ZONES__TESTNET__NAMESERVER'',
      ''ZEEDER__ZONES__TESTNET__ADDITIONAL_NAMESERVERS'', ''ZEEDER__ZONES__TESTNET__TTL'',
      ''ZEEDER__METRICS__ENDPOINT_ADDR'', ''ZEEDER__HEALTH__ENDPOINT_ADDR'',
      ''ZEEDER__RATE_LIMIT__QUERIES_PER_SECOND'', ''ZEEDER__RATE_LIMIT__BURST_SIZE'']"

definition env_example :: "(string \<times> string) list" where
  "env_example =
     [(''ZEEDER__DNS__LISTEN_ADDR'', ''0.0.0.0:1053''),
      (''ZEEDER__ZONES__MAINNET__DOMAIN'', ''mainnet.seeder.example.com''),
      (''ZEEDER__ZONES__MAINNET__NAMESERVER'', ''ns-mainnet.seeder.example.com''),
      (''ZEEDER__ZONES__MAINNET__ADDITIONAL_NAMESERVERS'', ''ns2-mainnet.seeder.example.com,ns3-mainnet.seeder.example.com''),
      (''ZEEDER__ZONES__MAINNET__TTL'', ''600''),
      (''ZEEDER__ZONES__TESTNET__DOMAIN'', ''testnet.seeder.example.com''),
      (''ZEEDER__ZONES__TESTNET__NAMESERVER'', ''ns-testnet.seeder.example.com''),
      (''ZEEDER__ZONES__TESTNET__ADDITIONAL_NAMESERVERS'', ''ns2-testnet.seeder.example.com,ns3-testnet.seeder.example.com''),
      (''ZEEDER__ZONES__TESTNET__TTL'', ''300''),
      (''ZEEDER__METRICS__ENDPOINT_ADDR'', ''0.0.0.0:9999''),
      (''ZEEDER__HEALTH__ENDPOINT_ADDR'', ''0.0.0.0:8080''),
      (''ZEEDER__RATE_LIMIT__QUERIES_PER_SECOND'', ''10''),
      (''ZEEDER__RATE_LIMIT__BURST_SIZE'', ''20'')]"

definition env_example_loads_with_supported_config_keys :: bool where
  "env_example_loads_with_supported_config_keys \<longleftrightarrow>
     map fst env_example = env_example_overrides \<and>
     loaded_with (load_layers env_example None) (\<lambda>config.
       show_socket_addr (dc_listen_addr (sc_dns config)) = ''0.0.0.0:1053'' \<and>
       map_option zc_domain (zone_of_network Mainnet config) = Some ''mainnet.seeder.example.com'' \<and>
       map_option (\<lambda>zone. (zc_domain zone, zc_ttl zone)) (zone_of_network Testnet config) =
         Some (''testnet.seeder.example.com'', 300))"

lemma file_test_passes: "loads_multi_zone_toml_config_file"
  by code_simp

lemma zone_tests_pass:
  "env_parses_additional_nameservers_as_a_list" "env_populates_and_overrides_zones" "per_zone_ttl_from_env"
  by code_simp+

lemma namespace_test_passes: "zebra_namespace_env_key_is_ignored"
  by code_simp

text \<open>The texts of the addresses are computed apart from the loads.\<close>

lemma shown_endpoints:
  "show_socket_addr (mk_addr (V4 (Ipv4Addr 127 0 0 1)) 9999) = ''127.0.0.1:9999''"
  "show_socket_addr (mk_addr (V4 (Ipv4Addr 127 0 0 1)) 8080) = ''127.0.0.1:8080''"
  by (simp_all add: show_socket_addr_def show_ipv4_def show_nat.simps digit_char_def digit_chars)

lemma loaded_with_mono: "loaded_with r P \<Longrightarrow> (\<And>c. P c \<Longrightarrow> Q c) \<Longrightarrow> loaded_with r Q"
  by (auto simp: loaded_with_def split: sum.splits)

lemma metrics_test_passes: "metrics_endpoint_env_enables_metrics"
proof -
  have "loaded_with (load_layers (single_mainnet_env ''ZEEDER__METRICS__ENDPOINT_ADDR'' ''127.0.0.1:9999'') None)
      (\<lambda>c. sc_metrics c = Some \<lparr>mc_endpoint_addr = mk_addr (V4 (Ipv4Addr 127 0 0 1)) 9999\<rparr>)"
    by code_simp
  then show ?thesis
    unfolding metrics_endpoint_env_enables_metrics_def by (rule loaded_with_mono) (simp add: shown_endpoints)
qed

lemma health_test_passes: "health_endpoint_env_enables_health"
proof -
  have "loaded_with (load_layers (single_mainnet_env ''ZEEDER__HEALTH__ENDPOINT_ADDR'' ''127.0.0.1:8080'') None)
      (\<lambda>c. sc_health c = Some \<lparr>hc_endpoint_addr = mk_addr (V4 (Ipv4Addr 127 0 0 1)) 8080, hc_ready_threshold = 1\<rparr>)"
    by code_simp
  then show ?thesis
    unfolding health_endpoint_env_enables_health_def by (rule loaded_with_mono) (simp add: shown_endpoints)
qed

lemma rejection_tests_pass:
  "unknown_zone_field_is_rejected" "flat_dns_env_key_is_rejected" "upstream_network_env_key_is_rejected"
  "unknown_metrics_env_key_is_rejected"
  by code_simp+

lemma example_test_passes: "env_example_loads_with_supported_config_keys"
  by code_simp

end
