(* ===== verification/Config_Tests.thy ===== *)
theory Config_Tests
  imports Health_Endpoint
begin

text \<open>
  The unit tests at the end of \<open>src/config.rs\<close> and \<open>src/health.rs\<close>, translated, with the proofs
  that the model passes them. A test of \<open>config.rs\<close> sets environment variables; here the resolver,
  which stands for the config crate, returns the configuration that they describe. The tests of
  what the layered sources say are in \<open>Config_Layer_Tests\<close>, those of the documents in
  \<open>Document_Tests\<close>.
\<close>

section \<open>Configuration\<close>

definition test_default_config :: bool where
  "test_default_config \<longleftrightarrow>
     (let config = seeder_config_default
      in dc_listen_addr (sc_dns config) = mk_addr (V4 (Ipv4Addr 0 0 0 0)) 53 \<and> btree_iter (sc_zones config) = [])"

definition test_rate_limit_default :: bool where
  "test_rate_limit_default \<longleftrightarrow>
     map_option (\<lambda>rl. (rl_queries_per_second rl, rl_burst_size rl)) (sc_rate_limit seeder_config_default) =
       Some (10, 20)"

definition test_network_config_ports_match_their_network :: "('net, 'cache) zebra \<Rightarrow> bool" where
  "test_network_config_ports_match_their_network z \<longleftrightarrow>
     sa_port (nc_listen_addr (network_config z Mainnet)) = zb_default_port z (zb_mainnet z) \<and>
     sa_port (nc_listen_addr (network_config z Testnet)) = zb_default_port z (zb_default_testnet z) \<and>
     nc_external_addr (network_config z Mainnet) = None \<and>
     nc_max_connections_per_ip (network_config z Mainnet) = 1"

definition loaded_zones :: "(zcash_network \<rightharpoonup> zone_config) \<Rightarrow> string list config_error + seeder_config" where
  "loaded_zones zones = load_with_env sample_hickory (\<lambda>_. Inr (seeder_config_default\<lparr>sc_zones := zones\<rparr>)) None"

definition env_zone :: "string \<Rightarrow> string \<Rightarrow> string list \<Rightarrow> zone_config" where
  "env_zone domain nameserver additional = zone_config_default\<lparr>zc_domain := domain, zc_nameserver := nameserver,
     zc_additional_nameservers := additional\<rparr>"

definition default_config_fails_validation_without_zones :: bool where
  "default_config_fails_validation_without_zones \<longleftrightarrow> \<not> is_ok (loaded_zones Map.empty)"

definition invalid_zone_domain_is_rejected :: bool where
  "invalid_zone_domain_is_rejected \<longleftrightarrow>
     \<not> is_ok (loaded_zones [Mainnet \<mapsto> env_zone ''not a domain'' ''ns-mainnet.seeder.example.com'' []])"

definition in_zone_nameserver_is_rejected :: bool where
  "in_zone_nameserver_is_rejected \<longleftrightarrow>
     \<not> is_ok (loaded_zones [Testnet \<mapsto> env_zone ''testnet.seeder.example.com'' ''ns.testnet.seeder.example.com'' []])"

definition in_zone_additional_nameserver_is_rejected :: bool where
  "in_zone_additional_nameserver_is_rejected \<longleftrightarrow>
     \<not> is_ok (loaded_zones [Testnet \<mapsto> env_zone ''testnet.seeder.example.com'' ''ns1.seeder.example.com''
       [''ns2.testnet.seeder.example.com'']])"

definition duplicate_nameservers_are_rejected :: bool where
  "duplicate_nameservers_are_rejected \<longleftrightarrow>
     \<not> is_ok (loaded_zones [Mainnet \<mapsto> env_zone ''mainnet.seeder.example.com'' ''ns1.seeder.example.com''
       [''NS1.SEEDER.EXAMPLE.COM.'', ''ns2.seeder.example.com'']])"

definition overlapping_zone_domains_are_rejected :: bool where
  "overlapping_zone_domains_are_rejected \<longleftrightarrow>
     \<not> is_ok (loaded_zones [Mainnet \<mapsto> env_zone ''seeder.example.com'' ''ns.example.com'' [],
       Testnet \<mapsto> env_zone ''testnet.seeder.example.com'' ''ns-testnet.example.com'' []])"

definition zero_rate_limit_is_rejected :: bool where
  "zero_rate_limit_is_rejected \<longleftrightarrow>
     \<not> is_ok (load_with_env sample_hickory (\<lambda>_. Inr (seeder_config_default\<lparr>
       sc_zones := [Mainnet \<mapsto> env_zone ''mainnet.seeder.example.com'' ''ns-mainnet.seeder.example.com'' []],
       sc_rate_limit := Some (rate_limit_config_default\<lparr>rl_queries_per_second := 0\<rparr>)\<rparr>)) None)"

lemma default_tests_pass:
  "test_default_config" "test_rate_limit_default" "test_network_config_ports_match_their_network z"
  by (simp_all add: test_default_config_def test_rate_limit_default_def
      test_network_config_ports_match_their_network_def seeder_config_default_def dns_config_default_def
      rate_limit_config_default_def UNSPECIFIED_V4_def network_config_def btree_iter_def
      List.map_filter_def Let_def)

lemma validation_tests_pass:
  "default_config_fails_validation_without_zones" "invalid_zone_domain_is_rejected"
  "in_zone_nameserver_is_rejected" "in_zone_additional_nameserver_is_rejected"
  "duplicate_nameservers_are_rejected" "overlapping_zone_domains_are_rejected" "zero_rate_limit_is_rejected"
  by code_simp+

section \<open>Health endpoint\<close>

fun has_prefix :: "'a list \<Rightarrow> 'a list \<Rightarrow> bool" where
  "has_prefix [] s = True"
| "has_prefix (c # p) [] = False"
| "has_prefix (c # p) (x # s) = (c = x \<and> has_prefix p s)"

fun has_infix :: "'a list \<Rightarrow> 'a list \<Rightarrow> bool" where
  "has_infix p [] = (p = [])"
| "has_infix p (c # s) = (has_prefix p (c # s) \<or> has_infix p s)"

definition test_peer_addr :: peer_addr where
  "test_peer_addr = mk_addr (V4 (Ipv4Addr 1 2 3 4)) 8233"

definition test_readiness :: "zcash_network \<Rightarrow> servable_peer_lists \<Rightarrow> zcash_network \<times> servable_peer_lists" where
  "test_readiness network peers = (network, peers)"

definition parses_request_path_dropping_query :: bool where
  "parses_request_path_dropping_query \<longleftrightarrow>
     parse_request_path (codes (''GET /ready HTTP/1.1'' @ crlf @ ''Host: x'' @ crlf @ crlf)) = Some (codes ''/ready'') \<and>
     parse_request_path (codes (''GET /ready?probe=1 HTTP/1.1'' @ crlf)) = Some (codes ''/ready'') \<and>
     parse_request_path (codes '''') = None"

definition ready_when_every_zone_meets_threshold :: bool where
  "ready_when_every_zone_meets_threshold \<longleftrightarrow>
     (let zones = [test_readiness Mainnet \<lparr>sp_ipv4 = [test_peer_addr], sp_ipv6 = []\<rparr>,
            test_readiness Testnet \<lparr>sp_ipv4 = [test_peer_addr], sp_ipv6 = []\<rparr>];
          response = readiness_response (\<lambda>peers. peers) zones 1
      in has_prefix ''HTTP/1.1 200 OK'' response \<and>
         has_infix ''mainnet: 1 servable peers (ready)'' response \<and>
         has_infix ''testnet: 1 servable peers (ready)'' response)"

definition not_ready_when_a_zone_is_below_threshold :: bool where
  "not_ready_when_a_zone_is_below_threshold \<longleftrightarrow>
     (let zones = [test_readiness Mainnet \<lparr>sp_ipv4 = [test_peer_addr], sp_ipv6 = []\<rparr>,
            test_readiness Testnet default_servable_peers];
          response = readiness_response (\<lambda>peers. peers) zones 1
      in has_prefix ''HTTP/1.1 503 Service Unavailable'' response \<and>
         has_infix ''testnet: 0 servable peers (not ready)'' response)"

definition http_response_sets_content_length_to_body_bytes :: bool where
  "http_response_sets_content_length_to_body_bytes \<longleftrightarrow>
     (let response = http_response 200 ''OK'' (''ok'' @ newline)
      in has_infix (''Content-Length: 3'' @ crlf) response \<and> has_prefix (rev (''ok'' @ newline)) (rev response))"

definition http_response_does_not_fold_headers :: bool where
  "http_response_does_not_fold_headers \<longleftrightarrow>
     \<not> has_infix (crlf @ '' '') (http_response 200 ''OK'' (''ok'' @ newline))"

lemma response_tests_pass:
  "ready_when_every_zone_meets_threshold" "not_ready_when_a_zone_is_below_threshold"
  "http_response_sets_content_length_to_body_bytes" "http_response_does_not_fold_headers"
  by code_simp+

lemma path_test_passes: "parses_request_path_dropping_query"
  unfolding parses_request_path_dropping_query_def
  by (simp add: parse_request_path_def first_line_def codes_def crlf_def split_whitespace.simps is_whitespace_def
      nth_opt_def)

end
