(* ===== verification/Document_Tests.thy ===== *)
theory Document_Tests
  imports Config_Tests Activation_Probe "HOL-Library.Sublist"
begin

text \<open>
  The unit tests of \<open>src/metrics.rs\<close>, \<open>src/config.rs\<close> and \<open>src/crawl/activation.rs\<close> that hold the text of
  \<open>docs/operations.md\<close> against the constants of the program, as predicates over that text. The
  lines of the document that they look for are quoted; every text with these lines in it passes.
\<close>

definition backslash :: string where "backslash = [CHR 0x5C]"
definition quote_mark :: string where "quote_mark = [CHR 0x27]"

text \<open>\<open>contains\<close> of a text, and the alternatives of a label in a cell of a table.\<close>

abbreviation in_text :: "string \<Rightarrow> string \<Rightarrow> bool" where
  "in_text part text \<equiv> sublist part text"

definition alternatives :: "string list \<Rightarrow> string" where
  "alternatives = join_with (backslash @ ''|'')"

section \<open>The tests\<close>

definition documented_terms :: "string list" where
  "documented_terms =
     [PEERS_KNOWN, PEERS_SERVABLE, PEERS_UNSERVABLE, MIN_PROTOCOL_VERSION, ACTIVATION_READY_GROUPS,
      ACTIVATION_TOTAL_GROUPS, ACTIVATION_QUALIFYING_SWEEPS, ACTIVATION_PROBES_TOTAL, ACTIVATION_CONFIRMED,
      BUILD_INFO, MUTEX_POISONING_TOTAL, DNS_RATE_LIMITED_TOTAL, DNS_ERRORS_TOTAL, DNS_QUERIES_TOTAL,
      DNS_RESPONSE_PEERS, LABEL_ADDR_FAMILY, LABEL_REASON, LABEL_RECORD_TYPE, LABEL_VERSION,
      LABEL_GIT_SHA, LABEL_NETWORK, LABEL_OUTCOME, ADDR_FAMILY_IPV4, ADDR_FAMILY_IPV6,
      RECORD_TYPE_A, RECORD_TYPE_AAAA, RECORD_TYPE_SOA, RECORD_TYPE_NS, RECORD_TYPE_OTHER]"

definition operations_docs_include_metric_contract_constants :: "string \<Rightarrow> bool" where
  "operations_docs_include_metric_contract_constants operations_docs \<longleftrightarrow>
     list_all (\<lambda>term. in_text term operations_docs) documented_terms"

definition operations_docs_describe_peer_response_metric_as_prometheus_summary :: "string \<Rightarrow> bool" where
  "operations_docs_describe_peer_response_metric_as_prometheus_summary operations_docs \<longleftrightarrow>
     in_text (''| `'' @ DNS_RESPONSE_PEERS @ ''` | Summary | `network=mainnet'' @ backslash @ ''|testnet` | Peers per response | - |'')
       operations_docs"

definition operations_docs_use_servability_vocabulary_for_peer_metrics :: "string \<Rightarrow> bool" where
  "operations_docs_use_servability_vocabulary_for_peer_metrics operations_docs \<longleftrightarrow>
     in_text (''| `'' @ PEERS_UNSERVABLE @ ''` | Gauge | `network=mainnet'' @ backslash @ ''|testnet`, `reason='' @
         ''not_routable'' @ backslash @ ''|wrong_port'' @ backslash @ ''|not_recently_live'' @ backslash @
         ''|outdated_version'' @ backslash @ ''|not_full_node'' @ backslash @ ''|inbound'' @ backslash @
         ''|misbehaving` | Unservable peers, by reason | - |'')
       operations_docs"

definition operations_docs_troubleshooting_uses_canonical_metric_names :: "string \<Rightarrow> bool" where
  "operations_docs_troubleshooting_uses_canonical_metric_names operations_docs \<longleftrightarrow>
     list_all (\<lambda>metric_name. in_text (''curl -s http://localhost:9999/metrics | grep '' @ quote_mark @ metric_name @ quote_mark)
         operations_docs)
       [PEERS_SERVABLE, PEERS_KNOWN]"

definition operations_docs_describe_liveness_and_readiness_probes :: "string \<Rightarrow> bool" where
  "operations_docs_describe_liveness_and_readiness_probes operations_docs \<longleftrightarrow>
     in_text ''dig @127.0.0.1 -p 1053 testnet.seeder.example.com SOA'' operations_docs \<and>
     in_text ''GET /health'' operations_docs \<and>
     in_text ''GET /ready'' operations_docs \<and>
     in_text ''ready_threshold'' operations_docs"

definition operations_docs_list_every_probe_outcome :: "string \<Rightarrow> bool" where
  "operations_docs_list_every_probe_outcome operations_docs \<longleftrightarrow>
     in_text (''`'' @ LABEL_OUTCOME @ ''='' @ alternatives (map outcome_label ALL_OUTCOMES) @ ''`'') operations_docs"

definition operations_docs_include_crawler_listener_firewall_ports :: "('net, 'cache) zebra \<Rightarrow> string \<Rightarrow> bool" where
  "operations_docs_include_crawler_listener_firewall_ports z operations_docs \<longleftrightarrow>
     list_all (\<lambda>port. in_text (''ufw allow '' @ show_nat (unat port) @ ''/tcp'') operations_docs)
       [zb_default_port z (zb_mainnet z), zb_default_port z (zb_default_testnet z)]"

definition expected_rows :: "string list" where
  "expected_rows =
     [''| `dns.listen_addr` | `ZEEDER__DNS__LISTEN_ADDR` | `0.0.0.0:53` | Shared DNS listener for every zone |'',
      ''| `zones.<network>.domain` | `ZEEDER__ZONES__<NETWORK>__DOMAIN` | (none) | Authoritative domain for that network |'',
      ''| `zones.<network>.nameserver` | `ZEEDER__ZONES__<NETWORK>__NAMESERVER` | (none) | Primary out-of-zone nameserver and SOA MNAME |'',
      ''| `zones.<network>.additional_nameservers` | `ZEEDER__ZONES__<NETWORK>__ADDITIONAL_NAMESERVERS` | `[]` | Comma-separated additional out-of-zone nameservers |'',
      ''| `zones.<network>.ttl` | `ZEEDER__ZONES__<NETWORK>__TTL` | `600` | DNS response TTL in seconds |'',
      ''| `rate_limit.queries_per_second` | `ZEEDER__RATE_LIMIT__QUERIES_PER_SECOND` | `10` | Max queries/sec per IP; must be greater than 0 |'',
      ''| `rate_limit.burst_size` | `ZEEDER__RATE_LIMIT__BURST_SIZE` | `20` | Burst capacity; must be greater than 0 |'',
      ''| `metrics.endpoint_addr` | `ZEEDER__METRICS__ENDPOINT_ADDR` | (disabled) | Prometheus endpoint |'',
      ''| `health.endpoint_addr` | `ZEEDER__HEALTH__ENDPOINT_ADDR` | (disabled) | Health and readiness endpoint |'',
      ''| `health.ready_threshold` | `ZEEDER__HEALTH__READY_THRESHOLD` | `1` | Servable peers per zone required for readiness |'']"

definition operations_docs_include_config_reference_rows :: "string \<Rightarrow> bool" where
  "operations_docs_include_config_reference_rows operations_docs \<longleftrightarrow>
     list_all (\<lambda>row. in_text row operations_docs) expected_rows"

section \<open>The lines of the document\<close>

definition metric_rows :: "string list" where
  "metric_rows =
     [''| `zeeder_peers_servable` | Gauge | `network=mainnet'' @ backslash @ ''|testnet`, `addr_family=v4'' @ backslash @ ''|v6` | Servable peers (recently-live, current-version, outbound, clean) | < 10 |'',
      ''| `zeeder_peers_unservable` | Gauge | `network=mainnet'' @ backslash @ ''|testnet`, `reason=not_routable'' @ backslash @ ''|wrong_port'' @ backslash @ ''|not_recently_live'' @ backslash @ ''|outdated_version'' @ backslash @ ''|not_full_node'' @ backslash @ ''|inbound'' @ backslash @ ''|misbehaving` | Unservable peers, by reason | - |'',
      ''| `zeeder_peers_known` | Gauge | `network=mainnet'' @ backslash @ ''|testnet` | Total peers in the address book | - |'',
      ''| `zeeder_min_protocol_version` | Gauge | `network=mainnet'' @ backslash @ ''|testnet` | Enforced protocol-version floor | changes only at a network upgrade |'',
      ''| `zeeder_activation_ready_groups` | Gauge | `network=mainnet'' @ backslash @ ''|testnet` | Groups qualifying in the latest in-process activation sweep | below 75% of total after confirmation height, where the floor is below the compiled target |'',
      ''| `zeeder_activation_total_groups` | Gauge | `network=mainnet'' @ backslash @ ''|testnet` | Groups sampled in the latest in-process activation sweep | < 12 after confirmation height, where the floor is below the compiled target |'',
      ''| `zeeder_activation_qualifying_sweeps` | Gauge | `network=mainnet'' @ backslash @ ''|testnet` | Consecutive qualifying in-process activation sweeps | remains < 3 after confirmation height, where the floor is below the compiled target |'',
      ''| `zeeder_activation_confirmed` | Gauge | `network=mainnet'' @ backslash @ ''|testnet` | `1` once the compiled activation target is confirmed, by observation or a persisted record; `0` while observing | `0` long after confirmation height |'',
      ''| `zeeder_activation_probes_total` | Counter | `network=mainnet'' @ backslash @ ''|testnet`, `outcome=ready'' @ backslash @ ''|connect_failed'' @ backslash @ ''|handshake_closed'' @ backslash @ ''|handshake_timeout'' @ backslash @ ''|handshake_failed'' @ backslash @ ''|below_confirmation_height'' @ backslash @ ''|outdated_version'' @ backslash @ ''|not_full_node'' @ backslash @ ''|probe_task_failed` | Activation probes by outcome; non-ready outcomes report the first unmet condition | non-`ready` outcomes dominate `increase()` over a recent window after confirmation height; any `probe_task_failed` |'',
      ''| `zeeder_build_info` | Gauge | `version`, `git_sha`, `network` | Build and network identification | - |'',
      ''| `zeeder_mutex_poisoning_total` | Counter | `network=mainnet'' @ backslash @ ''|testnet` | Mutex poisoning events | > 0 |'',
      ''| `zeeder_dns_rate_limited_total` | Counter | - | Rate-limited queries | Spike indicates attack |'',
      ''| `zeeder_dns_errors_total` | Counter | - | DNS errors | > 0 (sustained) |'',
      ''| `zeeder_dns_queries_total` | Counter | `record_type=A'' @ backslash @ ''|AAAA'' @ backslash @ ''|SOA'' @ backslash @ ''|NS'' @ backslash @ ''|other` | Total queries | - |'',
      ''| `zeeder_dns_response_peers` | Summary | `network=mainnet'' @ backslash @ ''|testnet` | Peers per response | - |'']"

definition command_lines :: "string list" where
  "command_lines =
     [''curl -s http://localhost:9999/metrics | grep '' @ quote_mark @ ''zeeder_peers_servable'' @ quote_mark,
      ''curl -s http://localhost:9999/metrics | grep '' @ quote_mark @ ''zeeder_peers_known'' @ quote_mark,
      ''dig @127.0.0.1 -p 1053 testnet.seeder.example.com SOA'',
      ''- `GET /health` returns `200` while the process is running. Use it for liveness.'',
      ''- `GET /ready` returns `200` only when every zone has at least'',
      ''  `health.ready_threshold` servable peers, otherwise `503`. The body lists each'',
      ''ufw allow 8233/tcp   # mainnet'',
      ''ufw allow 18233/tcp  # testnet'']"

definition has_operations_lines :: "string \<Rightarrow> bool" where
  "has_operations_lines text \<longleftrightarrow> (\<forall>line \<in> set (metric_rows @ command_lines @ expected_rows). in_text line text)"

lemma has_line: "has_operations_lines text \<Longrightarrow> line \<in> set (metric_rows @ command_lines @ expected_rows) \<Longrightarrow> in_text line text"
  by (simp add: has_operations_lines_def)

lemma within_line:
  assumes "has_operations_lines text" "i < length (metric_rows @ command_lines @ expected_rows)"
    and "in_text part ((metric_rows @ command_lines @ expected_rows) ! i)"
  shows "in_text part text"
  using assms(3) has_line[OF assms(1) nth_mem[OF assms(2)]] by (rule sublist_order.order_trans)

lemma terms_in_rows:
  "list_all2 (\<lambda>term i. i < length metric_rows \<and> in_text term (metric_rows ! i)) documented_terms
     [2, 0, 1, 3, 4, 5, 6, 8, 7, 9, 10, 11, 12, 13, 14, 0, 1, 13, 3, 9, 2, 8, 0, 0, 13, 13, 13, 12, 13]"
  by code_simp

lemma contract_test_passes:
  assumes "has_operations_lines text"
  shows "operations_docs_include_metric_contract_constants text"
proof -
  have "in_text term text" if "term \<in> set documented_terms" for "term"
  proof -
    from that list_all2_set1[OF terms_in_rows] obtain i where "i < length metric_rows" "in_text term (metric_rows ! i)" by blast
    then show ?thesis by (intro within_line[OF assms, of i]) (simp_all add: nth_append)
  qed
  then show ?thesis by (simp add: operations_docs_include_metric_contract_constants_def list_all_iff)
qed

text \<open>The label alternatives of the document are those of the program, in the order of its lists.\<close>

lemma rendered_labels:
  "''| `'' @ PEERS_UNSERVABLE @ ''` | Gauge | `network='' @ alternatives (map network_label [Mainnet, Testnet]) @ ''`, `'' @
     LABEL_REASON @ ''='' @ alternatives (map reason_label ALL_REASONS) @ ''` | Unservable peers, by reason | - |'' \<in> set metric_rows"
  "in_text (''`'' @ LABEL_OUTCOME @ ''='' @ alternatives (map outcome_label ALL_OUTCOMES) @ ''`'') (metric_rows ! 8)"
  by code_simp+

lemma row_tests_pass:
  assumes "has_operations_lines text"
  shows "operations_docs_describe_peer_response_metric_as_prometheus_summary text"
    and "operations_docs_use_servability_vocabulary_for_peer_metrics text"
    and "operations_docs_list_every_probe_outcome text"
    and "operations_docs_include_config_reference_rows text"
proof -
  show "operations_docs_describe_peer_response_metric_as_prometheus_summary text"
    unfolding operations_docs_describe_peer_response_metric_as_prometheus_summary_def
    by (rule has_line[OF assms]) (simp add: metric_rows_def metric_name_defs)
  show "operations_docs_use_servability_vocabulary_for_peer_metrics text"
    unfolding operations_docs_use_servability_vocabulary_for_peer_metrics_def
    by (rule has_line[OF assms]) (simp add: metric_rows_def metric_name_defs)
  show "operations_docs_list_every_probe_outcome text"
    unfolding operations_docs_list_every_probe_outcome_def
    by (rule within_line[OF assms, of 8]) (use rendered_labels(2) in \<open>simp_all add: metric_rows_def\<close>)
  show "operations_docs_include_config_reference_rows text"
    unfolding operations_docs_include_config_reference_rows_def list_all_iff
    using has_line[OF assms] by simp
qed

lemma command_tests_pass:
  assumes "has_operations_lines text"
  shows "operations_docs_troubleshooting_uses_canonical_metric_names text"
    and "operations_docs_describe_liveness_and_readiness_probes text"
    and "operations_docs_include_crawler_listener_firewall_ports pinned_zebra text"
proof -
  show "operations_docs_troubleshooting_uses_canonical_metric_names text"
    unfolding operations_docs_troubleshooting_uses_canonical_metric_names_def list_all_iff
    using has_line[OF assms] by (simp add: command_lines_def metric_name_defs)
  have parts: "in_text ''dig @127.0.0.1 -p 1053 testnet.seeder.example.com SOA'' (command_lines ! 2)"
    "in_text ''GET /health'' (command_lines ! 3)" "in_text ''GET /ready'' (command_lines ! 4)"
    "in_text ''ready_threshold'' (command_lines ! 5)" "in_text ''ufw allow 8233/tcp'' (command_lines ! 6)"
    "in_text ''ufw allow 18233/tcp'' (command_lines ! 7)"
    by code_simp+
  have "length command_lines = 8" by (simp add: command_lines_def)
  then have line: "in_text (command_lines ! i) text" if "i < 8" for i
    using that by (intro has_line[OF assms]) simp
  note inside = sublist_order.order_trans[OF _ line]
  show "operations_docs_describe_liveness_and_readiness_probes text"
    unfolding operations_docs_describe_liveness_and_readiness_probes_def
    by (intro conjI inside[OF parts(1)] inside[OF parts(2)] inside[OF parts(3)] inside[OF parts(4)]) simp_all
  have "show_nat (unat (8233 :: u16)) = ''8233''" "show_nat (unat (18233 :: u16)) = ''18233''"
    by (simp_all add: show_nat.simps digit_char_def digit_chars)
  then show "operations_docs_include_crawler_listener_firewall_ports pinned_zebra text"
    using inside[OF parts(5)] inside[OF parts(6)]
    by (simp add: operations_docs_include_crawler_listener_firewall_ports_def pinned_zebra_simps)
qed

end
