(* ===== verification/Dns_Tests.thy ===== *)
theory Dns_Tests
  imports Query_Handler
begin

text \<open>
  The unit tests at the end of \<open>src/dns/rate_limiter.rs\<close> and \<open>src/dns/request_handler.rs\<close>,
  translated, with the proofs that the model passes them. hickory and governor are the concrete
  instances of the witnesses. A feed is the snapshot that its receiver borrows, the sender of the
  tests captures every response, and all requests of a test arrive at one time of the limiter's
  clock. A test that a \<open>?\<close> makes fail is false.
\<close>

section \<open>The rate limiter\<close>

definition limiter_config :: "u32 \<Rightarrow> u32 \<Rightarrow> rate_limit_config" where
  "limiter_config queries_per_second burst_size =
     \<lparr>rl_queries_per_second = queries_per_second, rl_burst_size = burst_size\<rparr>"

text \<open>The results of checks one after the other on a new limiter.\<close>

fun checks :: "nat \<Rightarrow> nat rate_limiter \<Rightarrow> ip_addr list \<Rightarrow> bool list" where
  "checks now limiter [] = []"
| "checks now limiter (ip # ips) =
     (let (within, limiter) = check gcra now limiter ip in within # checks now limiter ips)"

definition checks_on_new :: "nat \<Rightarrow> u32 \<Rightarrow> u32 \<Rightarrow> ip_addr list \<Rightarrow> bool list option" where
  "checks_on_new now queries_per_second burst_size ips =
     (case (new_rate_limiter (limiter_config queries_per_second burst_size) :: string config_error + nat rate_limiter) of
        Inl _ \<Rightarrow> None
      | Inr limiter \<Rightarrow> Some (checks now limiter ips))"

definition test_rate_limiter_allows_normal_queries :: "nat \<Rightarrow> bool" where
  "test_rate_limiter_allows_normal_queries now \<longleftrightarrow>
     (let test_ip = V4 (Ipv4Addr 192 168 1 1) in checks_on_new now 10 20 [test_ip, test_ip] = Some [True, True])"

definition test_rate_limiter_blocks_excessive_queries :: "nat \<Rightarrow> bool" where
  "test_rate_limiter_blocks_excessive_queries now \<longleftrightarrow>
     (let test_ip = V4 (Ipv4Addr 192 168 1 2)
      in checks_on_new now 1 2 [test_ip, test_ip, test_ip] = Some [True, True, False])"

definition test_rate_limiter_per_ip_isolation :: "nat \<Rightarrow> bool" where
  "test_rate_limiter_per_ip_isolation now \<longleftrightarrow>
     (let ip1 = V4 (Ipv4Addr 192 168 1 1); ip2 = V4 (Ipv4Addr 192 168 1 2)
      in checks_on_new now 1 1 [ip1, ip1, ip2] = Some [True, False, True])"

definition test_rate_limiter_ipv6_support :: "nat \<Rightarrow> bool" where
  "test_rate_limiter_ipv6_support now \<longleftrightarrow>
     checks_on_new now 10 20 [V6 (Ipv6Addr 0x2001 0x0db8 0 0 0 0 0 1)] = Some [True]"

definition zero_rate_limit_config_is_rejected :: bool where
  "zero_rate_limit_config_is_rejected \<longleftrightarrow>
     \<not> is_ok (new_rate_limiter (limiter_config 0 20) :: string config_error + nat rate_limiter)"

lemma limiter_tests_pass:
  "test_rate_limiter_allows_normal_queries now" "test_rate_limiter_blocks_excessive_queries now"
  "test_rate_limiter_per_ip_isolation now" "test_rate_limiter_ipv6_support now"
  "zero_rate_limit_config_is_rejected"
  by (simp_all add: test_rate_limiter_allows_normal_queries_def test_rate_limiter_blocks_excessive_queries_def
      test_rate_limiter_per_ip_isolation_def test_rate_limiter_ipv6_support_def
      zero_rate_limit_config_is_rejected_def checks_on_new_def limiter_config_def new_rate_limiter_def
      nonzero_queries_per_second_def nonzero_burst_size_def nonzero_config_value_def ok_or_def
      check_def gcra_def Let_def)

section \<open>The answers of a zone\<close>

definition test_zone_with_nameservers ::
  "zcash_network \<Rightarrow> string \<Rightarrow> string \<Rightarrow> string list \<Rightarrow> servable_peer_lists
    \<Rightarrow> zone_error + (string list, string list, servable_peer_lists) seed_zone" where
  "test_zone_with_nameservers network seed_domain nameserver additional_nameservers peers =
     new_seed_zone sample_hickory network seed_domain nameserver additional_nameservers 600 peers"

definition test_zone ::
  "zcash_network \<Rightarrow> string \<Rightarrow> string \<Rightarrow> servable_peer_lists
    \<Rightarrow> zone_error + (string list, string list, servable_peer_lists) seed_zone" where
  "test_zone network seed_domain nameserver peers =
     test_zone_with_nameservers network seed_domain nameserver [] peers"

definition peer_at :: "ip_addr \<Rightarrow> peer_addr" where
  "peer_at ip = mk_addr ip 8233"

definition servable_peer_snapshot :: servable_peer_lists where
  "servable_peer_snapshot = \<lparr>sp_ipv4 = [peer_at (V4 (Ipv4Addr 1 2 3 4))],
     sp_ipv6 = [peer_at (V6 (Ipv6Addr 0x2001 0x0db8 0 0 0 0 0 1))]\<rparr>"

definition lower_name :: "string \<Rightarrow> string list option" where
  "lower_name name = map_option (hk_lower sample_hickory) (hk_from_ascii sample_hickory name)"

definition answer_for :: "string \<Rightarrow> string \<Rightarrow> record_type \<Rightarrow> servable_peer_lists \<Rightarrow> zone_answer option" where
  "answer_for seed_domain query_name record_type peers =
     (case test_zone Mainnet seed_domain ''ns.seeder.test'' default_servable_peers of
        Inl _ \<Rightarrow> None
      | Inr seed_zone \<Rightarrow> map_option (\<lambda>name. resolve_answer sample_hickory seed_zone name record_type peers)
          (lower_name query_name))"

definition answers_apex_queries_for_seed_domain :: bool where
  "answers_apex_queries_for_seed_domain \<longleftrightarrow>
     answer_for ''mainnet.seeder.test'' ''mainnet.seeder.test'' RecordA servable_peer_snapshot =
       Some (PeerAddresses (sp_ipv4 servable_peer_snapshot))"

definition subdomain_queries_under_seed_domain_return_no_data :: bool where
  "subdomain_queries_under_seed_domain_return_no_data \<longleftrightarrow>
     answer_for ''mainnet.seeder.test'' ''node.mainnet.seeder.test'' RecordAAAA servable_peer_snapshot = Some NoData"

definition answers_trailing_dot_queries_for_seed_domain :: bool where
  "answers_trailing_dot_queries_for_seed_domain \<longleftrightarrow>
     answer_for ''mainnet.seeder.test'' ''mainnet.seeder.test.'' RecordA servable_peer_snapshot =
       Some (PeerAddresses (sp_ipv4 servable_peer_snapshot))"

definition answers_mixed_case_seed_domain_queries :: bool where
  "answers_mixed_case_seed_domain_queries \<longleftrightarrow>
     answer_for ''MainNet.Seeder.Test'' ''mainnet.seeder.test.'' RecordA servable_peer_snapshot =
       Some (PeerAddresses (sp_ipv4 servable_peer_snapshot))"

definition answers_aaaa_queries_with_ipv6_peer_family :: bool where
  "answers_aaaa_queries_with_ipv6_peer_family \<longleftrightarrow>
     answer_for ''mainnet.seeder.test'' ''mainnet.seeder.test'' RecordAAAA servable_peer_snapshot =
       Some (PeerAddresses (sp_ipv6 servable_peer_snapshot))"

definition answers_nameserver_and_start_of_authority_for_seed_domain :: bool where
  "answers_nameserver_and_start_of_authority_for_seed_domain \<longleftrightarrow>
     answer_for ''mainnet.seeder.test'' ''mainnet.seeder.test'' RecordNS servable_peer_snapshot = Some Nameserver \<and>
     answer_for ''mainnet.seeder.test'' ''mainnet.seeder.test'' RecordSOA servable_peer_snapshot = Some StartOfAuthority"

text \<open>The code of the TXT type is 16.\<close>

definition returns_no_data_for_unsupported_record_types :: bool where
  "returns_no_data_for_unsupported_record_types \<longleftrightarrow>
     answer_for ''mainnet.seeder.test'' ''mainnet.seeder.test'' (RecordOther 16) servable_peer_snapshot = Some NoData"

definition empty_apex_peer_families_return_no_data :: bool where
  "empty_apex_peer_families_return_no_data \<longleftrightarrow>
     answer_for ''mainnet.seeder.test'' ''mainnet.seeder.test'' RecordA default_servable_peers = Some NoData"

definition unsupported_record_types_use_other_metric_label :: bool where
  "unsupported_record_types_use_other_metric_label \<longleftrightarrow>
     map record_type_label [RecordA, RecordAAAA, RecordSOA, RecordNS, RecordOther 16] =
       [RECORD_TYPE_A, RECORD_TYPE_AAAA, RECORD_TYPE_SOA, RECORD_TYPE_NS, RECORD_TYPE_OTHER]"

definition rejects_invalid_seed_domain :: bool where
  "rejects_invalid_seed_domain \<longleftrightarrow>
     \<not> is_ok (test_zone Mainnet ''not a domain'' ''ns.seeder.test'' default_servable_peers)"

definition rejects_in_zone_nameserver :: bool where
  "rejects_in_zone_nameserver \<longleftrightarrow>
     \<not> is_ok (test_zone Mainnet ''mainnet.seeder.test'' ''ns.mainnet.seeder.test'' default_servable_peers)"

definition rejects_duplicate_nameservers :: bool where
  "rejects_duplicate_nameservers \<longleftrightarrow>
     \<not> is_ok (test_zone_with_nameservers Mainnet ''mainnet.seeder.test'' ''ns1.seeder.test''
       [''NS1.SEEDER.TEST.'', ''ns2.seeder.test''] default_servable_peers)"

lemma sample_parsed_name:
  "parsed_name sample_hickory = sample_from_ascii" "hk_from_ascii sample_hickory = sample_from_ascii"
  "hk_to_ascii sample_hickory = join_with ''.''" "hk_lower sample_hickory = map (map lower_char)"
  "hk_zone_of sample_hickory = label_suffix" "hk_num_labels sample_hickory = counted_labels"
  "hk_to_name sample_hickory n = n"
  by (simp_all add: fun_eq_iff parsed_name_def sample_hickory_def option.map_ident)

lemma test_names:
  "sample_from_ascii ''mainnet.seeder.test'' = Some [''mainnet'', ''seeder'', ''test'']"
  "sample_from_ascii ''testnet.seeder.test'' = Some [''testnet'', ''seeder'', ''test'']"
  "sample_from_ascii ''mainnet.seeder.test.'' = Some [''mainnet'', ''seeder'', ''test'']"
  "sample_from_ascii ''MainNet.Seeder.Test'' = Some [''MainNet'', ''Seeder'', ''Test'']"
  "sample_from_ascii ''node.mainnet.seeder.test'' = Some [''node'', ''mainnet'', ''seeder'', ''test'']"
  "sample_from_ascii ''ns.seeder.test'' = Some [''ns'', ''seeder'', ''test'']"
  "sample_from_ascii ''ns.mainnet.seeder.test'' = Some [''ns'', ''mainnet'', ''seeder'', ''test'']"
  "sample_from_ascii ''not a domain'' = None"
  "sample_from_ascii ''wrong.domain.test'' = Some [''wrong'', ''domain'', ''test'']"
  "sample_from_ascii ''evilmainnet.seeder.test'' = Some [''evilmainnet'', ''seeder'', ''test'']"
  by code_simp+

lemma sample_mailboxes:
  "sample_from_ascii ''hostmaster.mainnet.seeder.test'' =
     Some [''hostmaster'', ''mainnet'', ''seeder'', ''test'']"
  "sample_from_ascii ''hostmaster.testnet.seeder.test'' =
     Some [''hostmaster'', ''testnet'', ''seeder'', ''test'']"
  "sample_from_ascii ''hostmaster.MainNet.Seeder.Test'' =
     Some [''hostmaster'', ''MainNet'', ''Seeder'', ''Test'']"
  by code_simp+

lemma test_zone_built:
  assumes "sample_from_ascii seed_domain = Some domain"
    and "those (map sample_from_ascii (nameserver # additional)) = Some ns"
    and "valid_nameservers sample_hickory (map (map lower_char) domain) ns"
    and "sample_from_ascii (''hostmaster.'' @ join_with ''.'' domain) = Some mailbox"
  shows "test_zone_with_nameservers network seed_domain nameserver additional peers =
    Inr (zone_of_texts sample_hickory network domain ns mailbox 600 peers)"
  using assms unfolding test_zone_with_nameservers_def new_seed_zone_Inr_iff
  by (auto simp: sample_parsed_name mailbox_of_def)

text \<open>A zone with its domain, nameservers and mailbox; all of the tests' zones have this form.\<close>

definition zone_at ::
  "zcash_network \<Rightarrow> string \<Rightarrow> string list list \<Rightarrow> servable_peer_lists
    \<Rightarrow> (string list, string list, servable_peer_lists) seed_zone" where
  "zone_at network label ns peers = zone_of_texts sample_hickory network [label, ''seeder'', ''test''] ns
     [''hostmaster'', label, ''seeder'', ''test''] 600 peers"

lemma zones_at_built:
  "test_zone Mainnet ''mainnet.seeder.test'' ''ns.seeder.test'' peers =
     Inr (zone_at Mainnet ''mainnet'' [[''ns'', ''seeder'', ''test'']] peers)"
  "test_zone Mainnet ''mainnet.seeder.test'' ''ns-mainnet.seeder.test'' peers =
     Inr (zone_at Mainnet ''mainnet'' [[''ns-mainnet'', ''seeder'', ''test'']] peers)"
  "test_zone Testnet ''testnet.seeder.test'' ''ns-testnet.seeder.test'' peers =
     Inr (zone_at Testnet ''testnet'' [[''ns-testnet'', ''seeder'', ''test'']] peers)"
  "test_zone_with_nameservers Mainnet ''mainnet.seeder.test'' ''ns1.seeder.test''
       [''ns2.seeder.test'', ''ns3.seeder.test''] peers =
     Inr (zone_at Mainnet ''mainnet''
       [[''ns1'', ''seeder'', ''test''], [''ns2'', ''seeder'', ''test''], [''ns3'', ''seeder'', ''test'']] peers)"
proof -
  have names: "sample_from_ascii ''ns-mainnet.seeder.test'' = Some [''ns-mainnet'', ''seeder'', ''test'']"
    "sample_from_ascii ''ns-testnet.seeder.test'' = Some [''ns-testnet'', ''seeder'', ''test'']"
    "sample_from_ascii ''ns1.seeder.test'' = Some [''ns1'', ''seeder'', ''test'']"
    "sample_from_ascii ''ns2.seeder.test'' = Some [''ns2'', ''seeder'', ''test'']"
    "sample_from_ascii ''ns3.seeder.test'' = Some [''ns3'', ''seeder'', ''test'']"
    by code_simp+
  have valid: "valid_nameservers sample_hickory (map (map lower_char) [''mainnet'', ''seeder'', ''test''])
      [[''ns'', ''seeder'', ''test'']]"
    "valid_nameservers sample_hickory (map (map lower_char) [''mainnet'', ''seeder'', ''test''])
      [[''ns-mainnet'', ''seeder'', ''test'']]"
    "valid_nameservers sample_hickory (map (map lower_char) [''testnet'', ''seeder'', ''test''])
      [[''ns-testnet'', ''seeder'', ''test'']]"
    "valid_nameservers sample_hickory (map (map lower_char) [''mainnet'', ''seeder'', ''test''])
      [[''ns1'', ''seeder'', ''test''], [''ns2'', ''seeder'', ''test''], [''ns3'', ''seeder'', ''test'']]"
    by code_simp+
  show "test_zone Mainnet ''mainnet.seeder.test'' ''ns.seeder.test'' peers =
     Inr (zone_at Mainnet ''mainnet'' [[''ns'', ''seeder'', ''test'']] peers)"
    unfolding test_zone_def zone_at_def by (rule test_zone_built[OF _ _ valid(1)]) (simp_all add: test_names names sample_mailboxes)
  show "test_zone Mainnet ''mainnet.seeder.test'' ''ns-mainnet.seeder.test'' peers =
     Inr (zone_at Mainnet ''mainnet'' [[''ns-mainnet'', ''seeder'', ''test'']] peers)"
    unfolding test_zone_def zone_at_def by (rule test_zone_built[OF _ _ valid(2)]) (simp_all add: test_names names sample_mailboxes)
  show "test_zone Testnet ''testnet.seeder.test'' ''ns-testnet.seeder.test'' peers =
     Inr (zone_at Testnet ''testnet'' [[''ns-testnet'', ''seeder'', ''test'']] peers)"
    unfolding test_zone_def zone_at_def by (rule test_zone_built[OF _ _ valid(3)]) (simp_all add: test_names names sample_mailboxes)
  show "test_zone_with_nameservers Mainnet ''mainnet.seeder.test'' ''ns1.seeder.test''
       [''ns2.seeder.test'', ''ns3.seeder.test''] peers =
     Inr (zone_at Mainnet ''mainnet''
       [[''ns1'', ''seeder'', ''test''], [''ns2'', ''seeder'', ''test''], [''ns3'', ''seeder'', ''test'']] peers)"
    unfolding zone_at_def by (rule test_zone_built[OF _ _ valid(4)]) (simp_all add: test_names names sample_mailboxes)
qed

lemma zone_at_simps:
  "network = Mainnet \<Longrightarrow> sz_domain (zone_at network ''mainnet'' ns peers) = [''mainnet'', ''seeder'', ''test'']"
  "network = Testnet \<Longrightarrow> sz_domain (zone_at network ''testnet'' ns peers) = [''testnet'', ''seeder'', ''test'']"
  "sz_servable_peers (zone_at network label ns peers) = peers"
  "sz_records (zone_at network label ns peers) = \<lparr>
     zr_soa = from_rdata [label, ''seeder'', ''test''] 600 (SOA \<lparr>soa_mname = hd ns,
       soa_rname = [''hostmaster'', label, ''seeder'', ''test''], soa_serial = 1, soa_refresh = 3600,
       soa_retry = 600, soa_expire = 86400, soa_minimum = 600\<rparr>),
     zr_nameservers = map (\<lambda>n. from_rdata [label, ''seeder'', ''test''] 600 (NS n)) ns\<rparr>"
  by (simp_all add: zone_at_def zone_of_texts_def sample_parsed_name lower_char_def)

lemma mixed_case_zone_built:
  "\<exists>z. test_zone Mainnet ''MainNet.Seeder.Test'' ''ns.seeder.test'' peers = Inr z \<and>
     sz_domain z = [''mainnet'', ''seeder'', ''test'']"
proof (intro exI conjI)
  show "test_zone Mainnet ''MainNet.Seeder.Test'' ''ns.seeder.test'' peers = Inr (zone_of_texts sample_hickory
      Mainnet [''MainNet'', ''Seeder'', ''Test''] [[''ns'', ''seeder'', ''test'']]
      [''hostmaster'', ''MainNet'', ''Seeder'', ''Test''] 600 peers)"
    unfolding test_zone_def
    by (rule test_zone_built)
      (simp_all add: test_names sample_mailboxes valid_nameservers_def sample_parsed_name label_suffix_def lower_char_def)
  have "map (map lower_char) [''MainNet'', ''Seeder'', ''Test''] = [''mainnet'', ''seeder'', ''test'']"
    by code_simp
  then show "sz_domain (zone_of_texts sample_hickory Mainnet [''MainNet'', ''Seeder'', ''Test'']
      [[''ns'', ''seeder'', ''test'']] [''hostmaster'', ''MainNet'', ''Seeder'', ''Test''] 600 peers) =
    [''mainnet'', ''seeder'', ''test'']"
    unfolding zone_of_texts_def by (simp only: sample_parsed_name seed_zone.simps)
qed

lemmas answer_test_simps =
  answer_for_def zones_at_built zone_at_simps lower_name_def test_names sample_parsed_name resolve_answer_def
  resolve_peer_answer_def servable_peer_snapshot_def default_servable_peers_def counted_labels_def lower_char_def

lemma zone_answer_tests_pass:
  "answers_apex_queries_for_seed_domain" "subdomain_queries_under_seed_domain_return_no_data"
  "answers_trailing_dot_queries_for_seed_domain" "answers_aaaa_queries_with_ipv6_peer_family"
  "answers_nameserver_and_start_of_authority_for_seed_domain" "returns_no_data_for_unsupported_record_types"
  "empty_apex_peer_families_return_no_data" "unsupported_record_types_use_other_metric_label"
  by (simp_all add: answers_apex_queries_for_seed_domain_def subdomain_queries_under_seed_domain_return_no_data_def
      answers_trailing_dot_queries_for_seed_domain_def answers_aaaa_queries_with_ipv6_peer_family_def
      answers_nameserver_and_start_of_authority_for_seed_domain_def
      returns_no_data_for_unsupported_record_types_def empty_apex_peer_families_return_no_data_def
      unsupported_record_types_use_other_metric_label_def answer_test_simps)

lemma mixed_case_test_passes: "answers_mixed_case_seed_domain_queries"
  using mixed_case_zone_built[of default_servable_peers]
  by (auto simp: answers_mixed_case_seed_domain_queries_def answer_test_simps)

lemma refused_zone_tests_pass:
  "rejects_invalid_seed_domain" "rejects_in_zone_nameserver" "rejects_duplicate_nameservers"
proof -
  have upper: "sample_from_ascii ''ns1.seeder.test'' = Some [''ns1'', ''seeder'', ''test'']"
    "sample_from_ascii ''NS1.SEEDER.TEST.'' = Some [''NS1'', ''SEEDER'', ''TEST'']"
    "sample_from_ascii ''ns2.seeder.test'' = Some [''ns2'', ''seeder'', ''test'']"
    by code_simp+
  show "rejects_invalid_seed_domain" "rejects_in_zone_nameserver"
    by (auto simp: rejects_invalid_seed_domain_def rejects_in_zone_nameserver_def test_zone_def
        test_zone_with_nameservers_def is_ok_iff new_seed_zone_Inr_iff sample_parsed_name test_names
        valid_nameservers_def label_suffix_def lower_char_def)
  have "\<not> valid_nameservers sample_hickory (map (map lower_char) [''mainnet'', ''seeder'', ''test''])
      [[''ns1'', ''seeder'', ''test''], [''NS1'', ''SEEDER'', ''TEST''], [''ns2'', ''seeder'', ''test'']]"
    by code_simp
  then show "rejects_duplicate_nameservers"
    by (auto simp: rejects_duplicate_nameservers_def test_zone_with_nameservers_def is_ok_iff
        new_seed_zone_Inr_iff sample_parsed_name test_names upper)
qed

section \<open>The handler\<close>

text \<open>
  Of the socket address of a test's request only the IP address matters. The request carries no
  metadata that the tests look at.
\<close>

type_synonym test_handler = "(string list, string list, servable_peer_lists, nat) dns_request_handler"

definition request_for :: "string \<Rightarrow> record_type \<Rightarrow> (string list, unit) dns_request option" where
  "request_for query_name record_type = map_option (\<lambda>name.
     \<lparr>rq_src = mk_addr LOCALHOST_V4 10000, rq_metadata = (), rq_queries = [(name, record_type)]\<rparr>)
     (lower_name query_name)"

definition answer_message ::
  "nat \<Rightarrow> test_handler \<Rightarrow> string \<Rightarrow> record_type \<Rightarrow> ((string list, unit) dns_response option \<times> test_handler) option" where
  "answer_message now request_handler query_name record_type = map_option (\<lambda>request.
     let out = (answer_request sample_hickory gcra (\<lambda>peers. peers) (\<lambda>_. Inr ()) now request_handler request ::
           (string list, unit, unit, nat) handled)
     in (hd_sent out, request_handler\<lparr>dh_rate_limiter := hd_rate_limiter out\<rparr>))
     (request_for query_name record_type)"

definition required_answer_message ::
  "nat \<Rightarrow> test_handler \<Rightarrow> string \<Rightarrow> record_type \<Rightarrow> (string list, unit) dns_response option" where
  "required_answer_message now request_handler query_name record_type =
     Option.bind (answer_message now request_handler query_name record_type) fst"

definition single_zone_handler ::
  "string \<Rightarrow> servable_peer_lists \<Rightarrow> nat rate_limiter option \<Rightarrow> zone_error + test_handler" where
  "single_zone_handler seed_domain peers rate_limiter =
     bind_result (test_zone Mainnet seed_domain ''ns.seeder.test'' peers) (\<lambda>seed_zone.
     Inr (new_handler [seed_zone] rate_limiter))"

definition with_handler :: "zone_error + test_handler \<Rightarrow> (test_handler \<Rightarrow> bool) \<Rightarrow> bool" where
  "with_handler handler test = (case handler of Inl _ \<Rightarrow> False | Inr handler \<Rightarrow> test handler)"

definition with_answer :: "(string list, unit) dns_response option \<Rightarrow> ((string list, unit) dns_response \<Rightarrow> bool) \<Rightarrow> bool" where
  "with_answer answer test = (case answer of None \<Rightarrow> False | Some response \<Rightarrow> test response)"

fun record_ip :: "'n dns_record \<Rightarrow> ip_addr option" where
  "record_ip r = (case dr_data r of A ip \<Rightarrow> Some (V4 ip) | AAAA ip \<Rightarrow> Some (V6 ip) | _ \<Rightarrow> None)"

definition ips_of :: "(string list, unit) dns_response \<Rightarrow> ip_addr set" where
  "ips_of response = set (List.map_filter record_ip (rs_answers response))"

fun is_soa :: "'n dns_record \<Rightarrow> bool" where
  "is_soa r = (case dr_data r of SOA _ \<Rightarrow> True | _ \<Rightarrow> False)"

fun nameserver_of :: "string list dns_record \<Rightarrow> string list option" where
  "nameserver_of r = (case dr_data r of NS n \<Rightarrow> Some (hk_lower sample_hickory n) | _ \<Rightarrow> None)"

fun primary_of :: "string list dns_record \<Rightarrow> string list option" where
  "primary_of r = (case dr_data r of SOA soa \<Rightarrow> Some (hk_lower sample_hickory (soa_mname soa)) | _ \<Rightarrow> None)"

definition refuses_queries_outside_every_zone :: "nat \<Rightarrow> bool" where
  "refuses_queries_outside_every_zone now \<longleftrightarrow>
     with_handler (single_zone_handler ''mainnet.seeder.test'' default_servable_peers None) (\<lambda>handler.
       list_all (\<lambda>outside. with_answer (required_answer_message now handler outside RecordA) (\<lambda>response.
           md_response_code (rs_metadata response) = Refused))
         [''wrong.domain.test'', ''evilmainnet.seeder.test''])"

definition routes_each_query_to_its_own_network_zone :: "nat \<Rightarrow> bool" where
  "routes_each_query_to_its_own_network_zone now \<longleftrightarrow>
     (let mainnet_v4 = V4 (Ipv4Addr 1 1 1 1);
          testnet_v4 = V4 (Ipv4Addr 2 2 2 2)
      in with_handler
           (bind_result (test_zone Mainnet ''mainnet.seeder.test'' ''ns-mainnet.seeder.test''
              \<lparr>sp_ipv4 = [peer_at mainnet_v4], sp_ipv6 = []\<rparr>) (\<lambda>mainnet_zone.
            bind_result (test_zone Testnet ''testnet.seeder.test'' ''ns-testnet.seeder.test''
              \<lparr>sp_ipv4 = [peer_at testnet_v4], sp_ipv6 = []\<rparr>) (\<lambda>testnet_zone.
            Inr (new_handler [mainnet_zone, testnet_zone] None))))
           (\<lambda>handler.
             with_answer (required_answer_message now handler ''mainnet.seeder.test'' RecordA)
               (\<lambda>mainnet. ips_of mainnet = {mainnet_v4}) \<and>
             with_answer (required_answer_message now handler ''testnet.seeder.test'' RecordA)
               (\<lambda>testnet. ips_of testnet = {testnet_v4}) \<and>
             with_answer (required_answer_message now handler ''other.example.com'' RecordA)
               (\<lambda>other. md_response_code (rs_metadata other) = Refused)))"

definition rate_limits_excessive_queries_without_sending_response :: "nat \<Rightarrow> bool" where
  "rate_limits_excessive_queries_without_sending_response now \<longleftrightarrow>
     (case (new_rate_limiter (limiter_config 1 2) :: string config_error + nat rate_limiter) of
        Inl _ \<Rightarrow> False
      | Inr rate_limiter \<Rightarrow>
          with_handler (single_zone_handler ''mainnet.seeder.test'' default_servable_peers (Some rate_limiter)) (\<lambda>handler.
            case answer_message now handler ''mainnet.seeder.test'' RecordA of
              None \<Rightarrow> False
            | Some (one, handler) \<Rightarrow> one \<noteq> None \<and>
               (case answer_message now handler ''mainnet.seeder.test'' RecordA of
                  None \<Rightarrow> False
                | Some (two, handler) \<Rightarrow> two \<noteq> None \<and>
                   (case answer_message now handler ''mainnet.seeder.test'' RecordA of
                      None \<Rightarrow> False
                    | Some (three, _) \<Rightarrow> three = None))))"

definition sends_cached_servable_peers_and_zone_metadata :: "nat \<Rightarrow> bool" where
  "sends_cached_servable_peers_and_zone_metadata now \<longleftrightarrow>
     (let v4a = V4 (Ipv4Addr 1 2 3 4);
          v4b = V4 (Ipv4Addr 5 6 7 8);
          v6 = V6 (Ipv6Addr 0x2001 0x0db8 0 0 0 0 0 1);
          peers = \<lparr>sp_ipv4 = [peer_at v4a, peer_at v4b], sp_ipv6 = [peer_at v6]\<rparr>
      in with_handler (single_zone_handler ''mainnet.seeder.test'' peers None) (\<lambda>handler.
           with_answer (required_answer_message now handler ''mainnet.seeder.test'' RecordA) (\<lambda>a.
             md_authoritative (rs_metadata a) \<and> md_response_code (rs_metadata a) = NoError \<and>
             ips_of a = {v4a, v4b}) \<and>
           with_answer (required_answer_message now handler ''mainnet.seeder.test'' RecordAAAA) (\<lambda>aaaa.
             ips_of aaaa = {v6}) \<and>
           with_answer (required_answer_message now handler ''mainnet.seeder.test'' RecordSOA) (\<lambda>soa.
             list_ex is_soa (rs_answers soa)) \<and>
           with_answer (required_answer_message now handler ''mainnet.seeder.test'' RecordNS) (\<lambda>ns.
             length (rs_answers ns) = 1 \<and>
             nameserver_of (rs_answers ns ! 0) = lower_name ''ns.seeder.test.'') \<and>
           with_answer (required_answer_message now handler ''node.mainnet.seeder.test'' RecordA) (\<lambda>no_data.
             rs_answers no_data = [] \<and> list_ex is_soa (rs_soas no_data))))"

definition returns_shared_nameserver_rrset_and_primary_soa :: "nat \<Rightarrow> bool" where
  "returns_shared_nameserver_rrset_and_primary_soa now \<longleftrightarrow>
     with_handler
       (bind_result (test_zone_with_nameservers Mainnet ''mainnet.seeder.test'' ''ns1.seeder.test''
          [''ns2.seeder.test'', ''ns3.seeder.test''] default_servable_peers) (\<lambda>zone.
        Inr (new_handler [zone] None)))
       (\<lambda>handler.
         with_answer (required_answer_message now handler ''mainnet.seeder.test'' RecordNS) (\<lambda>ns.
           set (map nameserver_of (rs_answers ns)) =
             {lower_name ''ns1.seeder.test.'', lower_name ''ns2.seeder.test.'', lower_name ''ns3.seeder.test.''}) \<and>
         with_answer (required_answer_message now handler ''mainnet.seeder.test'' RecordSOA) (\<lambda>soa.
           rs_answers soa \<noteq> [] \<and> primary_of (rs_answers soa ! 0) = lower_name ''ns1.seeder.test.''))"

definition empty_exact_name_peer_family_includes_soa_authority :: "nat \<Rightarrow> bool" where
  "empty_exact_name_peer_family_includes_soa_authority now \<longleftrightarrow>
     with_handler (single_zone_handler ''mainnet.seeder.test'' default_servable_peers None) (\<lambda>handler.
       with_answer (required_answer_message now handler ''mainnet.seeder.test'' RecordAAAA) (\<lambda>response.
         rs_answers response = [] \<and> list_ex is_soa (rs_soas response)))"

lemma lower_names:
  "lower_name ''mainnet.seeder.test'' = Some [''mainnet'', ''seeder'', ''test'']"
  "lower_name ''testnet.seeder.test'' = Some [''testnet'', ''seeder'', ''test'']"
  "lower_name ''node.mainnet.seeder.test'' = Some [''node'', ''mainnet'', ''seeder'', ''test'']"
  "lower_name ''wrong.domain.test'' = Some [''wrong'', ''domain'', ''test'']"
  "lower_name ''evilmainnet.seeder.test'' = Some [''evilmainnet'', ''seeder'', ''test'']"
  "lower_name ''other.example.com'' = Some [''other'', ''example'', ''com'']"
  "lower_name ''ns.seeder.test.'' = Some [''ns'', ''seeder'', ''test'']"
  "lower_name ''ns1.seeder.test.'' = Some [''ns1'', ''seeder'', ''test'']"
  "lower_name ''ns2.seeder.test.'' = Some [''ns2'', ''seeder'', ''test'']"
  "lower_name ''ns3.seeder.test.'' = Some [''ns3'', ''seeder'', ''test'']"
  by code_simp+

lemma unlimited_answer:
  "lower_name query_name = Some name \<Longrightarrow>
     required_answer_message now (new_handler zones None) query_name ty =
       Some (query_response sample_hickory (\<lambda>peers. peers) (new_handler zones None :: test_handler)
         \<lparr>rq_src = mk_addr LOCALHOST_V4 10000, rq_metadata = (), rq_queries = [(name, ty)]\<rparr>)"
  by (simp add: required_answer_message_def answer_message_def request_for_def answer_request_cases
      over_budget_def new_handler_def Let_def)

lemma query_response_first:
  "query_response h borrow (new_handler zones limiter) \<lparr>rq_src = src, rq_metadata = m, rq_queries = [(name, ty)]\<rparr> =
    (case matching_zone h zones name of
       None \<Rightarrow> \<lparr>rs_metadata = (initial_metadata m)\<lparr>md_response_code := Refused\<rparr>, rs_answers = [], rs_soas = []\<rparr>
     | Some zone \<Rightarrow>
         let rr = fst (response_records_for_answer h zone name (resolve_answer h zone name ty (borrow (sz_servable_peers zone))))
         in \<lparr>rs_metadata = initial_metadata m, rs_answers = rr_answer_records rr, rs_soas = rr_soa_records rr\<rparr>)"
  by (simp add: query_response_def answer_query_first new_handler_def default_response_records_def Let_def
      split: option.split)

lemmas handler_test_simps =
  with_handler_def with_answer_def single_zone_handler_def zones_at_built lower_names unlimited_answer
  query_response_first matching_zone_def contains_def zone_at_simps label_suffix_def sample_parsed_name
  initial_metadata_def

lemmas record_test_simps =
  resolve_answer_def resolve_peer_answer_def response_records_for_answer_def peer_record_def from_rdata_def
  counted_labels_def default_servable_peers_def peer_at_def ips_of_def List.map_filter_simps

lemma refusal_test_passes: "refuses_queries_outside_every_zone now"
  by (simp add: refuses_queries_outside_every_zone_def handler_test_simps)

lemma routing_test_passes: "routes_each_query_to_its_own_network_zone now"
  by (simp add: routes_each_query_to_its_own_network_zone_def handler_test_simps record_test_simps Let_def)

lemma metadata_test_passes: "sends_cached_servable_peers_and_zone_metadata now"
  by (simp add: sends_cached_servable_peers_and_zone_metadata_def handler_test_simps record_test_simps lower_char_def Let_def)

lemma empty_family_test_passes: "empty_exact_name_peer_family_includes_soa_authority now"
  by (simp add: empty_exact_name_peer_family_includes_soa_authority_def handler_test_simps record_test_simps Let_def)

lemma nameserver_test_passes: "returns_shared_nameserver_rrset_and_primary_soa now"
  by (simp add: returns_shared_nameserver_rrset_and_primary_soa_def handler_test_simps record_test_simps
      lower_char_def Let_def)

lemma limit_test_passes: "rate_limits_excessive_queries_without_sending_response now"
proof -
  have limiter: "(new_rate_limiter (limiter_config 1 2) :: string config_error + nat rate_limiter) = Inr sample_limiter"
    by (simp add: new_rate_limiter_iff limiter_config_def sample_limiter_def)
  show ?thesis
    by (simp add: rate_limits_excessive_queries_without_sending_response_def limiter with_handler_def
        single_zone_handler_def zones_at_built answer_message_def request_for_def lower_names
        answer_request_cases over_budget_def limiter_after_def new_handler_def sample_limiter_def
        check_def gcra_def Let_def)
qed

end
