(* ===== verification/Activation_Tests.thy ===== *)
theory Activation_Tests
  imports Activation_Observer
begin

text \<open>
  The unit tests at the end of \<open>src/crawl/activation.rs\<close>, translated: each is a boolean that
  computes what the test asserts, on the instance of zebra's tables that the tests pin, and the
  model passes it. They tie the model to the results the code's authors expect of the code. The
  tests that open sockets, and the one that reads a document, have no counterpart.
\<close>

section \<open>The gate\<close>

text \<open>The results of a gate's calls of \<open>observe\<close>.\<close>

fun observations :: "activation_gate \<Rightarrow> sweep_evidence list \<Rightarrow> bool list" where
  "observations gate [] = []"
| "observations gate (e # es) = (let (confirmed, gate) = observe gate e in confirmed # observations gate es)"

definition half_ready_never_confirms :: bool where
  "half_ready_never_confirms \<longleftrightarrow>
     observations default_gate (replicate 10 \<lparr>se_total_groups = 12, se_ready_groups = 6\<rparr>) = replicate 10 False"

definition fixed_quorum_confirms_on_the_third_consecutive_sweep :: bool where
  "fixed_quorum_confirms_on_the_third_consecutive_sweep \<longleftrightarrow>
     (let quorum = \<lparr>se_total_groups = 12, se_ready_groups = 9\<rparr>
      in observations default_gate [quorum, quorum, quorum] = [False, False, True])"

definition non_qualifying_sweep_resets_confirmation_progress :: bool where
  "non_qualifying_sweep_resets_confirmation_progress \<longleftrightarrow>
     (let quorum = \<lparr>se_total_groups = 12, se_ready_groups = 9\<rparr>
      in observations default_gate
           [quorum, quorum, \<lparr>se_total_groups = 12, se_ready_groups = 8\<rparr>, quorum, quorum, quorum] =
         [False, False, False, False, False, True])"

definition quorum_below_the_diversity_floor_never_confirms :: bool where
  "quorum_below_the_diversity_floor_never_confirms \<longleftrightarrow>
     observations default_gate (replicate 10 \<lparr>se_total_groups = 8, se_ready_groups = 8\<rparr>) = replicate 10 False"

lemma no_quorum_observations:
  assumes "exact_evidence e" "\<not> qualifies e"
  shows "observations gate (replicate n e) = replicate n False"
  by (induction n arbitrary: gate) (simp_all add: observe_exact[OF assms(1)] assms(2))

lemma quorum_observation:
  "observe gate \<lparr>se_total_groups = 12, se_ready_groups = 9\<rparr> =
     (let n = saturating_add (ag_qualifying_sweeps gate) 1 in (3 \<le> n, gate\<lparr>ag_qualifying_sweeps := n\<rparr>))"
  by (subst observe_exact) (simp_all add: exact_evidence_def qualifies_def)

lemma reset_observation:
  "observe gate \<lparr>se_total_groups = 12, se_ready_groups = 8\<rparr> = (False, gate\<lparr>ag_qualifying_sweeps := 0\<rparr>)"
  by (subst observe_exact) (simp_all add: exact_evidence_def qualifies_def)

lemma gate_tests_pass:
  "half_ready_never_confirms" "quorum_below_the_diversity_floor_never_confirms"
  "fixed_quorum_confirms_on_the_third_consecutive_sweep"
  "non_qualifying_sweep_resets_confirmation_progress"
  unfolding half_ready_never_confirms_def quorum_below_the_diversity_floor_never_confirms_def
    fixed_quorum_confirms_on_the_third_consecutive_sweep_def
    non_qualifying_sweep_resets_confirmation_progress_def Let_def
     apply (rule no_quorum_observations; simp add: exact_evidence_def qualifies_def)
    apply (rule no_quorum_observations; simp add: exact_evidence_def qualifies_def)
   apply (simp add: quorum_observation default_gate_def saturating_add_def word_le_nat_alt Let_def)
  apply (simp add: quorum_observation reset_observation default_gate_def saturating_add_def word_le_nat_alt Let_def)
  done

section \<open>Groups and sampling\<close>

definition network_groups_use_ipv4_16_and_ipv6_32_prefixes :: bool where
  "network_groups_use_ipv4_16_and_ipv6_32_prefixes \<longleftrightarrow>
     network_group (V4 (Ipv4Addr 1 2 3 4)) = network_group (V4 (Ipv4Addr 1 2 200 201)) \<and>
     network_group (V4 (Ipv4Addr 1 2 3 4)) \<noteq> network_group (V4 (Ipv4Addr 1 3 3 4)) \<and>
     network_group (V6 (Ipv6Addr 0x2001 0xdb8 1 2 3 4 5 6)) =
       network_group (V6 (Ipv6Addr 0x2001 0xdb8 9 8 7 6 5 4)) \<and>
     network_group (V6 (Ipv6Addr 0x2001 0xdb8 1 2 3 4 5 6)) \<noteq>
       network_group (V6 (Ipv6Addr 0x2001 0xdb9 1 2 3 4 5 6))"

lemma network_group_test_passes: "network_groups_use_ipv4_16_and_ipv6_32_prefixes"
  by (simp add: network_groups_use_ipv4_16_and_ipv6_32_prefixes_def)

text \<open>This test draws on the generator; it passes for every shuffle and every order of the map.\<close>

definition sampling_candidates :: "peer_addr list" where
  "sampling_candidates = concat (map (\<lambda>group. map (\<lambda>host.
     mk_addr (V4 (Ipv4Addr (of_nat group) 1 host 1)) 8233) [1, 2]) [1..<81])"

definition sampling_caps_unique_network_groups :: "('r, peer_addr) shuffler \<Rightarrow> value_order \<Rightarrow> 'r \<Rightarrow> bool" where
  "sampling_caps_unique_network_groups sh into_values r \<longleftrightarrow>
     (let sampled = fst (sample_network_group_candidates sh into_values r sampling_candidates);
          sampled_groups = remdups (map (\<lambda>addr. network_group (sa_ip addr)) sampled)
      in length sampled = MAX_NETWORK_GROUPS_PER_SWEEP \<and> length sampled_groups = length sampled)"

lemma sampling_test_passes:
  assumes "is_shuffle sh" "yields_values into_values"
  shows "sampling_caps_unique_network_groups sh into_values r"
proof -
  let ?groups = "(\<lambda>n. Ipv4Group [of_nat n, 1]) ` {1..<81}"
  have "group_of ` set sampling_candidates = ?groups"
    by (auto simp: sampling_candidates_def image_iff intro!: bexI)
  moreover have "inj_on (\<lambda>n. Ipv4Group [of_nat n, 1]) {1..<81}"
    by (auto simp: inj_on_def word_unat_eq_iff unat_of_nat)
  ultimately have "card (group_of ` set sampling_candidates) = 80"
    by (simp add: card_image)
  with candidates_sample[OF assms, of sampling_candidates r] show ?thesis
    by (simp add: sampling_caps_unique_network_groups_def group_sample_def MAX_NETWORK_GROUPS_PER_SWEEP_def
        distinct_remdups_id)
qed

section \<open>Targets\<close>

definition latest_mainnet_target_requires_reorg_safe_nu7_depth :: bool where
  "latest_mainnet_target_requires_reorg_safe_nu7_depth \<longleftrightarrow>
     (let target = latest_target pinned_zebra (zb_mainnet pinned_zebra)
      in at_activation_height target = 3543405 \<and> at_confirmation_height target = 3544405 \<and>
         at_required_version target = 170190 \<and> at_pre_activation_height target = 3543404)"

definition latest_testnet_target_requires_reorg_safe_nu7_depth :: bool where
  "latest_testnet_target_requires_reorg_safe_nu7_depth \<longleftrightarrow>
     (let target = latest_target pinned_zebra (zb_default_testnet pinned_zebra)
      in at_activation_height target = 4465026 \<and> at_confirmation_height target = 4466026 \<and>
         at_required_version target = 170180 \<and> at_pre_activation_height target = 4465025)"

definition sweep_interval_respects_the_peer_reconnection_delay :: bool where
  "sweep_interval_respects_the_peer_reconnection_delay \<longleftrightarrow>
     list_all (\<lambda>network. sweep_interval pinned_zebra network
         (at_activation_height (latest_target pinned_zebra network)) = from_secs 125)
       [zb_mainnet pinned_zebra, zb_default_testnet pinned_zebra]"

lemma target_tests_pass:
  "latest_mainnet_target_requires_reorg_safe_nu7_depth" "latest_testnet_target_requires_reorg_safe_nu7_depth"
  "sweep_interval_respects_the_peer_reconnection_delay"
  by (simp_all add: latest_mainnet_target_requires_reorg_safe_nu7_depth_def
      latest_testnet_target_requires_reorg_safe_nu7_depth_def
      sweep_interval_respects_the_peer_reconnection_delay_def latest_target_def pinned_zebra_simps
      saturating_add_def sweep_interval_def MIN_SWEEP_INTERVAL_def OBSERVATION_TIMEOUT_def
      duration_saturating_mul_def duration_saturating_add_def DURATION_MAX_def from_secs_def Let_def)

section \<open>Probe outcomes\<close>

definition probe_outcome_reports_the_first_unmet_condition :: bool where
  "probe_outcome_reports_the_first_unmet_condition \<longleftrightarrow>
     (let target = latest_target pinned_zebra (zb_mainnet pinned_zebra);
          tall = at_confirmation_height target;
          short = at_pre_activation_height target;
          current = at_required_version target;
          old = at_required_version target - 10;
          full = 1;
          partial = 0
      in list_all (\<lambda>(height, version, services, expected). of_handshake 1 height version services target = expected)
           [(tall, current, full, Ready),
            (tall - 1, current, full, BelowConfirmationHeight),
            (short, old, partial, BelowConfirmationHeight),
            (tall, old, partial, OutdatedPeerVersion),
            (tall, current, partial, PeerNotFullNode)])"

definition probe_outcome_classifies_handshake_errors :: bool where
  "probe_outcome_classifies_handshake_errors \<longleftrightarrow>
     list_all (\<lambda>(error, expected). of_handshake_error error = expected)
       [(Boxed_Io (IoError OtherKind ''connection refused''), ConnectFailed),
        (Boxed_Handshake Handshake_ConnectionClosed, HandshakeClosed),
        (Boxed_Handshake (Handshake_Io (IoError OtherKind ''connection reset'')), HandshakeClosed),
        (Boxed_Handshake Handshake_Timeout, HandshakeTimeout),
        (Boxed_Handshake (Handshake_ObsoleteVersion 170100), OutdatedPeerVersion),
        (Boxed_Handshake Handshake_RemoteNonceReuse, HandshakeFailed),
        (Boxed_Handshake Handshake_LocalDuplicateNonce, HandshakeFailed),
        (Boxed_Other ''unrecognized error'', HandshakeFailed)]"

definition probe_outcome_labels_are_distinct :: bool where
  "probe_outcome_labels_are_distinct \<longleftrightarrow>
     (let labels = map outcome_label ALL_OUTCOMES in length (remdups labels) = length labels)"

lemma outcome_tests_pass:
  "probe_outcome_reports_the_first_unmet_condition" "probe_outcome_classifies_handshake_errors"
  "probe_outcome_labels_are_distinct"
  by (simp_all add: probe_outcome_reports_the_first_unmet_condition_def
      probe_outcome_classifies_handshake_errors_def probe_outcome_labels_are_distinct_def latest_target_def
      pinned_zebra_simps saturating_add_def of_handshake_def services_contain_def of_handshake_error_def
      downcast_handshake_def is_io_error_def ALL_OUTCOMES_def Let_def)

section \<open>Records and attestation\<close>

definition v1_7_0_testnet_confirmation_record_still_matches :: bool where
  "v1_7_0_testnet_confirmation_record_still_matches \<longleftrightarrow>
     (let record = ''activation_height=4465026'' @ newline @ ''confirmation_height=4466026'' @ newline @
            ''minimum_protocol_version=170180'' @ newline
      in matches_confirmation_record (latest_target pinned_zebra (zb_default_testnet pinned_zebra)) record)"

definition nu6_3_mainnet_confirmation_record_no_longer_matches :: bool where
  "nu6_3_mainnet_confirmation_record_no_longer_matches \<longleftrightarrow>
     (let record = ''activation_height=3428143'' @ newline @ ''confirmation_height=3429143'' @ newline @
            ''minimum_protocol_version=170160'' @ newline
      in \<not> matches_confirmation_record (latest_target pinned_zebra (zb_mainnet pinned_zebra)) record)"

definition durable_confirmation_round_trips :: "path \<Rightarrow> bool" where
  "durable_confirmation_round_trips path \<longleftrightarrow>
     (let target = latest_target pinned_zebra (zb_mainnet pinned_zebra);
          (result, files) = persist_confirmation sample_files [] (Some path) target
      in is_ok result \<and> load_confirmation sample_files files (Some path) target)"

definition operator_attestation_rejects_a_mismatched_compiled_target :: bool where
  "operator_attestation_rejects_a_mismatched_compiled_target \<longleftrightarrow>
     list_all (\<lambda>(activation, confirmation, version).
         case fst (attest_confirmation pinned_zebra sample_files [] (zb_custom_path pinned_zebra [''tmp''])
             (zb_default_testnet pinned_zebra) activation confirmation version) of
           Inl error \<Rightarrow> io_error_kind error = InvalidInputKind
         | Inr _ \<Rightarrow> False)
       [(4465026, 4466026, 170160), (4465026, 4466025, 170180), (4465025, 4466026, 170180)]"

definition operator_attestation_persists_the_exact_compiled_target :: bool where
  "operator_attestation_persists_the_exact_compiled_target \<longleftrightarrow>
     (let target = latest_target pinned_zebra (zb_default_testnet pinned_zebra);
          (result, files) = attest_confirmation pinned_zebra sample_files [] (zb_custom_path pinned_zebra [''tmp''])
            (zb_default_testnet pinned_zebra) (at_activation_height target) (at_confirmation_height target)
            (at_required_version target)
      in case result of
           Inr path \<Rightarrow> load_confirmation sample_files files (Some path) target
         | Inl _ \<Rightarrow> False)"

lemma record_tests_pass:
  "v1_7_0_testnet_confirmation_record_still_matches" "nu6_3_mainnet_confirmation_record_no_longer_matches"
  "operator_attestation_rejects_a_mismatched_compiled_target"
  "operator_attestation_persists_the_exact_compiled_target"
  by (simp_all add: v1_7_0_testnet_confirmation_record_still_matches_def
      nu6_3_mainnet_confirmation_record_no_longer_matches_def
      operator_attestation_rejects_a_mismatched_compiled_target_def
      operator_attestation_persists_the_exact_compiled_target_def matches_confirmation_record_def
      confirmation_record_def latest_target_def pinned_zebra_simps saturating_add_def Let_def
      attest_confirmation_def record_text_inject attestation_mismatch_def confirmation_path_def path_join_def
      persist_confirmation_def load_confirmation_def sample_files_def)
    (simp_all add: record_text_def show_u32_def show_nat.simps digit_char_def digit_chars newline_def)

lemma round_trip_test_passes: "path \<noteq> [''read-only''] \<Longrightarrow> durable_confirmation_round_trips path"
  by (simp add: durable_confirmation_round_trips_def persist_confirmation_def load_confirmation_def
      sample_files_def matches_confirmation_record_def Let_def)

end
