(* ===== verification/Process_Tests.thy ===== *)
theory Process_Tests
  imports Command_Line Activation_Tests "HOL-Library.Sublist"
begin

text \<open>
  The unit tests inside \<open>src/seeder.rs\<close>, \<open>src/build_info.rs\<close>, \<open>src/commands.rs\<close> and
  \<open>src/main.rs\<close>, and the remaining one of \<open>src/crawl/activation.rs\<close>, as booleans over the
  model, which passes them. Tests that do not fix the build's variables or a parser hold for all
  of them.
\<close>

section \<open>Errors of the DNS sockets\<close>

definition dns_bind_error_includes_configured_address :: bool where
  "dns_bind_error_includes_configured_address \<longleftrightarrow>
     (let error = dns_bind_error ''UDP socket'' \<lparr>sa_ip = V4 (Ipv4Addr 127 0 0 1), sa_port = 19056\<rparr>
      in sublist ''127.0.0.1:19056'' error \<and> \<not> sublist ''privileged port'' error)"

definition privileged_dns_bind_error_includes_hint :: bool where
  "privileged_dns_bind_error_includes_hint \<longleftrightarrow>
     (let error = dns_bind_error ''UDP socket'' \<lparr>sa_ip = V4 (Ipv4Addr 0 0 0 0), sa_port = 53\<rparr>
      in sublist ''0.0.0.0:53'' error \<and> sublist ''privileged port'' error)"

lemma bind_error_tests_pass:
  "dns_bind_error_includes_configured_address" "privileged_dns_bind_error_includes_hint"
  by (simp_all add: dns_bind_error_includes_configured_address_def privileged_dns_bind_error_includes_hint_def
      dns_bind_error_def show_socket_addr_def Let_def)
    (simp_all add: show_ipv4_def show_nat.simps digit_char_def digit_chars sublist_code)

section \<open>Build identity\<close>

definition cli_version_includes_package_version :: "build_env \<Rightarrow> bool" where
  "cli_version_includes_package_version env \<longleftrightarrow> sublist (VERSION env) (cli_version env)"

definition cli_version_includes_short_git_sha_when_available :: "build_env \<Rightarrow> bool" where
  "cli_version_includes_short_git_sha_when_available env \<longleftrightarrow>
     (case be_vergen_git_sha env of
        None \<Rightarrow> True
      | Some sha \<Rightarrow>
          let short_sha = (case get_prefix 7 sha of None \<Rightarrow> sha | Some short \<Rightarrow> short)
          in sublist short_sha (cli_version env))"

definition user_agent_identifies_package_version_and_git_sha :: "build_env \<Rightarrow> bool" where
  "user_agent_identifies_package_version_and_git_sha env \<longleftrightarrow>
     (let agent = user_agent env
      in prefix (PACKAGE_NAME env @ ''/'' @ VERSION env) agent \<and>
         (case be_vergen_git_sha env of
            None \<Rightarrow> True
          | Some sha \<Rightarrow>
              let short_sha = (case get_prefix 7 sha of None \<Rightarrow> sha | Some short \<Rightarrow> short)
              in sublist short_sha agent))"

definition git_sha_label_uses_full_git_sha_when_available :: "build_env \<Rightarrow> bool" where
  "git_sha_label_uses_full_git_sha_when_available env \<longleftrightarrow>
     git_sha_label env = (case be_vergen_git_sha env of None \<Rightarrow> UNKNOWN_GIT_SHA | Some sha \<Rightarrow> sha)"

lemma sublist_middle: "sublist ys (xs @ ys @ zs)"
  by (rule sublist_appendI)

lemma build_tests_pass:
  "cli_version_includes_package_version env" "cli_version_includes_short_git_sha_when_available env"
  "user_agent_identifies_package_version_and_git_sha env" "git_sha_label_uses_full_git_sha_when_available env"
proof -
  have short: "sublist short (xs @ '' ('' @ short @ '')'')" for short xs
    using sublist_middle[of short "xs @ '' (''" "'')''"] by simp
  show "cli_version_includes_package_version env"
    by (simp add: cli_version_includes_package_version_def cli_version_def split: option.split)
  show "cli_version_includes_short_git_sha_when_available env"
    using short by (simp add: cli_version_includes_short_git_sha_when_available_def cli_version_def short_git_sha_def
        Let_def split: option.split)
  show "user_agent_identifies_package_version_and_git_sha env"
    using short[of _ "PACKAGE_NAME env @ ''/'' @ VERSION env"]
    by (simp add: user_agent_identifies_package_version_and_git_sha_def user_agent_def short_git_sha_def
        Let_def split: option.split)
  show "git_sha_label_uses_full_git_sha_when_available env"
    by (simp add: git_sha_label_uses_full_git_sha_when_available_def git_sha_label_def)
qed

section \<open>The log filter and the environment file\<close>

definition log_filter_defaults_when_rust_log_is_missing ::
  "(string \<Rightarrow> string + 'filter) \<Rightarrow> (string \<Rightarrow> 'filter) \<Rightarrow> bool" where
  "log_filter_defaults_when_rust_log_is_missing try_new_filter new_filter \<longleftrightarrow>
     is_ok (log_filter_from_env try_new_filter new_filter (\<lambda>_. NotPresent))"

definition log_filter_rejects_invalid_rust_log ::
  "(string \<Rightarrow> string + 'filter) \<Rightarrow> (string \<Rightarrow> 'filter) \<Rightarrow> bool" where
  "log_filter_rejects_invalid_rust_log try_new_filter new_filter \<longleftrightarrow>
     \<not> is_ok (log_filter_from_env try_new_filter new_filter
       (\<lambda>name. if name = RUST_LOG_ENV then EnvValue ''['' else NotPresent))"

definition missing_dotenv_file_is_allowed :: "path \<Rightarrow> bool" where
  "missing_dotenv_file_is_allowed path \<longleftrightarrow>
     is_ok (load_dotenv_from_path (\<lambda>_. Inl DotenvNotFound) path :: string main_error + unit)"

definition malformed_dotenv_file_is_rejected :: "string \<Rightarrow> path \<Rightarrow> bool" where
  "malformed_dotenv_file_is_rejected error path \<longleftrightarrow>
     \<not> is_ok (load_dotenv_from_path (\<lambda>_. Inl (DotenvFailed error)) path :: string main_error + unit)"

lemma environment_tests_pass:
  "log_filter_defaults_when_rust_log_is_missing try_new new"
  "\<not> is_ok (try_new ''['') \<Longrightarrow> log_filter_rejects_invalid_rust_log try_new new"
  "missing_dotenv_file_is_allowed path" "malformed_dotenv_file_is_rejected error path"
  by (auto simp: log_filter_defaults_when_rust_log_is_missing_def log_filter_rejects_invalid_rust_log_def
      missing_dotenv_file_is_allowed_def malformed_dotenv_file_is_rejected_def log_filter_from_env_def
      load_dotenv_from_path_def map_err_def split: sum.splits)

section \<open>The confirmation record\<close>

text \<open>\<open>str::replace\<close> for a pattern that is not empty; the first argument counts the characters to skip.\<close>

primrec str_replace :: "nat \<Rightarrow> string \<Rightarrow> string \<Rightarrow> string \<Rightarrow> string" where
  "str_replace skip old new [] = []"
| "str_replace skip old new (c # cs) =
     (if 0 < skip then str_replace (skip - 1) old new cs
      else if prefix old (c # cs) then new @ str_replace (length old - 1) old new cs
      else c # str_replace 0 old new cs)"

definition persisted_confirmation_must_match_the_compiled_target_exactly :: bool where
  "persisted_confirmation_must_match_the_compiled_target_exactly \<longleftrightarrow>
     (let target = latest_target pinned_zebra (zb_mainnet pinned_zebra);
          record = confirmation_record target
      in matches_confirmation_record target record \<and>
         \<not> matches_confirmation_record target
           (str_replace 0 ''minimum_protocol_version=170190'' ''minimum_protocol_version=170160'' record))"

lemma record_replacement_test_passes: "persisted_confirmation_must_match_the_compiled_target_exactly"
  by (simp add: persisted_confirmation_must_match_the_compiled_target_exactly_def matches_confirmation_record_def
      confirmation_record_def latest_target_def pinned_zebra_simps saturating_add_def Let_def)
    (simp add: record_text_def show_u32_def show_nat.simps digit_char_def digit_chars newline_def)

section \<open>Links in the documents\<close>

text \<open>
  The helper by which a test finds the local files that a document links to. The pattern that
  opens a link cannot overlap itself, so that its matches are the places where it is a prefix.
\<close>

definition local_link :: "string \<Rightarrow> string option" where
  "local_link rest =
     (if CHR '')'' \<notin> set rest then None
      else
        let link = takeWhile (\<lambda>c. c \<noteq> CHR '')'') rest;
            file_target = takeWhile (\<lambda>c. c \<noteq> CHR ''#'') link
        in if file_target = [] \<or> prefix ''http://'' file_target \<or> prefix ''https://'' file_target \<or>
              prefix ''mailto:'' file_target
           then None else Some file_target)"

primrec local_markdown_links :: "string \<Rightarrow> string list" where
  "local_markdown_links [] = []"
| "local_markdown_links (c # cs) =
     (if prefix '']('' (c # cs)
      then (case local_link (drop 1 cs) of None \<Rightarrow> [] | Some file_target \<Rightarrow> [file_target]) else []) @
     local_markdown_links cs"

text \<open>Each is the start of what a link of the document holds, without the anchor, and no address of the web.\<close>

lemma mem_guarded: "x \<in> set (if b then (case y of None \<Rightarrow> [] | Some z \<Rightarrow> [z]) else []) \<longleftrightarrow> b \<and> y = Some x"
  by (cases b; cases y; simp only: option.case if_True if_False; auto)

lemma links_are_in_the_text:
  assumes "l \<in> set (local_markdown_links s)"
  shows "l \<noteq> [] \<and> sublist ('']('' @ l) s"
  using assms
proof (induction s)
  case (Cons c cs)
  show ?case
  proof (cases "l \<in> set (local_markdown_links cs)")
    case True
    with Cons.IH show ?thesis by (simp add: sublist_Cons_right)
  next
    case False
    with Cons.prems have open_link: "prefix '']('' (c # cs)" and link: "local_link (drop 1 cs) = Some l"
      unfolding local_markdown_links.simps set_append Un_iff mem_guarded by blast+
    from link have "l \<noteq> []" "prefix l (drop 1 cs)"
      by (auto simp: local_link_def Let_def split: if_splits
          intro: prefix_order.trans[OF takeWhile_is_prefix takeWhile_is_prefix])
    moreover from open_link obtain cs' where "c = CHR '']''" "cs = CHR ''('' # cs'" by (auto simp: prefix_def)
    ultimately show ?thesis by simp
  qed
qed simp

end
