(* ===== verification/Spec2Isabelle.thy ===== *)
theory Spec2Isabelle
  imports Configured_Process Readiness_Runs Sweep_Quorum Refresh_Schedule Serving_Tests Config_Layer_Tests Document_Tests
    Dns_Tests Process_Tests
begin

text \<open>
  Zeeder is a DNS seeder for Zcash: it crawls the network with zebra-network and serves the
  addresses of recently live peers of a current protocol version over DNS. This development
  models its Rust code (\<open>src/src\<close>) function by function and proves what makes each component,
  and the process they form, correct.

  The program's parts. At start-up (\<open>commands.rs\<close>, \<open>main.rs\<close>) a command is run: \<open>start\<close> loads and
  validates a configuration (\<open>config.rs\<close>) and runs the seeder (\<open>seeder.rs\<close>); \<open>print-config\<close>
  prints it; \<open>attest-activation\<close> writes a confirmation record. For every configured network the
  seeder builds a target from zebra's activation table, loads the record of an earlier
  confirmation, makes a chain tip (\<open>crawl/chain_tip.rs\<close>) that stands below the newest activation
  or at it, and starts zebra-network, a cache task (\<open>crawl/address_cache.rs\<close>) and an activation
  observer (\<open>crawl/activation.rs\<close>). Every five seconds the cache task classifies the peers of the
  address book (\<open>crawl/servability.rs\<close>) at the floor of the tip and publishes at most 25 addresses
  per family. The observer probes at most one peer per network group, counts consecutive
  qualifying sweeps, and after three of them writes the record and then raises the tip. The DNS
  handler (\<open>dns/request_handler.rs\<close>) limits clients (\<open>dns/rate_limiter.rs\<close>), routes a query to the
  zone that contains its name and answers from the published snapshot. The health endpoint
  (\<open>health.rs\<close>) reads the same snapshots. Metrics (\<open>metrics.rs\<close>) are updated everywhere.

  Theories, in the order of their imports, and what they model:
  \<^item> \<open>Seeder_Prelude\<close>: errors as sums (\<open>bind_result\<close>, \<open>ensure\<close>, \<open>result_fold\<close>), saturating
    arithmetic on words, shuffles as permutations, decimal printing, and the locales
    \<open>safe_machine\<close> and \<open>monotone_machine\<close> that lift a step's invariant to every run.
  \<^item> \<open>Net_Address\<close>: IP and socket addresses of the standard library with their printing,
    durations in nanoseconds, and tokio's \<open>timeout\<close>.
  \<^item> \<open>Zebra_Api\<close>: the interfaces of zebra and hickory as records of functions, with the laws the
    code relies on, and a concrete instance of each for the witnesses.
  \<^item> \<open>Network_Config\<close>: \<open>config.rs\<close>; \<open>validate_config_correct\<close> gives its declarative meaning.
  \<^item> \<open>Config_Values\<close>: what the \<open>Serialize\<close> and \<open>Deserialize\<close> derived in \<open>config.rs\<close> write and accept, on
    trees of values: unknown and double names, defaults, optional sections, zones by network.
  \<^item> \<open>Metric_Ops\<close>: \<open>metrics.rs\<close>; a function that updates metrics returns the list of updates.
  \<^item> \<open>Peer_Servability\<close>: \<open>servability.rs\<close>; the first failing condition is the reason.
  \<^item> \<open>Activation_Target\<close>, \<open>Activation_Gate\<close>, \<open>Activation_Sampling\<close>, \<open>Activation_Probe\<close>,
    \<open>Activation_Observer\<close>: \<open>activation.rs\<close>, in the order of the file: target, record and
    attestation; the gate; sampling; probing; the task.
  \<^item> \<open>Sweep_Quorum\<close>: how many network groups have to show an activation before that task confirms it.
  \<^item> \<open>Sweep_Schedule\<close>: when the sweeps of that task start, on tokio's interval, and how soon they
    can confirm an activation.
  \<^item> \<open>Chain_Floor\<close>: \<open>chain_tip.rs\<close> and the protocol floor that zebra derives from a tip.
  \<^item> \<open>Address_Cache\<close>: \<open>address_cache.rs\<close>; the snapshot with its gauges and the refresh task.
  \<^item> \<open>Refresh_Schedule\<close>: when that task reads the book and sends, and so how old a snapshot gets.
  \<^item> \<open>Query_Limiter\<close>: \<open>rate_limiter.rs\<close> with its prune loop.
  \<^item> \<open>Zone_Records\<close>, \<open>Query_Handler\<close>: \<open>request_handler.rs\<close>; a zone with its records and answers,
    then routing and the whole handler.
  \<^item> \<open>Health_Endpoint\<close>: \<open>health.rs\<close>; a connection from the bytes read to the response written.
  \<^item> \<open>Build_Identity\<close>: \<open>build_info.rs\<close> and the build script.
  \<^item> \<open>Seeder_Process\<close>: \<open>seeder.rs\<close>; start-up as a function of what the system calls return.
  \<^item> \<open>Process_Steps\<close>: the running process as a step relation over one state, in which the tasks
    of all networks, the queries, the probes and restarts interleave in any order.
  \<^item> \<open>Task_Stages\<close>: the passes of the cache, of the observer and of a query, cut where another task
    can run in between; each is shown to be the composition of its stages.
  \<^item> \<open>Task_Interleaving\<close>: the running process as a step relation whose steps are these stages, with
    the local variables of each task between two stages, many queries in flight, the attestation
    command and crashes in the middle of a pass; its invariant \<open>staged_inv\<close>.
  \<^item> \<open>Interleaved_Runs\<close>: what holds of every interleaving, and that every run of \<open>Process_Steps\<close> is
    one of them with the same responses.
  \<^item> \<open>Readiness_Runs\<close>: what the readiness endpoint watches and reports over the runs of both
    relations.
  \<^item> \<open>Command_Line\<close>: \<open>commands.rs\<close> and \<open>main.rs\<close>.
  \<^item> \<open>Configured_Process\<close>: from the tree of a configuration to the limiter of the running process.
  \<^item> \<open>Activation_Tests\<close>, \<open>Serving_Tests\<close>, \<open>Config_Tests\<close>, \<open>Config_Layer_Tests\<close>, \<open>Document_Tests\<close>,
    \<open>Dns_Tests\<close>, \<open>Process_Tests\<close>: the unit tests inside these files as booleans over the model, which
    passes them; they tie the model to what the code's authors expect of the code.
    \<open>Config_Layer_Tests\<close> layers files and variables by a sample of the config crate, and
    \<open>Document_Tests\<close> takes the text of the operations guide as an argument.

  How state and operations correspond. A struct is a record with the struct's fields under a
  two-letter prefix, an enum a datatype with its variants, a method a function of its \<open>self\<close>. A
  task's loop is a function on a record of its local variables (\<open>observer_pass\<close>, \<open>refresh_cache\<close>,
  \<open>prune_pass\<close>), one turn per pass; shared state (the watch channels, the files) is a field of
  the record that owns it. Errors are values of sums, with one constructor per place that wraps
  one; log lines have no counterpart. Integers keep their width; counts that the code bounds
  at 64 are shown to be exact.

  What the groups of lemmas show. Each component has its functional behaviour on every branch,
  its invariant (\<open>snapshot_ok\<close>, \<open>observer_inv\<close>, \<open>well_built\<close>) and, where it has one, the
  specification it refines: the gate the history of sweeps, the limiter the run without other
  clients and without pruning, the configuration check a predicate. The contracts between
  components are locales, each interpreted on the model: \<open>zone_validator\<close> (validation and
  routing), \<open>confirmation_store\<close> (observer, attestation, restart), \<open>snapshot_holder\<close> (cache,
  handler, health), \<open>dropping_simulation\<close> (limiter), \<open>checked_loop\<close> (nameservers),
  \<open>labelled_machine\<close> (the interleaved tasks). The theorems of \<open>Process_Steps\<close>, \<open>Interleaved_Runs\<close>,
  \<open>Readiness_Runs\<close>, \<open>Command_Line\<close> and this theory are about whole runs and about components
  that have to agree: cache and DNS answers, cache and readiness, readiness and DNS answers,
  attestation and start.

  Bounds and fuel. No definition uses fuel: recursion is structural or, for decoding and
  splitting the bytes of a probe, terminates by a measure on what is left to read.

  What is a parameter. Code outside the repository: zebra-network's handshakes, address book
  and tables, hickory's names and message building, governor's cells, the file system behind
  zebra's atomic write, the random generator, the clock, the config and toml crates, clap,
  dotenvy, vergen, tokio's interval, the Prometheus recorder, sockets and signals. How the config
  crate presents a value as a type of the program is a \<open>value_reader\<close>. Laws on them are premises, stated as
  predicates (\<open>file_system_laws\<close>, \<open>chain_laws\<close>, \<open>name_laws\<close>, \<open>governor_laws\<close>, \<open>reader_laws\<close>, \<open>is_shuffle\<close>), and
  each is shown of a concrete instance.

  Two grains of the running process. In \<open>Process_Steps\<close> a pass of a task is one step; in
  \<open>Task_Interleaving\<close> a step is one stage: a refresh reads the tip before it locks the book, so a
  confirmation between the two takes effect at the next refresh only, and the observer writes
  the record in one step and raises the tip in a later one. The coarse relation gives the exact
  book of each answer, the fine one shows that interleaving does not break the safety
  properties, and the first refines to the second (\<open>passes_refine_to_stages\<close>). That every pass that
  has begun ends is not stated: the mutex of the address book and the awaits inside
  zebra-network are not modelled. A stage itself, a readiness response and a
  write of the file system are atomic.

  Not modelled. The module declarations hold no behaviour of their own; deployment files and
  documents are not part of the program. How the config crate merges sources and clap parses arguments
  is not in the repository; the tests of clap, of the rendered TOML, of zebra's bans, of open
  sockets, of the manifest and of documents other than the operations guide have no
  counterpart, nor do log lines and tracing spans. Time passes freely between the steps of a run;
  the intervals of the loops are constants of the model, and \<open>Sweep_Schedule\<close> and
  \<open>Refresh_Schedule\<close> tie the passes of one task to times.
\<close>

section \<open>Confirmation and what clients are told\<close>

text \<open>Once a network's activation is confirmed, clients are told only of peers at the version it
  requires: from any state in which the tip is confirmed, through any further events, crashes
  and restarts included, every address record sent for that network's zone out of a snapshot
  refreshed since is the address of a peer in the refreshed book whose negotiated version is at
  the newest activation's required version or above.\<close>

theorem confirmed_network_serves_current_peers:
  assumes "environment_laws E" "started_process E config p0" "process_run E config p0 es p"
    and "tip_at p n = Some t" "is_activation_confirmed t"
    and "process_run E config p es' r" "process_step E config r (CacheRefreshed n book now) q"
    and "process_run E config q es'' q'" "list_all (keeps_snapshot n) es''"
    and "process_step E config q' (QueryHandled request out) q''" "hd_sent out = Some response"
    and "rq_queries request = (name, ty) # more_queries" "ty \<in> {RecordA, RecordAAAA}"
    and "matching_zone (en_hickory E) (dh_zones (pr_handler q')) name = Some zone" "sz_network zone = n"
  shows "\<forall>answer \<in> set (rs_answers response). \<exists>m \<in> set (ab_peers (en_book E) book).
    answer = peer_record (en_hickory E) name (sz_ttl zone) (ma_addr (en_book E) m) \<and>
    at_target (en_book E) (at_required_version (network_target E n)) m"
proof
  fix answer assume answer: "answer \<in> set (rs_answers response)"
  have inv: "process_inv E config p" by (rule process_run_inv[OF assms(1,3) started_inv[OF assms(1,2)]])
  have inv': "process_inv E config r" by (rule process_run_inv[OF assms(1,6) inv])
  from run_tip[OF assms(1,6) inv, of n] assms(4,5) obtain t' where t': "tip_at r n = Some t'"
    and confirmed: "is_activation_confirmed t'"
    by (auto simp: tip_raised_def split: option.splits)
  have floor: "at_required_version (network_target E n) \<le> protocol_floor (en_zebra E) (to_zebra (en_zebra E) n) t'"
    by (rule confirmed_tip_floor[OF assms(1) inv' t' confirmed])
  from answers_after_refresh[OF assms(1) inv' assms(7-15) t' answer] obtain m
    where m: "m \<in> set (ab_peers (en_book E) book)"
      "answer = peer_record (en_hickory E) name (sz_ttl zone) (ma_addr (en_book E) m)"
    and "servable (peer_attributes_of (en_zebra E) (en_book E) book m now (to_zebra (en_zebra E) n)
      (protocol_floor (en_zebra E) (to_zebra (en_zebra E) n) t'))"
    by blast
  then have "at_target (en_book E) (protocol_floor (en_zebra E) (to_zebra (en_zebra E) n) t') m"
    by (simp add: servable_unfold peer_attributes_of_def at_target_def Let_def)
  with m floor show "\<exists>m \<in> set (ab_peers (en_book E) book).
      answer = peer_record (en_hickory E) name (sz_ttl zone) (ma_addr (en_book E) m) \<and>
      at_target (en_book E) (at_required_version (network_target E n)) m"
    by (auto simp: at_target_def intro: order_trans)
qed

theorem confirmed_network_serves_current_peers_witness:
  "\<exists>p q q' out response name ttl. started_process sample_environment sample_config p \<and>
     process_step sample_environment sample_config p (CacheRefreshed Mainnet sample_book 0 :: sample_event) q \<and>
     process_step sample_environment sample_config q
       (QueryHandled (sample_request name RecordA) out :: sample_event) q' \<and>
     hd_sent out = Some response \<and>
     list_all (\<lambda>answer. list_ex (\<lambda>m. answer = peer_record sample_hickory name ttl (ma_addr sample_book_api m) \<and>
       at_target sample_book_api (at_required_version (network_target sample_environment Mainnet)) m)
       (ab_peers sample_book_api sample_book)) (rs_answers response)"
proof -
  obtain p t where p: "started_process sample_environment sample_config p"
    and t: "tip_at p Mainnet = Some t" "is_activation_confirmed t"
    using sample_confirmed_start by blast
  from sample_refresh_and_query[OF p] obtain q q' out response zone where zone: "sz_network zone = Mainnet"
    and refresh: "process_step sample_environment sample_config p (CacheRefreshed Mainnet sample_book 0 :: sample_event) q"
    and matching: "matching_zone sample_hickory (dh_zones (pr_handler q)) (sz_domain zone) = Some zone"
    and query: "process_step sample_environment sample_config q
      (QueryHandled (sample_request (sz_domain zone) RecordA) out :: sample_event) q'"
    and sent: "hd_sent out = Some response"
    by blast
  have "list_all (\<lambda>answer. list_ex (\<lambda>m. answer = peer_record sample_hickory (sz_domain zone) (sz_ttl zone)
        (ma_addr sample_book_api m) \<and>
       at_target sample_book_api (at_required_version (network_target sample_environment Mainnet)) m)
       (ab_peers sample_book_api sample_book)) (rs_answers response)"
    using confirmed_network_serves_current_peers[OF sample_environment_laws p run_nil t run_nil refresh run_nil _ query sent,
        of "sz_domain zone" RecordA "[]" zone] zone matching
    by (simp add: sample_request_def sample_environment_def list_all_iff list_ex_iff)
  with p refresh query sent show ?thesis by blast
qed

section \<open>Readiness and what clients are told\<close>

text \<open>The two apex address queries of a zone bring its whole snapshot.\<close>

lemma apex_answers:
  assumes "name_laws h labels" "zones_disjoint h (dh_zones self)" "zone \<in> set (dh_zones self)"
    and "rq_queries request = (sz_domain zone, ty) # more_queries" "ty \<in> {RecordA, RecordAAAA}"
    and "hd_sent (answer_request h gv borrow send now self request) = Some response"
  shows "length (rs_answers response) =
    length ((if ty = RecordA then sp_ipv4 else sp_ipv6) (borrow (sz_servable_peers zone)))"
proof -
  have "contains h zone (sz_domain zone)" using assms(1) by (simp add: contains_def zone_of_refl)
  from matching_zone_unique[OF assms(1-3) this] show ?thesis
    using assms(5) unfolding sent_is_query_response[OF assms(6)]
    by (auto simp: response_in_zone[OF assms(4)] resolve_answer_def resolve_peer_answer_def
        response_records_for_answer_def Let_def)
qed

text \<open>C14: The readiness endpoint and the DNS answers agree: with the zones of a validated
  configuration, the readiness response is a 200 exactly when, for each of them, the answers to
  an A and to an AAAA query for its domain have together at least the threshold of addresses,
  for any responses that the handler sends to such queries while the snapshots are the same.\<close>

theorem readiness_counts_answers:
  assumes "name_laws h labels" and "zones_disjoint h (dh_zones self)"
    and "\<forall>z \<in> set (dh_zones self). rq_queries (qa z) = (sz_domain z, RecordA) # more_queries z \<and>
      hd_sent (answer_request h gv borrow send now self (qa z)) = Some (ra z)"
    and "\<forall>z \<in> set (dh_zones self). rq_queries (qb z) = (sz_domain z, RecordAAAA) # more_queries' z \<and>
      hd_sent (answer_request h gv borrow send now' self (qb z)) = Some (rb z)"
  shows "take 12 (readiness_response borrow (map readiness (dh_zones self)) th) = ''HTTP/1.1 200'' \<longleftrightarrow>
    list_all (\<lambda>z. unat th \<le> length (rs_answers (ra z)) + length (rs_answers (rb z))) (dh_zones self)"
proof -
  have "total (borrow (sz_servable_peers z)) = length (rs_answers (ra z)) + length (rs_answers (rb z))"
    if z: "z \<in> set (dh_zones self)" for z
  proof -
    from assms(3) z have qa: "rq_queries (qa z) = (sz_domain z, RecordA) # more_queries z"
      "hd_sent (answer_request h gv borrow send now self (qa z)) = Some (ra z)" by blast+
    from assms(4) z have qb: "rq_queries (qb z) = (sz_domain z, RecordAAAA) # more_queries' z"
      "hd_sent (answer_request h gv borrow send now' self (qb z)) = Some (rb z)" by blast+
    from apex_answers[OF assms(1,2) z qa(1) _ qa(2)] apex_answers[OF assms(1,2) z qb(1) _ qb(2)]
    show ?thesis by (simp add: total_def)
  qed
  then show ?thesis by (simp add: readiness_status list_all_iff readiness_def)
qed

theorem readiness_counts_answers_witness:
  "take 12 (readiness_response (\<lambda>_. sample_snapshot) (map readiness (dh_zones sample_handler)) 3) = ''HTTP/1.1 200'' \<longleftrightarrow>
     3 \<le> length (rs_answers (query_response sample_hickory (\<lambda>_. sample_snapshot) sample_handler
         (sample_request [''main'', ''seed'', ''org''] RecordA))) +
       length (rs_answers (query_response sample_hickory (\<lambda>_. sample_snapshot) sample_handler
         (sample_request [''main'', ''seed'', ''org''] RecordAAAA)))"
proof -
  have zones: "dh_zones sample_handler = [sample_seed_zone]"
    by (simp add: sample_handler_def new_handler_def)
  have disjoint: "zones_disjoint sample_hickory (dh_zones sample_handler)"
    by (simp add: zones zones_disjoint_def)
  have asked: "\<forall>z \<in> set (dh_zones sample_handler).
      rq_queries (sample_request (sz_domain z) ty) = (sz_domain z, ty) # [] \<and>
      hd_sent (sample_answer (sz_domain z) ty) = Some (query_response sample_hickory (\<lambda>_. sample_snapshot) sample_handler
        (sample_request (sz_domain z) ty))" for ty
    by (simp add: sample_sent) (simp add: sample_request_def)
  from readiness_counts_answers[OF sample_name_laws disjoint asked[of RecordA] asked[of RecordAAAA], of 3]
  show ?thesis by (simp add: zones sample_seed_zone_domain)
qed

end
